(* ===== verification/Prelude.thy ===== *)
theory Prelude
  imports Main "HOL-Library.Char_ord"
begin

text \<open>
  Shared vocabulary of the development.  Text and byte strings are both lists of the
  eight-bit type \<^typ>\<open>char\<close>: a Rust \<^verbatim>\<open>String\<close> is its UTF-8 byte sequence, so
  \<^verbatim>\<open>str::len\<close> is \<^const>\<open>length\<close>.  Machine integers are \<^typ>\<open>nat\<close> or \<^typ>\<open>int\<close> with the
  saturating, checked and wrapping operations of the source written out against the
  bounds below.  A fallible operation returns a sum whose left summand is the error.
  A SQL table is the list of its rows; \<^verbatim>\<open>UPDATE .. WHERE\<close>, \<^verbatim>\<open>SELECT .. LIMIT\<close> and
  \<^verbatim>\<open>COUNT\<close> are the functions of the last group.
\<close>

named_theorems wire_simps \<open>closed enumerations and their wire codecs\<close>
named_theorems journal_simps \<open>unfolding rules of the journal operations\<close>
named_theorems table_simps \<open>row-wise facts about table updates\<close>

type_synonym byte = char
type_synonym micros = int

subsection \<open>Machine integers\<close>

definition u32_max :: nat where
  "u32_max = 4294967295"

definition u64_max :: nat where
  "u64_max = 18446744073709551615"

definition i64_max :: int where
  "i64_max = 9223372036854775807"

definition i64_min :: int where
  "i64_min = - 9223372036854775808"

definition is_i64 :: "int \<Rightarrow> bool" where
  "is_i64 x \<longleftrightarrow> i64_min \<le> x \<and> x \<le> i64_max"

definition sat_add_u32 :: "nat \<Rightarrow> nat \<Rightarrow> nat" where
  "sat_add_u32 a b = min u32_max (a + b)"

definition sat_add_u64 :: "nat \<Rightarrow> nat \<Rightarrow> nat" where
  "sat_add_u64 a b = min u64_max (a + b)"

definition sat_mul_u64 :: "nat \<Rightarrow> nat \<Rightarrow> nat" where
  "sat_mul_u64 a b = min u64_max (a * b)"

definition sat_add_i64 :: "int \<Rightarrow> int \<Rightarrow> int" where
  "sat_add_i64 a b = max i64_min (min i64_max (a + b))"

definition sat_sub_i64 :: "int \<Rightarrow> int \<Rightarrow> int" where
  "sat_sub_i64 a b = max i64_min (min i64_max (a - b))"

definition checked_mul_i64 :: "int \<Rightarrow> int \<Rightarrow> int option" where
  "checked_mul_i64 a b = (if is_i64 (a * b) then Some (a * b) else None)"

text \<open>\<^verbatim>\<open>1i64.checked_shl(n)\<close>: \<open>None\<close> from 64 bits on, otherwise the two's complement
  value (the sign bit alone at 63).\<close>
definition checked_shl_one_i64 :: "nat \<Rightarrow> int option" where
  "checked_shl_one_i64 n =
    (if 64 \<le> n then None else if n = 63 then Some i64_min else Some (2 ^ n))"

lemma sat_add_u32_le [simp]: "sat_add_u32 a b \<le> u32_max"
  by (simp add: sat_add_u32_def)

lemma sat_add_u32_mono: "a \<le> c \<Longrightarrow> sat_add_u32 a b \<le> sat_add_u32 c b"
  by (auto simp: sat_add_u32_def)

lemma sat_add_u32_exact: "a + b \<le> u32_max \<Longrightarrow> sat_add_u32 a b = a + b"
  by (simp add: sat_add_u32_def)

lemma sat_add_i64_is_i64 [simp]: "is_i64 (sat_add_i64 a b)"
  by (auto simp: is_i64_def sat_add_i64_def i64_min_def i64_max_def)

lemma sat_add_i64_ge: "0 \<le> b \<Longrightarrow> is_i64 a \<Longrightarrow> a \<le> sat_add_i64 a b"
  by (auto simp: is_i64_def sat_add_i64_def)

lemma sat_add_i64_mono: "b \<le> c \<Longrightarrow> sat_add_i64 a b \<le> sat_add_i64 a c"
  by (auto simp: sat_add_i64_def)

lemma sat_add_i64_exact: "is_i64 (a + b) \<Longrightarrow> sat_add_i64 a b = a + b"
  by (auto simp: is_i64_def sat_add_i64_def)

subsection \<open>Results\<close>

definition res_bind :: "'e + 'a \<Rightarrow> ('a \<Rightarrow> 'e + 'b) \<Rightarrow> 'e + 'b" where
  "res_bind m f = (case m of Inl e \<Rightarrow> Inl e | Inr x \<Rightarrow> f x)"

definition is_ok :: "'e + 'a \<Rightarrow> bool" where
  "is_ok m = (case m of Inl _ \<Rightarrow> False | Inr _ \<Rightarrow> True)"

fun first_error :: "('e + unit) list \<Rightarrow> 'e + unit" where
  "first_error [] = Inr ()"
| "first_error (Inl e # ms) = Inl e"
| "first_error (Inr _ # ms) = first_error ms"

lemma res_bind_simps [simp]:
  "res_bind (Inl e) f = Inl e"
  "res_bind (Inr x) f = f x"
  by (simp_all add: res_bind_def)

lemma res_bind_Inr_iff: "res_bind m f = Inr y \<longleftrightarrow> (\<exists>x. m = Inr x \<and> f x = Inr y)"
  by (cases m) auto

lemma res_bind_Inr_E:
  assumes "res_bind m f = Inr y"
  obtains x where "m = Inr x" "f x = Inr y"
  using assms by (auto simp: res_bind_Inr_iff)

lemma is_ok_simps [simp]: "is_ok (Inl e) = False" "is_ok (Inr x) = True"
  by (simp_all add: is_ok_def)

lemma first_error_ok: "first_error ms = Inr () \<longleftrightarrow> (\<forall>m\<in>set ms. is_ok m)"
  by (induction ms rule: first_error.induct) auto

subsection \<open>Tables\<close>

definition update_where :: "('r \<Rightarrow> bool) \<Rightarrow> ('r \<Rightarrow> 'r) \<Rightarrow> 'r list \<Rightarrow> 'r list" where
  "update_where P f rows = map (\<lambda>r. if P r then f r else r) rows"

definition count_where :: "('r \<Rightarrow> bool) \<Rightarrow> 'r list \<Rightarrow> nat" where
  "count_where P rows = length (filter P rows)"

definition select_limit :: "('r \<Rightarrow> bool) \<Rightarrow> ('r \<Rightarrow> 'k::linorder) \<Rightarrow> nat \<Rightarrow> 'r list \<Rightarrow> 'r list" where
  "select_limit P key n rows = take n (sort_key key (filter P rows))"

lemma set_update_where [table_simps]:
  "set (update_where P f rows) = {r \<in> set rows. \<not> P r} \<union> f ` {r \<in> set rows. P r}"
  by (auto simp: update_where_def)

lemma update_where_mem:
  "r \<in> set rows \<Longrightarrow> (if P r then f r else r) \<in> set (update_where P f rows)"
  unfolding update_where_def by auto

lemma update_where_none [table_simps]: "(\<And>r. r \<in> set rows \<Longrightarrow> \<not> P r) \<Longrightarrow> update_where P f rows = rows"
  by (induction rows) (auto simp: update_where_def)

lemma map_update_where [table_simps]:
  "(\<And>r. k (f r) = k r) \<Longrightarrow> map k (update_where P f rows) = map k rows"
  by (simp add: update_where_def)

lemma length_update_where [simp]: "length (update_where P f rows) = length rows"
  by (simp add: update_where_def)

lemma select_limit_subset: "set (select_limit P key n rows) \<subseteq> {r \<in> set rows. P r}"
  by (auto simp: select_limit_def dest: in_set_takeD)

lemma select_limit_length: "length (select_limit P key n rows) \<le> n"
  by (simp add: select_limit_def)

lemma select_limit_sorted: "sorted (map key (select_limit P key n rows))"
  by (simp add: select_limit_def sorted_wrt_take flip: take_map)

lemma select_limit_all:
  assumes "count_where P rows \<le> n"
  shows "set (select_limit P key n rows) = {r \<in> set rows. P r}"
  using assms by (simp add: select_limit_def count_where_def)

lemma find_Some_mem: "find P xs = Some x \<Longrightarrow> x \<in> set xs \<and> P x"
  by (auto simp: find_Some_iff)

lemma find_distinct_key:
  assumes "distinct (map k xs)" "x \<in> set xs"
  shows "find (\<lambda>y. k y = k x) xs = Some x"
  using assms by (induction xs) (auto simp: rev_image_eqI)

lemma find_append: "find P (xs @ ys) = (case find P xs of None \<Rightarrow> find P ys | Some x \<Rightarrow> Some x)"
  by (induction xs) auto

lemma find_update_where:
  assumes "\<And>w. P w \<Longrightarrow> Q (f w) = Q w"
  shows "find Q (update_where P f rows) = map_option (\<lambda>w. if P w then f w else w) (find Q rows)"
  using assms by (induction rows) (auto simp: update_where_def)

end
