(* ===== verification/Utf8.thy ===== *)
theory Utf8
  imports Prelude
begin

text \<open>
  UTF-8 validity as \<^verbatim>\<open>core::str::from_utf8\<close> decides it: the well-formed byte
  sequences of the Unicode standard, with the second-byte restrictions that exclude overlong
  forms, surrogates and code points above the maximum.
\<close>

definition in_range :: "nat \<Rightarrow> nat \<Rightarrow> byte \<Rightarrow> bool" where
  "in_range lo hi b \<longleftrightarrow> lo \<le> of_char b \<and> of_char b \<le> hi"

definition second_byte_ok :: "byte \<Rightarrow> byte \<Rightarrow> bool" where
  "second_byte_ok b0 b1 =
    (if b0 = CHR 0xE0 then in_range 0xA0 0xBF b1
     else if b0 = CHR 0xED then in_range 0x80 0x9F b1
     else if b0 = CHR 0xF0 then in_range 0x90 0xBF b1
     else if b0 = CHR 0xF4 then in_range 0x80 0x8F b1
     else in_range 0x80 0xBF b1)"

fun utf8_valid :: "byte list \<Rightarrow> bool" where
  "utf8_valid [] = True"
| "utf8_valid (b0 # bs) =
    (if in_range 0 0x7F b0 then utf8_valid bs
     else case bs of [] \<Rightarrow> False | b1 # bs1 \<Rightarrow>
       if in_range 0xC2 0xDF b0 then in_range 0x80 0xBF b1 \<and> utf8_valid bs1
       else case bs1 of [] \<Rightarrow> False | b2 # bs2 \<Rightarrow>
         if in_range 0xE0 0xEF b0
         then second_byte_ok b0 b1 \<and> in_range 0x80 0xBF b2 \<and> utf8_valid bs2
         else case bs2 of [] \<Rightarrow> False | b3 # bs3 \<Rightarrow>
           in_range 0xF0 0xF4 b0 \<and> second_byte_ok b0 b1 \<and> in_range 0x80 0xBF b2 \<and>
           in_range 0x80 0xBF b3 \<and> utf8_valid bs3)"

lemma utf8_valid_ascii: "list_all (in_range 0 0x7F) bs \<Longrightarrow> utf8_valid bs"
  by (induction bs) auto

lemma utf8_valid_ascii_append:
  "list_all (in_range 0 0x7F) bs \<Longrightarrow> utf8_valid (bs @ cs) = utf8_valid cs"
  by (induction bs) auto

text \<open>A prefix that does not end inside a multi-byte sequence is valid.\<close>
lemma utf8_valid_take:
  "utf8_valid bs \<Longrightarrow> n \<le> length bs \<Longrightarrow> (n < length bs \<Longrightarrow> \<not> in_range 0x80 0xBF (bs ! n)) \<Longrightarrow>
    utf8_valid (take n bs)"
proof (induction bs arbitrary: n rule: utf8_valid.induct)
  case (2 b0 bs)
  show ?case
  proof (cases n)
    case (Suc m)
    then have cut: "m < length bs \<Longrightarrow> \<not> in_range 0x80 0xBF (bs ! m)" and len: "m \<le> length bs"
      using "2.prems" by auto
    have second: "in_range 0x80 0xBF b1" if "second_byte_ok b0 b1" for b1
      using that by (auto simp: second_byte_ok_def in_range_def split: if_splits)
    show ?thesis
    proof (cases "in_range 0 0x7F b0")
      case True
      then show ?thesis using "2.IH"(1) "2.prems" Suc cut len by simp
    next
      case wide: False
      then obtain b1 bs1 where bs: "bs = b1 # bs1" using "2.prems" by (auto split: list.splits)
      then obtain m1 where m: "m = Suc m1"
        using cut len wide "2.prems" second by (cases m) (auto split: if_splits list.splits)
      show ?thesis
      proof (cases "in_range 0xC2 0xDF b0")
        case True
        then show ?thesis using "2.IH"(2) [OF wide bs] wide "2.prems" Suc bs m by auto
      next
        case w3: False
        then obtain b2 bs2 where bs1: "bs1 = b2 # bs2" using wide "2.prems" bs by (auto split: list.splits)
        then obtain m2 where m1: "m1 = Suc m2"
          using cut len wide w3 "2.prems" bs m by (cases m1) (auto split: if_splits list.splits)
        show ?thesis
        proof (cases "in_range 0xE0 0xEF b0")
          case True
          then show ?thesis using "2.IH"(3) [OF wide bs w3 bs1] wide w3 "2.prems" Suc bs m bs1 m1 by auto
        next
          case w4: False
          then obtain b3 bs3 where bs2: "bs2 = b3 # bs3"
            using wide w3 "2.prems" bs bs1 by (auto split: list.splits)
          then obtain m3 where "m2 = Suc m3"
            using cut len wide w3 w4 "2.prems" bs bs1 m m1 by (cases m2) auto
          then show ?thesis
            using "2.IH"(4) [OF wide bs w3 bs1 w4 bs2] wide w3 w4 "2.prems" Suc bs m bs1 m1 bs2 by auto
        qed
      qed
    qed
  qed simp
qed simp

end
