(* ===== verification/Framing.thy ===== *)
theory Framing
  imports Utf8
begin

text \<open>
  Bounded wire frames, from \<^verbatim>\<open>tracedecay-framing/src/lib.rs\<close>: the one-shot readers
  \<^verbatim>\<open>read_bounded_to_end\<close> and \<^verbatim>\<open>read_bounded_to_string\<close>, and the cancellation-safe
  \<^verbatim>\<open>BoundedLineReader\<close>.  A buffered source is the list of what successive
  \<^verbatim>\<open>fill_buf\<close> calls observe: a chunk (an empty one is end of input), a failure of the
  source, or a read future that is dropped while it waits.  Dropping the future is an
  ordinary event here, so the claims about resuming a partial frame quantify over every
  place where a \<^verbatim>\<open>select!\<close> race can be lost.
\<close>

definition MAX_WIRE_MESSAGE_BYTES :: nat where
  "MAX_WIRE_MESSAGE_BYTES = 1024 * 1024"

definition MAX_WIRE_RECORD_BYTES :: nat where
  "MAX_WIRE_RECORD_BYTES = MAX_WIRE_MESSAGE_BYTES"

definition MAX_MCP_JSONRPC_FRAME_BYTES :: nat where
  "MAX_MCP_JSONRPC_FRAME_BYTES = 16 * 1024 * 1024"

definition MCP_OVERSIZE_ID_INSPECT_BYTES :: nat where
  "MCP_OVERSIZE_ID_INSPECT_BYTES = 4096"

definition WIRE_RECORD_TOO_LARGE :: string where
  "WIRE_RECORD_TOO_LARGE = ''wire_record_too_large''"

abbreviation newline :: byte where
  "newline \<equiv> CHR 0x0A"

abbreviation carriage_return :: byte where
  "carriage_return \<equiv> CHR 0x0D"

subsection \<open>Outcomes and errors\<close>

datatype 'a wire_read_outcome = WireReady 'a | WireOversized

datatype 'a bounded_line_outcome = Ready 'a | Oversized (inspect_of: "byte list")

text \<open>An \<^verbatim>\<open>io::Error\<close> is the typed oversized error with its prefix, another
  \<^verbatim>\<open>InvalidData\<close> error with its message, or a failure of some other kind.\<close>
datatype io_error =
    WireOversizedError "byte list"
  | InvalidData string
  | OtherIo string

definition bound_inspect_prefix :: "byte list \<Rightarrow> byte list" where
  "bound_inspect_prefix prefix =
    (if MCP_OVERSIZE_ID_INSPECT_BYTES < length prefix
     then take MCP_OVERSIZE_ID_INSPECT_BYTES prefix else prefix)"

definition capture_inspect_prefix :: "byte list \<Rightarrow> byte list \<Rightarrow> byte list" where
  "capture_inspect_prefix retained next =
    (let out = take (min (length retained) MCP_OVERSIZE_ID_INSPECT_BYTES) retained
     in if length out < MCP_OVERSIZE_ID_INSPECT_BYTES
        then out @ take (min (MCP_OVERSIZE_ID_INSPECT_BYTES - length out) (length next)) next
        else out)"

definition wire_oversized_io_error_with_prefix :: "byte list \<Rightarrow> io_error" where
  "wire_oversized_io_error_with_prefix prefix = WireOversizedError (bound_inspect_prefix prefix)"

definition wire_oversized_io_error :: io_error where
  "wire_oversized_io_error = wire_oversized_io_error_with_prefix []"

fun is_wire_oversized_io_error :: "io_error \<Rightarrow> bool" where
  "is_wire_oversized_io_error (WireOversizedError _) = True"
| "is_wire_oversized_io_error (InvalidData message) = (message = WIRE_RECORD_TOO_LARGE)"
| "is_wire_oversized_io_error (OtherIo _) = False"

fun wire_oversized_inspect_prefix :: "io_error \<Rightarrow> byte list" where
  "wire_oversized_inspect_prefix (WireOversizedError prefix) = prefix"
| "wire_oversized_inspect_prefix _ = []"

subsection \<open>Text\<close>

definition string_from_utf8 :: "byte list \<Rightarrow> io_error + string" where
  "string_from_utf8 bytes =
    (if utf8_valid bytes then Inr bytes else Inl (InvalidData ''wire_input_not_utf8''))"

definition take_line_string :: "byte list \<Rightarrow> io_error + string" where
  "take_line_string bytes =
    string_from_utf8
      (if bytes \<noteq> [] \<and> last bytes = carriage_return then butlast bytes else bytes)"

subsection \<open>One-shot readers\<close>

text \<open>What one \<^verbatim>\<open>read\<close> call yields: an error, or the bytes it placed in the 8192-byte
  scratch buffer (none at end of input; a source that has nothing more reads zero bytes).\<close>
type_synonym read_source = "(io_error + byte list) list"

fun read_bounded_to_end_from ::
  "nat \<Rightarrow> byte list \<Rightarrow> read_source \<Rightarrow> (io_error + byte list wire_read_outcome) \<times> read_source" where
  "read_bounded_to_end_from max_bytes retained [] = (Inr (WireReady retained), [])"
| "read_bounded_to_end_from max_bytes retained (Inl e # src) = (Inl e, src)"
| "read_bounded_to_end_from max_bytes retained (Inr scratch # src) =
    (if scratch = [] then (Inr (WireReady retained), src)
     else if max_bytes < sat_add_u64 (length retained) (length scratch)
       then (Inr WireOversized, src)
     else read_bounded_to_end_from max_bytes (retained @ scratch) src)"

definition read_bounded_to_end ::
  "nat \<Rightarrow> read_source \<Rightarrow> (io_error + byte list wire_read_outcome) \<times> read_source" where
  "read_bounded_to_end max_bytes src = read_bounded_to_end_from max_bytes [] src"

definition read_bounded_to_string ::
  "nat \<Rightarrow> read_source \<Rightarrow> (io_error + string wire_read_outcome) \<times> read_source" where
  "read_bounded_to_string max_bytes src =
    (case read_bounded_to_end max_bytes src of
       (Inl e, rest) \<Rightarrow> (Inl e, rest)
     | (Inr WireOversized, rest) \<Rightarrow> (Inr WireOversized, rest)
     | (Inr (WireReady bytes), rest) \<Rightarrow>
         (res_bind (string_from_utf8 bytes) (\<lambda>s. Inr (WireReady s)), rest))"

subsection \<open>The bounded line reader\<close>

record line_reader =
  retained :: "byte list"
  oversized :: bool
  inspect_prefix :: "byte list"

datatype fill = Chunk "byte list" | SourceFailed io_error | FutureDropped

datatype 'a polled = Returned 'a | DroppedMidRead

type_synonym line_result = "io_error + string option bounded_line_outcome"

definition new_reader :: line_reader where
  "new_reader = \<lparr>retained = [], oversized = False, inspect_prefix = []\<rparr>"

definition has_partial_frame :: "line_reader \<Rightarrow> bool" where
  "has_partial_frame r \<longleftrightarrow> retained r \<noteq> [] \<or> oversized r"

definition take_oversized :: "line_reader \<Rightarrow> string option bounded_line_outcome \<times> line_reader" where
  "take_oversized r = (Oversized (inspect_prefix r), r\<lparr>oversized := False, inspect_prefix := []\<rparr>)"

definition take_line :: "line_reader \<Rightarrow> (io_error + string) \<times> line_reader" where
  "take_line r = (take_line_string (retained r), r\<lparr>retained := []\<rparr>)"

definition finish_frame :: "line_reader \<Rightarrow> line_result \<times> line_reader" where
  "finish_frame r =
    (if oversized r then map_prod Inr id (take_oversized r)
     else map_prod (\<lambda>l. res_bind l (\<lambda>s. Inr (Ready (Some s)))) id (take_line r))"

definition finish_at_eof :: "line_reader \<Rightarrow> line_result \<times> line_reader" where
  "finish_at_eof r =
    (if oversized r then map_prod Inr id (take_oversized r)
     else if retained r = [] then (Inr (Ready None), r)
     else map_prod (\<lambda>l. res_bind l (\<lambda>s. Inr (Ready (Some s)))) id (take_line r))"

text \<open>The body of the loop that folds the content of one chunk into the reader.\<close>
definition fold_content :: "nat \<Rightarrow> byte list \<Rightarrow> line_reader \<Rightarrow> line_reader" where
  "fold_content max_bytes content r =
    (if oversized r then r
     else if max_bytes - length (retained r) < length content
       then r\<lparr>inspect_prefix := capture_inspect_prefix (retained r) content,
              oversized := True, retained := []\<rparr>
     else r\<lparr>retained := retained r @ content\<rparr>)"

definition consume :: "nat \<Rightarrow> byte list \<Rightarrow> fill list \<Rightarrow> fill list" where
  "consume n available src = (let rest = drop n available in if rest = [] then src else Chunk rest # src)"

fun position :: "byte \<Rightarrow> byte list \<Rightarrow> nat option" where
  "position c [] = None"
| "position c (b # bs) = (if b = c then Some 0 else map_option Suc (position c bs))"

fun read_bounded ::
  "nat \<Rightarrow> fill list \<Rightarrow> line_reader \<Rightarrow> line_result polled \<times> fill list \<times> line_reader" where
  "read_bounded max_bytes [] r = (let (out, r') = finish_at_eof r in (Returned out, [], r'))"
| "read_bounded max_bytes (SourceFailed e # src) r = (Returned (Inl e), src, r)"
| "read_bounded max_bytes (FutureDropped # src) r = (DroppedMidRead, src, r)"
| "read_bounded max_bytes (Chunk available # src) r =
    (if available = [] then (let (out, r') = finish_at_eof r in (Returned out, src, r'))
     else case position newline available of
       Some index \<Rightarrow>
         (let (out, r') = finish_frame (fold_content max_bytes (take index available) r)
          in (Returned out, consume (index + 1) available src, r'))
     | None \<Rightarrow> read_bounded max_bytes src (fold_content max_bytes available r))"

text \<open>The caller's view of \<^verbatim>\<open>read_bounded\<close> on the MCP transport and in the line helper.\<close>
definition mcp_line_result :: "line_result \<Rightarrow> io_error + string option" where
  "mcp_line_result out =
    res_bind out (\<lambda>l. case l of Ready line \<Rightarrow> Inr line
      | Oversized prefix \<Rightarrow> Inl (wire_oversized_io_error_with_prefix prefix))"

definition read_mcp_line ::
  "fill list \<Rightarrow> line_reader \<Rightarrow> (io_error + string option) polled \<times> fill list \<times> line_reader" where
  "read_mcp_line src r =
    map_prod (map_polled mcp_line_result) id (read_bounded MAX_MCP_JSONRPC_FRAME_BYTES src r)"

definition read_line ::
  "nat \<Rightarrow> fill list \<Rightarrow> line_reader \<Rightarrow>
    (io_error + string option wire_read_outcome) polled \<times> fill list \<times> line_reader" where
  "read_line max_bytes src r =
    map_prod (map_polled (\<lambda>out. res_bind out (\<lambda>l. case l of Ready line \<Rightarrow> Inr (WireReady line)
      | Oversized _ \<Rightarrow> Inr WireOversized))) id (read_bounded max_bytes src r)"

fun line_outcome_to_io :: "string option wire_read_outcome \<Rightarrow> io_error + string option" where
  "line_outcome_to_io (WireReady line) = Inr line"
| "line_outcome_to_io WireOversized = Inl wire_oversized_io_error"

subsection \<open>Reference semantics on the bytes alone\<close>

text \<open>\<open>pending_bytes\<close> is what the source still has to deliver; a source is live when it
  neither fails nor reports end of input before its last chunk.  \<open>frame_result\<close> is the
  outcome of a frame whose content is known, \<open>next_frame\<close> cuts one frame off a byte
  sequence and \<open>split_frames\<close> cuts them all.\<close>

fun pending_bytes :: "fill list \<Rightarrow> byte list" where
  "pending_bytes [] = []"
| "pending_bytes (Chunk bs # src) = bs @ pending_bytes src"
| "pending_bytes (_ # src) = pending_bytes src"

fun live_event :: "fill \<Rightarrow> bool" where
  "live_event (Chunk bs) = (bs \<noteq> [])"
| "live_event (SourceFailed _) = False"
| "live_event FutureDropped = True"

definition live_source :: "fill list \<Rightarrow> bool" where
  "live_source src = list_all live_event src"

definition frame_result :: "nat \<Rightarrow> byte list \<Rightarrow> line_result" where
  "frame_result max_bytes content =
    (if max_bytes < length content
     then Inr (Oversized (take MCP_OVERSIZE_ID_INSPECT_BYTES content))
     else res_bind (take_line_string content) (\<lambda>s. Inr (Ready (Some s))))"

definition before_newline :: "byte list \<Rightarrow> byte list" where
  "before_newline bs = takeWhile (\<lambda>b. b \<noteq> newline) bs"

definition after_newline :: "byte list \<Rightarrow> byte list" where
  "after_newline bs = drop (Suc (length (before_newline bs))) bs"

definition next_frame :: "nat \<Rightarrow> byte list \<Rightarrow> byte list \<Rightarrow> line_result" where
  "next_frame max_bytes consumed bs =
    (if consumed @ bs = [] then Inr (Ready None)
     else frame_result max_bytes (consumed @ before_newline bs))"

function split_frames :: "nat \<Rightarrow> byte list \<Rightarrow> line_result list" where
  "split_frames max_bytes bs =
    (if bs = [] then []
     else next_frame max_bytes [] bs # split_frames max_bytes (after_newline bs))"
  by pat_completeness auto
termination by (relation "measure (length \<circ> snd)") (auto simp: after_newline_def)

text \<open>A read loop: \<open>read_resuming\<close> calls the reader again after every dropped future;
  \<open>read_frames\<close> collects results until the reader reports end of input.\<close>

function read_resuming ::
  "nat \<Rightarrow> fill list \<Rightarrow> line_reader \<Rightarrow> line_result \<times> fill list \<times> line_reader" where
  "read_resuming max_bytes src r =
    (case read_bounded max_bytes src r of
       (DroppedMidRead, src', r') \<Rightarrow> read_resuming max_bytes src' r'
     | (Returned out, src', r') \<Rightarrow> (out, src', r'))"
  by pat_completeness auto

lemma read_bounded_dropped_shorter:
  "read_bounded max_bytes src r = (DroppedMidRead, src', r') \<Longrightarrow> length src' < length src"
  by (induction max_bytes src r rule: read_bounded.induct)
    (auto simp: Let_def split: prod.splits if_splits option.splits)

termination read_resuming
  by (relation "measure (\<lambda>(m, src, r). length src)") (auto dest: read_bounded_dropped_shorter [OF sym])

declare split_frames.simps [simp del] read_resuming.simps [simp del]

subsection \<open>The reader represents the bytes it has consumed\<close>

definition represents :: "nat \<Rightarrow> byte list \<Rightarrow> line_reader \<Rightarrow> bool" where
  "represents max_bytes consumed r \<longleftrightarrow>
    (if max_bytes < length consumed
     then r = \<lparr>retained = [], oversized = True,
       inspect_prefix = take MCP_OVERSIZE_ID_INSPECT_BYTES consumed\<rparr>
     else r = \<lparr>retained = consumed, oversized = False, inspect_prefix = []\<rparr>)"

lemma capture_inspect_prefix_eq:
  "capture_inspect_prefix held next = take MCP_OVERSIZE_ID_INSPECT_BYTES (held @ next)"
  by (auto simp: capture_inspect_prefix_def Let_def min_def)

lemma represents_new: "represents max_bytes [] new_reader"
  by (simp add: represents_def new_reader_def)

lemma represents_fold:
  assumes "represents max_bytes consumed r" "MCP_OVERSIZE_ID_INSPECT_BYTES \<le> max_bytes"
  shows "represents max_bytes (consumed @ content) (fold_content max_bytes content r)"
  using assms
  by (auto simp: represents_def fold_content_def capture_inspect_prefix_eq split: if_splits)

lemma finish_frame_represents:
  "represents max_bytes consumed r \<Longrightarrow>
    finish_frame r = (frame_result max_bytes consumed, new_reader)"
  by (auto simp: represents_def finish_frame_def take_oversized_def take_line_def
      frame_result_def new_reader_def split: if_splits)

lemma finish_at_eof_represents:
  assumes "represents max_bytes consumed r"
  shows "finish_at_eof r =
    (if consumed = [] then Inr (Ready None) else frame_result max_bytes consumed, new_reader)"
  using assms
  by (auto simp: represents_def finish_at_eof_def take_oversized_def take_line_def
      frame_result_def new_reader_def split: if_splits)

lemma position_None: "position c bs = None \<longleftrightarrow> c \<notin> set bs"
  by (induction bs) auto

lemma position_Some:
  "position c bs = Some i \<Longrightarrow>
    i < length bs \<and> bs ! i = c \<and> takeWhile (\<lambda>b. b \<noteq> c) bs = take i bs"
proof (induction bs arbitrary: i)
  case (Cons b bs)
  then show ?case by (cases "b = c") auto
qed simp

lemma before_newline_append:
  "newline \<notin> set xs \<Longrightarrow> before_newline (xs @ ys) = xs @ before_newline ys"
  "newline \<notin> set xs \<Longrightarrow> after_newline (xs @ ys) = after_newline ys"
proof -
  assume nl: "newline \<notin> set xs"
  show before: "before_newline (xs @ ys) = xs @ before_newline ys"
    unfolding before_newline_def using nl by (subst takeWhile_append2) auto
  show "after_newline (xs @ ys) = after_newline ys"
    by (simp add: after_newline_def before)
qed

lemma newline_position:
  assumes "position newline bs = Some i"
  shows "before_newline (bs @ ys) = take i bs" "after_newline (bs @ ys) = drop (i + 1) bs @ ys"
proof -
  have "newline \<in> set bs" using assms position_None [of newline bs] by force
  then show "before_newline (bs @ ys) = take i bs"
    using position_Some [OF assms] by (auto simp: before_newline_def takeWhile_append1)
  moreover have "i < length bs" using position_Some [OF assms] by simp
  ultimately show "after_newline (bs @ ys) = drop (i + 1) bs @ ys"
    by (simp add: after_newline_def)
qed

text \<open>One \<^verbatim>\<open>read_bounded\<close> call on a live source, from a reader that represents the
  consumed bytes: either the future was dropped, and the reader represents everything
  consumed so far, or the result is that of the bytes alone.\<close>
lemma read_bounded_represents:
  assumes "represents max_bytes consumed r" "live_source src"
    "MCP_OVERSIZE_ID_INSPECT_BYTES \<le> max_bytes"
  shows "case read_bounded max_bytes src r of
      (DroppedMidRead, src', r') \<Rightarrow> live_source src' \<and>
        (\<exists>extra. newline \<notin> set extra \<and> pending_bytes src = extra @ pending_bytes src' \<and>
          represents max_bytes (consumed @ extra) r')
    | (Returned out, src', r') \<Rightarrow> live_source src' \<and> r' = new_reader \<and>
        out = next_frame max_bytes consumed (pending_bytes src) \<and>
        pending_bytes src' = after_newline (pending_bytes src)"
  using assms
proof (induction max_bytes src r arbitrary: consumed rule: read_bounded.induct)
  case (1 max_bytes r)
  then show ?case
    by (simp add: finish_at_eof_represents next_frame_def before_newline_def after_newline_def
        live_source_def)
next
  case (3 max_bytes src r)
  then show ?case by (auto simp: live_source_def)
next
  case (4 max_bytes available src r)
  then have ne: "available \<noteq> []" and live: "live_source src"
    by (auto simp: live_source_def)
  show ?case
  proof (cases "position newline available")
    case None
    then have nl: "newline \<notin> set available" by (simp add: position_None)
    have "represents max_bytes (consumed @ available) (fold_content max_bytes available r)"
      using 4 by (intro represents_fold)
    from "4.IH" [OF ne None this live 4(4)] show ?thesis
      using None ne nl
      by (auto simp: next_frame_def before_newline_append split: prod.splits polled.splits)
  next
    case (Some i)
    have rep: "represents max_bytes (consumed @ take i available)
        (fold_content max_bytes (take i available) r)"
      using 4 by (intro represents_fold)
    have "live_source (consume (i + 1) available src)"
      "pending_bytes (consume (i + 1) available src) = drop (i + 1) available @ pending_bytes src"
      using live by (auto simp: consume_def Let_def live_source_def)
    then show ?thesis
      using ne Some finish_frame_represents [OF rep] newline_position [OF Some]
      by (simp add: next_frame_def)
  qed
qed (simp add: live_source_def)

lemma next_frame_append:
  assumes "newline \<notin> set extra"
  shows "next_frame max_bytes (consumed @ extra) bs = next_frame max_bytes consumed (extra @ bs)"
  using assms by (simp add: next_frame_def before_newline_append)

lemma read_resuming_represents:
  assumes "represents max_bytes consumed r" "live_source src"
    "MCP_OVERSIZE_ID_INSPECT_BYTES \<le> max_bytes"
  shows "\<exists>src'. read_resuming max_bytes src r =
      (next_frame max_bytes consumed (pending_bytes src), src', new_reader) \<and>
    live_source src' \<and> pending_bytes src' = after_newline (pending_bytes src)"
  using assms
proof (induction max_bytes src r arbitrary: consumed rule: read_resuming.induct)
  case (1 max_bytes src r)
  obtain res src' r' where rb: "read_bounded max_bytes src r = (res, src', r')"
    by (metis prod_cases3)
  note step = read_bounded_represents [OF 1(2-4)]
  show ?case
  proof (cases res)
    case (Returned out)
    then show ?thesis using rb step by (simp add: read_resuming.simps)
  next
    case DroppedMidRead
    then obtain extra where m: "newline \<notin> set extra"
      "pending_bytes src = extra @ pending_bytes src'"
      "represents max_bytes (consumed @ extra) r'" "live_source src'"
      using rb step by auto
    show ?thesis
      using "1.IH" [OF rb [symmetric] DroppedMidRead refl m(3) m(4) 1(4)] rb DroppedMidRead m
      by (simp add: read_resuming.simps [of max_bytes src r] next_frame_append
          before_newline_append)
  qed
qed

subsection \<open>Sequences of frames\<close>

text \<open>Bytes and events still to be handled; every result other than end of input uses
  some of them up.\<close>
definition read_work :: "fill list \<Rightarrow> line_reader \<Rightarrow> nat" where
  "read_work src r = length src + length (pending_bytes src) +
    (if retained r = [] then 0 else 1) + (if oversized r then 1 else 0)"

lemma fold_content_work:
  "read_work src (fold_content max_bytes content r) \<le> read_work src r + 1"
  by (auto simp: read_work_def fold_content_def)

lemma finish_frame_work:
  "finish_frame (fold_content max_bytes content r) = (out, r') \<Longrightarrow> read_work src r' \<le> read_work src r"
  by (auto simp: read_work_def finish_frame_def fold_content_def take_oversized_def take_line_def
      split: if_splits)

lemma finish_at_eof_work:
  assumes "finish_at_eof r = (out, r')"
  shows "read_work src r' \<le> read_work src r"
    "out \<noteq> Inr (Ready None) \<Longrightarrow> read_work src r' < read_work src r"
  using assms
  by (auto simp: read_work_def finish_at_eof_def take_oversized_def take_line_def split: if_splits)

lemma read_bounded_work:
  "read_bounded max_bytes src r = (res, src', r') \<Longrightarrow> res \<noteq> Returned (Inr (Ready None)) \<Longrightarrow>
    read_work src' r' < read_work src r"
proof (induction max_bytes src r rule: read_bounded.induct)
  case (1 max_bytes r)
  then show ?case by (auto simp: Let_def dest: finish_at_eof_work split: prod.splits)
next
  case (4 max_bytes available src r)
  show ?case
  proof (cases "available = []")
    case True
    then show ?thesis using 4(2,3)
      by (auto simp: Let_def read_work_def dest!: finish_at_eof_work(1) [of r _ _ src]
          split: prod.splits if_splits)
  next
    case ne: False
    show ?thesis
    proof (cases "position newline available")
      case None
      then have "read_work src' r' < read_work src (fold_content max_bytes available r)"
        using 4 ne by simp
      also have "\<dots> \<le> read_work src r + 1" by (rule fold_content_work)
      also have "\<dots> < read_work (Chunk available # src) r"
        using ne by (simp add: read_work_def)
      finally show ?thesis .
    next
      case (Some i)
      then have "i < length available" using position_Some by blast
      moreover obtain out where
        "finish_frame (fold_content max_bytes (take i available) r) = (out, r')"
        "src' = consume (i + 1) available src"
        using 4(2) ne Some by (auto simp: Let_def split: prod.splits)
      ultimately show ?thesis
        using finish_frame_work [of max_bytes "take i available" r out r' src]
        by (auto simp: read_work_def consume_def Let_def)
    qed
  qed
qed (auto simp: read_work_def)

lemma read_resuming_work:
  "read_resuming max_bytes src r = (out, src', r') \<Longrightarrow> out \<noteq> Inr (Ready None) \<Longrightarrow>
    read_work src' r' < read_work src r"
proof (induction max_bytes src r rule: read_resuming.induct)
  case (1 max_bytes src r)
  obtain res src1 r1 where rb: "read_bounded max_bytes src r = (res, src1, r1)"
    by (metis prod_cases3)
  show ?case
  proof (cases res)
    case (Returned a)
    then show ?thesis using 1(2,3) rb read_bounded_work [OF rb] by (auto simp: read_resuming.simps)
  next
    case DroppedMidRead
    then have "read_work src1 r1 < read_work src r" using read_bounded_work [OF rb] by simp
    moreover have "read_work src' r' < read_work src1 r1"
      using 1 rb DroppedMidRead by (simp add: read_resuming.simps [of max_bytes src r])
    ultimately show ?thesis by simp
  qed
qed

function read_frames :: "nat \<Rightarrow> fill list \<Rightarrow> line_reader \<Rightarrow> line_result list" where
  "read_frames max_bytes src r =
    (case read_resuming max_bytes src r of
       (out, src', r') \<Rightarrow>
         if out = Inr (Ready None) then [] else out # read_frames max_bytes src' r')"
  by pat_completeness auto
termination
  by (relation "measure (\<lambda>(m, src, r). read_work src r)")
    (auto dest: read_resuming_work [OF sym])

declare read_frames.simps [simp del]

lemma frame_result_not_eof [simp]: "frame_result max_bytes content \<noteq> Inr (Ready None)"
  by (cases "take_line_string content") (simp_all add: frame_result_def)

definition reader_ok :: "nat \<Rightarrow> line_reader \<Rightarrow> bool" where
  "reader_ok max_bytes r \<longleftrightarrow> length (retained r) \<le> max_bytes \<and>
    length (inspect_prefix r) \<le> MCP_OVERSIZE_ID_INSPECT_BYTES \<and>
    (if oversized r then retained r = [] else inspect_prefix r = [])"

lemma reader_ok_new: "reader_ok max_bytes new_reader"
  by (simp add: reader_ok_def new_reader_def)

lemma reader_ok_fold: "reader_ok max_bytes r \<Longrightarrow> reader_ok max_bytes (fold_content max_bytes content r)"
  by (auto simp: reader_ok_def fold_content_def capture_inspect_prefix_eq)

lemma finish_reader:
  "reader_ok max_bytes r \<Longrightarrow> snd (finish_frame r) = new_reader"
  "reader_ok max_bytes r \<Longrightarrow> snd (finish_at_eof r) = new_reader"
  by (cases r; auto simp: reader_ok_def finish_frame_def finish_at_eof_def take_oversized_def
      take_line_def new_reader_def split: if_splits)+

lemma read_bounded_ok:
  assumes "reader_ok max_bytes r" "read_bounded max_bytes src r = (res, src', r')"
  shows "reader_ok max_bytes r'"
  using assms
proof (induction max_bytes src r rule: read_bounded.induct)
  case (1 max_bytes r)
  then show ?case using finish_reader(2) [OF 1(1)]
    by (auto simp: Let_def reader_ok_new split: prod.splits)
next
  case (4 max_bytes available src r)
  then show ?case
    using finish_reader(2) [OF 4(2)]
      finish_reader(1) [OF reader_ok_fold [OF 4(2)]]
    by (auto simp: Let_def reader_ok_new reader_ok_fold split: prod.splits if_splits option.splits)
      (metis reader_ok_new snd_conv)
qed auto

lemma read_frames_split:
  assumes "live_source src" "MCP_OVERSIZE_ID_INSPECT_BYTES \<le> max_bytes"
  shows "read_frames max_bytes src new_reader = split_frames max_bytes (pending_bytes src)"
  using assms
proof (induction "length (pending_bytes src)" arbitrary: src rule: less_induct)
  case less
  obtain src' where r: "read_resuming max_bytes src new_reader =
      (next_frame max_bytes [] (pending_bytes src), src', new_reader)"
    "live_source src'" "pending_bytes src' = after_newline (pending_bytes src)"
    using read_resuming_represents [OF represents_new less(2,3)] by auto
  show ?case
  proof (cases "pending_bytes src = []")
    case True
    then show ?thesis using r by (simp add: read_frames.simps split_frames.simps next_frame_def)
  next
    case False
    then have "length (pending_bytes src') < length (pending_bytes src)"
      using r by (simp add: after_newline_def)
    then have "read_frames max_bytes src' new_reader = split_frames max_bytes (pending_bytes src')"
      using less r by blast
    then show ?thesis
      using False r
      by (simp add: read_frames.simps [of max_bytes src] split_frames.simps [of max_bytes "pending_bytes src"]
          next_frame_def)
  qed
qed

text \<open>C1. Cancellation safety and chunk independence: on a source that neither fails nor
  ends early, the frames a read loop collects, resuming after every dropped read future,
  are the frames of the concatenated bytes, however the bytes are cut into chunks and
  wherever futures are dropped.\<close>
theorem read_frames_chunk_independent:
  assumes "live_source src" "MCP_OVERSIZE_ID_INSPECT_BYTES \<le> max_bytes"
  shows "read_frames max_bytes src new_reader = split_frames max_bytes (pending_bytes src)"
  using assms by (rule read_frames_split)

theorem read_frames_chunk_independent_witness:
  "read_frames 4096 [Chunk ''ab'', FutureDropped, Chunk (''c'' @ [newline, CHR ''d''])] new_reader =
    split_frames 4096 (''abc'' @ [newline, CHR ''d''])"
  using read_frames_chunk_independent
    [of "[Chunk ''ab'', FutureDropped, Chunk (''c'' @ [newline, CHR ''d''])]" 4096]
  by (simp add: live_source_def MCP_OVERSIZE_ID_INSPECT_BYTES_def)

text \<open>C29. Bounded memory: whatever the source does, a reader that starts within its
  bounds keeps at most the frame ceiling of content, at most 4096 inspection bytes, and no
  content at all once a frame has overflowed.\<close>
theorem read_bounded_memory:
  assumes "reader_ok max_bytes r"
  shows "reader_ok max_bytes (snd (snd (read_bounded max_bytes src r)))"
  using read_bounded_ok [OF assms] by (metis prod.collapse)

theorem read_bounded_memory_witness:
  "reader_ok 2 (snd (snd (read_bounded 2 [Chunk ''abc'', FutureDropped] new_reader)))"
  by (rule read_bounded_memory) (rule reader_ok_new)

subsection \<open>Encoding lines and reading them back\<close>

definition encode_lines :: "string list \<Rightarrow> byte list" where
  "encode_lines lines = concat (map (\<lambda>l. l @ [newline]) lines)"

definition wire_line :: "nat \<Rightarrow> string \<Rightarrow> bool" where
  "wire_line max_bytes l \<longleftrightarrow> length l \<le> max_bytes \<and> newline \<notin> set l \<and> utf8_valid l \<and>
    (l = [] \<or> last l \<noteq> carriage_return)"

lemma split_frames_encode:
  assumes "list_all (wire_line max_bytes) lines"
  shows "split_frames max_bytes (encode_lines lines) = map (\<lambda>l. Inr (Ready (Some l))) lines"
  using assms
proof (induction lines)
  case Nil
  then show ?case by (simp add: encode_lines_def split_frames.simps)
next
  case (Cons l lines)
  let ?bs = "l @ newline # encode_lines lines"
  have cut: "before_newline ?bs = l" "after_newline ?bs = encode_lines lines"
    using Cons.prems before_newline_append [of l "newline # encode_lines lines"]
    by (auto simp: wire_line_def before_newline_def after_newline_def)
  have "next_frame max_bytes [] ?bs = Inr (Ready (Some l))"
    using Cons.prems
    by (auto simp: next_frame_def cut frame_result_def wire_line_def take_line_string_def
        string_from_utf8_def)
  then show ?case
    using Cons cut by (simp add: encode_lines_def split_frames.simps [of max_bytes "_ @ _"])
qed

lemma frame_result_line:
  assumes "frame_result max_bytes content = Inr (Ready (Some l))" "newline \<notin> set content"
  shows "length l \<le> max_bytes \<and> newline \<notin> set l \<and> utf8_valid l"
  using assms
  by (auto simp: frame_result_def take_line_string_def string_from_utf8_def res_bind_def
      split: if_splits dest: in_set_butlastD)

lemma split_frames_lines:
  "Inr (Ready (Some l)) \<in> set (split_frames max_bytes bs) \<Longrightarrow>
    length l \<le> max_bytes \<and> newline \<notin> set l \<and> utf8_valid l"
proof (induction max_bytes bs rule: split_frames.induct)
  case (1 max_bytes bs)
  have "newline \<notin> set (before_newline bs)"
    by (auto simp: before_newline_def dest: set_takeWhileD)
  then show ?case
    using 1 frame_result_line [of max_bytes "before_newline bs" l]
    by (auto simp: split_frames.simps [of max_bytes bs] next_frame_def split: if_splits)
qed



text \<open>Every line a read loop delivers fits the ceiling, is valid UTF-8 and contains no
  newline.\<close>
theorem read_frames_lines_bounded:
  assumes "live_source src" "MCP_OVERSIZE_ID_INSPECT_BYTES \<le> max_bytes"
    "Inr (Ready (Some l)) \<in> set (read_frames max_bytes src new_reader)"
  shows "length l \<le> max_bytes \<and> newline \<notin> set l \<and> utf8_valid l"
  using assms split_frames_lines by (simp add: read_frames_split)

theorem read_frames_lines_bounded_witness:
  "length ''hi'' \<le> (4096::nat) \<and> newline \<notin> set ''hi'' \<and> utf8_valid ''hi''"
proof (rule read_frames_lines_bounded)
  let ?src = "[Chunk ''h'', FutureDropped, Chunk ''i'']"
  show "live_source ?src" "MCP_OVERSIZE_ID_INSPECT_BYTES \<le> 4096"
    by (simp_all add: live_source_def MCP_OVERSIZE_ID_INSPECT_BYTES_def)
  show "Inr (Ready (Some ''hi'')) \<in> set (read_frames 4096 ?src new_reader)"
    by (simp add: read_frames.simps read_resuming.simps new_reader_def fold_content_def
        finish_at_eof_def take_line_def take_line_string_def string_from_utf8_def in_range_def)
qed

subsection \<open>One-shot reads\<close>

fun read_bytes :: "read_source \<Rightarrow> byte list" where
  "read_bytes [] = []"
| "read_bytes (Inl e # src) = []"
| "read_bytes (Inr bs # src) = (if bs = [] then [] else bs @ read_bytes src)"

fun read_fails :: "read_source \<Rightarrow> bool" where
  "read_fails [] = False"
| "read_fails (Inl e # src) = True"
| "read_fails (Inr bs # src) = (bs \<noteq> [] \<and> read_fails src)"

lemma read_bounded_to_end_from_ok:
  assumes "\<not> read_fails src" "length held \<le> max_bytes" "max_bytes < u64_max"
  shows "fst (read_bounded_to_end_from max_bytes held src) =
    (if max_bytes < length held + length (read_bytes src) then Inr WireOversized
     else Inr (WireReady (held @ read_bytes src)))"
  using assms
  by (induction max_bytes held src rule: read_bounded_to_end_from.induct)
    (auto simp: sat_add_u64_def)

text \<open>A one-shot bounded read of a source that does not fail returns the whole input
  when it fits the limit and the oversized outcome exactly when it does not.\<close>
theorem read_bounded_to_end_correct:
  assumes "\<not> read_fails src" "max_bytes < u64_max"
  shows "fst (read_bounded_to_end max_bytes src) =
    (if max_bytes < length (read_bytes src) then Inr WireOversized
     else Inr (WireReady (read_bytes src)))"
  using assms by (simp add: read_bounded_to_end_def read_bounded_to_end_from_ok)

theorem read_bounded_to_end_correct_witness:
  "fst (read_bounded_to_end 3 [Inr ''ab'', Inr ''cd'']) = Inr WireOversized"
  using read_bounded_to_end_correct [of "[Inr ''ab'', Inr ''cd'']" 3] by (simp add: u64_max_def)

end
