(* ===== verification/Byte_Framing.thy ===== *)
theory Byte_Framing
  imports Prelude
begin

text \<open>
  Byte-level building blocks of every derived identity: lowercase hexadecimal text
  (\<^verbatim>\<open>lowercase_hex\<close>), big-endian integers (\<^verbatim>\<open>to_be_bytes\<close>) and the length-framed
  concatenation produced by \<^verbatim>\<open>absorb\<close>.  SHA-256 is a parameter, a function from bytes to
  bytes; the lemmas below need nothing of it.
\<close>

type_synonym sha = "byte list \<Rightarrow> byte list"

subsection \<open>Hexadecimal text\<close>

definition hex_digit :: "nat \<Rightarrow> char" where
  "hex_digit n = ''0123456789abcdef'' ! n"

definition lowercase_hex :: "byte list \<Rightarrow> string" where
  "lowercase_hex value =
    concat (map (\<lambda>b. [hex_digit (of_char b div 16), hex_digit (of_char b mod 16)]) value)"

definition is_ascii_digit :: "char \<Rightarrow> bool" where
  "is_ascii_digit c \<longleftrightarrow> 48 \<le> (of_char c :: nat) \<and> (of_char c :: nat) \<le> 57"

definition is_lower_hex :: "char \<Rightarrow> bool" where
  "is_lower_hex c \<longleftrightarrow> is_ascii_digit c \<or> (97 \<le> (of_char c :: nat) \<and> (of_char c :: nat) \<le> 102)"

definition is_sha256 :: "string \<Rightarrow> bool" where
  "is_sha256 value \<longleftrightarrow> length value = 64 \<and> list_all is_lower_hex value"

subsection \<open>Integers and frames\<close>

fun be_bytes :: "nat \<Rightarrow> nat \<Rightarrow> byte list" where
  "be_bytes 0 n = []"
| "be_bytes (Suc k) n = be_bytes k (n div 256) @ [char_of n]"

definition u64_be :: "nat \<Rightarrow> byte list" where
  "u64_be n = be_bytes 8 n"

definition u32_be :: "nat \<Rightarrow> byte list" where
  "u32_be n = be_bytes 4 n"

definition i64_be :: "int \<Rightarrow> byte list" where
  "i64_be x = be_bytes 8 (nat (x mod 2 ^ 64))"

definition absorb :: "byte list \<Rightarrow> byte list" where
  "absorb value = u64_be (min u64_max (length value)) @ value"

definition frames :: "byte list list \<Rightarrow> byte list" where
  "frames fields = concat (map absorb fields)"

lemma hex_digit_lower: "n < 16 \<Longrightarrow> is_lower_hex (hex_digit n)"
proof -
  assume "n < 16"
  then have "hex_digit n \<in> set ''0123456789abcdef''"
    unfolding hex_digit_def by (intro nth_mem) simp
  then show ?thesis by (auto simp: is_lower_hex_def is_ascii_digit_def)
qed

lemma hex_digit_inject:
  assumes "n < 16" "m < 16"
  shows "hex_digit n = hex_digit m \<longleftrightarrow> n = m"
proof -
  have "distinct ''0123456789abcdef''" by simp
  then show ?thesis using assms by (simp add: hex_digit_def nth_eq_iff_index_eq)
qed

lemma length_lowercase_hex [simp]: "length (lowercase_hex bs) = 2 * length bs"
  by (induction bs) (auto simp: lowercase_hex_def)

lemma of_char_less [simp]: "(of_char c :: nat) < 256"
  using of_char_mod_256 [of c, where ?'a = nat] by (metis mod_less_divisor zero_less_numeral)

lemma lowercase_hex_lower: "list_all is_lower_hex (lowercase_hex bs)"
proof -
  have "(of_char b :: nat) div 16 < 16" for b
    by (simp add: less_mult_imp_div_less)
  then show ?thesis by (induction bs) (auto simp: lowercase_hex_def hex_digit_lower)
qed

lemma lowercase_hex_is_sha256: "length bs = 32 \<Longrightarrow> is_sha256 (lowercase_hex bs)"
  by (simp add: is_sha256_def lowercase_hex_lower)

lemma lowercase_hex_inject: "lowercase_hex xs = lowercase_hex ys \<longleftrightarrow> xs = ys"
proof
  show "lowercase_hex xs = lowercase_hex ys \<Longrightarrow> xs = ys"
  proof (induction xs arbitrary: ys)
    case Nil
    then show ?case by (cases ys) (auto simp: lowercase_hex_def)
  next
    case (Cons x xs)
    then obtain y ys' where ys: "ys = y # ys'" by (cases ys) (auto simp: lowercase_hex_def)
    have lt: "(of_char c :: nat) div 16 < 16" for c
      by (simp add: less_mult_imp_div_less)
    have "(of_char x :: nat) div 16 = of_char y div 16" "(of_char x :: nat) mod 16 = of_char y mod 16"
      using Cons.prems by (auto simp: ys lowercase_hex_def hex_digit_inject lt)
    then have "(of_char x :: nat) = of_char y" by (metis div_mult_mod_eq)
    moreover have "xs = ys'" using Cons by (auto simp: ys lowercase_hex_def)
    ultimately show ?case by (simp add: ys)
  qed
qed simp

lemma length_be_bytes [simp]: "length (be_bytes k n) = k"
  by (induction k arbitrary: n) auto

lemma be_bytes_inject:
  "n < 256 ^ k \<Longrightarrow> m < 256 ^ k \<Longrightarrow> be_bytes k n = be_bytes k m \<longleftrightarrow> n = m"
proof (induction k arbitrary: n m)
  case (Suc k)
  have "n div 256 < 256 ^ k" "m div 256 < 256 ^ k"
    using Suc.prems by (auto simp: less_mult_imp_div_less mult.commute)
  then have "be_bytes k (n div 256) = be_bytes k (m div 256) \<longleftrightarrow> n div 256 = m div 256"
    by (rule Suc.IH)
  moreover have "(char_of n :: char) = char_of m \<longleftrightarrow> n mod 256 = m mod 256"
    by (metis char_of_eq_iff char_of_mod_256 of_char_of)
  moreover have "n = m \<longleftrightarrow> n div 256 = m div 256 \<and> n mod 256 = m mod 256"
    by (metis div_mult_mod_eq)
  ultimately show ?case by simp
qed simp

lemma u64_be_inject: "n \<le> u64_max \<Longrightarrow> m \<le> u64_max \<Longrightarrow> u64_be n = u64_be m \<longleftrightarrow> n = m"
  by (simp add: u64_be_def be_bytes_inject u64_max_def)

lemma u32_be_inject: "n \<le> u32_max \<Longrightarrow> m \<le> u32_max \<Longrightarrow> u32_be n = u32_be m \<longleftrightarrow> n = m"
  by (simp add: u32_be_def be_bytes_inject u32_max_def)

lemma i64_be_inject:
  assumes "is_i64 x" "is_i64 y"
  shows "i64_be x = i64_be y \<longleftrightarrow> x = y"
proof -
  have "nat (z mod 2 ^ 64) < 256 ^ 8" for z :: int
    by (simp add: nat_less_iff)
  then have "i64_be x = i64_be y \<longleftrightarrow> x mod 2 ^ 64 = y mod 2 ^ 64"
    by (simp add: i64_be_def be_bytes_inject eq_nat_nat_iff)
  also have "\<dots> \<longleftrightarrow> x = y"
  proof
    assume "x mod 2 ^ 64 = y mod 2 ^ 64"
    then obtain k where k: "x - y = 2 ^ 64 * k" by (auto simp: mod_eq_dvd_iff elim: dvdE)
    moreover have "- (2 ^ 64) < x - y" "x - y < 2 ^ 64"
      using assms by (simp_all add: is_i64_def i64_min_def i64_max_def)
    ultimately have "- 1 < k" "k < 1" by simp_all
    then show "x = y" using k by simp
  qed simp
  finally show ?thesis .
qed

lemma length_u64_be [simp]: "length (u64_be n) = 8" "length (i64_be x) = 8" "length (u32_be n) = 4"
  by (simp_all add: u64_be_def i64_be_def u32_be_def)

lemma absorb_not_Nil [simp]: "absorb value \<noteq> []"
proof -
  have "length (absorb value) \<noteq> 0" unfolding absorb_def by simp
  then show ?thesis by (metis list.size(3))
qed

text \<open>No two field boundaries collide: the framed concatenation determines the fields.\<close>
lemma frames_inject:
  assumes "\<forall>f\<in>set xs \<union> set ys. length f \<le> u64_max"
  shows "frames xs = frames ys \<longleftrightarrow> xs = ys"
proof
  show "frames xs = frames ys \<Longrightarrow> xs = ys"
    using assms
  proof (induction xs arbitrary: ys)
    case Nil
    then show ?case by (cases ys) (simp_all add: frames_def)
  next
    case (Cons x xs)
    then obtain y ys' where ys: "ys = y # ys'"
      by (cases ys) (simp_all add: frames_def)
    have eq: "u64_be (length x) @ x @ frames xs = u64_be (length y) @ y @ frames ys'"
      using Cons.prems by (simp add: ys frames_def absorb_def min_absorb2)
    then have "u64_be (length x) = u64_be (length y)"
      by (simp add: append_eq_append_conv)
    then have "length x = length y" using Cons.prems(2) by (simp add: ys u64_be_inject)
    then show ?case using eq Cons by (simp add: ys)
  qed
qed simp

text \<open>The contract of a derived identity: the hashed preimage determines the valid inputs.
  Two valid inputs that share an identity then exhibit a collision of the hash.\<close>
locale framed_identity =
  fixes preimage :: "'i \<Rightarrow> byte list" and valid :: "'i \<Rightarrow> bool"
  assumes preimage_inject: "valid a \<Longrightarrow> valid b \<Longrightarrow> preimage a = preimage b \<Longrightarrow> a = b"
begin

lemma identity_collision:
  assumes "valid a" "valid b" "a \<noteq> b"
    "lowercase_hex (sha (preimage a)) = lowercase_hex (sha (preimage b))"
  shows "\<exists>x y. x \<noteq> y \<and> sha x = sha y"
  using assms preimage_inject by (metis lowercase_hex_inject)

lemma identity_inject:
  assumes "valid a" "valid b" "inj_on sha {preimage a, preimage b}"
    "lowercase_hex (sha (preimage a)) = lowercase_hex (sha (preimage b))"
  shows "a = b"
  using assms preimage_inject by (auto simp: lowercase_hex_inject dest: inj_onD)

end

subsection \<open>A concrete hash for examples\<close>

text \<open>Examples instantiate the hash with a function that has the documented output length.\<close>
definition zero_sha :: sha where
  "zero_sha bs = replicate 32 (CHR 0x00)"

definition sample_digest :: string where
  "sample_digest = replicate 64 (CHR ''0'')"

lemma sample_digest_sha256 [simp]: "is_sha256 sample_digest"
  by (simp add: is_sha256_def sample_digest_def list_all_iff is_lower_hex_def is_ascii_digit_def)

lemma zero_sha_hex [simp]: "lowercase_hex (zero_sha bs) = sample_digest"
proof -
  have "lowercase_hex (replicate n (CHR 0x00)) = replicate (2 * n) (CHR ''0'')" for n
    by (induction n) (simp_all add: lowercase_hex_def hex_digit_def)
  then show ?thesis by (simp add: zero_sha_def sample_digest_def)
qed

lemma length_sample_digest [simp]: "length sample_digest = 64" "sample_digest \<noteq> []"
  by (simp_all add: sample_digest_def)

end
