(* ===== verification/Provider_Api.thy ===== *)
theory Provider_Api
  imports Byte_Framing
begin

text \<open>
  The provider API values the observation journal is built from
  (\<^verbatim>\<open>tracedecay-memory-provider-api/src/lib.rs\<close> and the generated contract
  \<^verbatim>\<open>memory_provider_v1.rs\<close>): identifier syntax, exact coding scopes, canonical payloads,
  opaque extensions and the digest over an extension set, and the closed terminal-code and
  committed-effect enumerations.  SHA-256 is the parameter \<open>sha\<close>.
\<close>

subsection \<open>Closed enumerations\<close>

datatype terminal_code =
    Success | SuccessZeroResults | Partial | InvalidRequest | Unauthorized
  | CapabilityUnsupported | ScopeUnavailable | ScopeMismatch | StaleIdentity | Conflict
  | CapacityExceeded | DeadlineExceeded | Cancelled | ProviderUnavailable | ResetRequired
  | StateIncompatible | PartialEffect | EffectUnknown | ContractViolation | InternalFailure

fun terminal_code_as_wire :: "terminal_code \<Rightarrow> string" where
  "terminal_code_as_wire Success = ''success''"
| "terminal_code_as_wire SuccessZeroResults = ''success_zero_results''"
| "terminal_code_as_wire Partial = ''partial''"
| "terminal_code_as_wire InvalidRequest = ''invalid_request''"
| "terminal_code_as_wire Unauthorized = ''unauthorized''"
| "terminal_code_as_wire CapabilityUnsupported = ''capability_unsupported''"
| "terminal_code_as_wire ScopeUnavailable = ''scope_unavailable''"
| "terminal_code_as_wire ScopeMismatch = ''scope_mismatch''"
| "terminal_code_as_wire StaleIdentity = ''stale_identity''"
| "terminal_code_as_wire Conflict = ''conflict''"
| "terminal_code_as_wire CapacityExceeded = ''capacity_exceeded''"
| "terminal_code_as_wire DeadlineExceeded = ''deadline_exceeded''"
| "terminal_code_as_wire Cancelled = ''cancelled''"
| "terminal_code_as_wire ProviderUnavailable = ''provider_unavailable''"
| "terminal_code_as_wire ResetRequired = ''reset_required''"
| "terminal_code_as_wire StateIncompatible = ''state_incompatible''"
| "terminal_code_as_wire PartialEffect = ''partial_effect''"
| "terminal_code_as_wire EffectUnknown = ''effect_unknown''"
| "terminal_code_as_wire ContractViolation = ''contract_violation''"
| "terminal_code_as_wire InternalFailure = ''internal_failure''"

datatype committed_effect_state =
  EffectNone | EffectCommitted | EffectDuplicate | EffectPartial | EffectUnknownState

datatype fallback_eligibility = Forbidden | ExplicitPolicyOnly

datatype provider_operation =
    Handshake | Health | Observe | Recall | Feedback | Maintenance | Inspection | Correction
  | DeleteBySource | SnapshotExport | SnapshotRestore | Replay

fun operation_as_wire :: "provider_operation \<Rightarrow> string" where
  "operation_as_wire Handshake = ''handshake''"
| "operation_as_wire Health = ''health''"
| "operation_as_wire Observe = ''observe''"
| "operation_as_wire Recall = ''recall''"
| "operation_as_wire Feedback = ''feedback''"
| "operation_as_wire Maintenance = ''maintenance''"
| "operation_as_wire Inspection = ''inspection''"
| "operation_as_wire Correction = ''correction''"
| "operation_as_wire DeleteBySource = ''deletion_by_source''"
| "operation_as_wire SnapshotExport = ''snapshot_export''"
| "operation_as_wire SnapshotRestore = ''snapshot_restore''"
| "operation_as_wire Replay = ''replay''"

datatype identifier_error = Empty | TooLong | InvalidSyntax

datatype (plugins only: code size) api_error =
    InvalidProviderId identifier_error
  | InvalidVersionedId identifier_error
  | EmptyField string
  | InvalidSha256 string
  | DuplicateCapability string
  | MandatoryCapabilityMissing string
  | ZeroLimit string
  | LimitBelowMinimum string nat
  | LimitExceedsMaximum string nat
  | InvalidLimitCatalog
  | IncompatibleProtocol nat nat
  | MissingIdempotencyKey
  | InvalidRegistrationRevision
  | MissingOperationCapability string
  | InvalidExtensionVersion
  | UnorderedExtensions
  | ContentDigestMismatch string
  | TooManyBoundaryItems string nat
  | BoundaryBytesExceeded string nat
  | PayloadForbiddenForTerminal terminal_code
  | InvalidEffectGenerations
  | InvalidCommittedEffect string
  | EffectItemRefTooLong nat
  | TooManyEffectItemRefs nat
  | DuplicateEffectItemRef string
  | OverlappingEffectItemRef string
  | InvalidFallbackPolicyRevision
  | FallbackTargetMatchesCurrentProvider
  | TerminalEffectMismatch terminal_code committed_effect_state
  | TerminalFallbackMismatch terminal_code fallback_eligibility
  | MissingFailureDiagnostic
  | InvalidTerminalPolicyCatalog
  | NonCanonicalTerminalText string
  | TerminalTextTooLong string nat
  | DuplicateEffectKeyMismatch
  | DuplicateEffectWithoutRequestKey
  | ReadOnlyOperationEffect provider_operation committed_effect_state
  | FallbackSourceProviderMismatch
  | UnsanitizedObservation
  | SanitizationReceiptTampered
  | SanitizationReceiptUnbound
  | InvalidSanitizerRevision
  | SanitizationAcceptedPayloadModified
  | SanitizationRedactedPayloadUnmodified
  | MalformedSanitizationReceiptJson string
  | NativeContextDeliveryBindingMismatch string

type_synonym 'a api_result = "api_error + 'a"

subsection \<open>Field validators\<close>

definition api_require_non_empty :: "string \<Rightarrow> string \<Rightarrow> unit api_result" where
  "api_require_non_empty value field = (if value = [] then Inl (EmptyField field) else Inr ())"

definition api_require_sha256 :: "string \<Rightarrow> string \<Rightarrow> unit api_result" where
  "api_require_sha256 value field = (if is_sha256 value then Inr () else Inl (InvalidSha256 field))"

definition strip_prefix :: "string \<Rightarrow> string \<Rightarrow> string option" where
  "strip_prefix pre value =
    (if take (length pre) value = pre then Some (drop (length pre) value) else None)"

definition require_tagged_sha256 :: "string \<Rightarrow> string \<Rightarrow> unit api_result" where
  "require_tagged_sha256 value field =
    (case strip_prefix ''sha256:'' value of
       None \<Rightarrow> Inl (InvalidSha256 field)
     | Some digest \<Rightarrow> api_require_sha256 digest field)"

definition is_ascii_lowercase :: "char \<Rightarrow> bool" where
  "is_ascii_lowercase c \<longleftrightarrow> 97 \<le> (of_char c :: nat) \<and> (of_char c :: nat) \<le> 122"

text \<open>The scan of \<^verbatim>\<open>valid_segmented_ascii\<close>; the result is the final value of
  \<^verbatim>\<open>previous_was_separator\<close>, or \<open>None\<close> when a byte is refused.\<close>
fun segment_scan :: "bool \<Rightarrow> string \<Rightarrow> bool option" where
  "segment_scan prev [] = Some prev"
| "segment_scan prev (b # bs) =
    (if is_ascii_lowercase b \<or> is_ascii_digit b then segment_scan False bs
     else if b \<in> {CHR ''.'', CHR ''_'', CHR ''-''} \<and> \<not> prev then segment_scan True bs
     else None)"

definition valid_segmented_ascii :: "string \<Rightarrow> nat \<Rightarrow> identifier_error + unit" where
  "valid_segmented_ascii value maximum =
    (if value = [] then Inl Empty
     else if maximum < length value then Inl TooLong
     else if \<not> is_ascii_lowercase (hd value) then Inl InvalidSyntax
     else case segment_scan False value of
       None \<Rightarrow> Inl InvalidSyntax
     | Some prev \<Rightarrow> if prev then Inl InvalidSyntax else Inr ())"

definition provider_id_new :: "string \<Rightarrow> identifier_error + unit" where
  "provider_id_new value = valid_segmented_ascii value 64"

text \<open>\<^verbatim>\<open>rsplit_once(".v")\<close>: the text before and after the last occurrence.\<close>
fun rsplit_once_dot_v :: "string \<Rightarrow> (string \<times> string) option" where
  "rsplit_once_dot_v [] = None"
| "rsplit_once_dot_v (c # cs) =
    (case rsplit_once_dot_v cs of
       Some (before, after) \<Rightarrow> Some (c # before, after)
     | None \<Rightarrow> if c = CHR ''.'' \<and> cs \<noteq> [] \<and> hd cs = CHR ''v'' then Some ([], tl cs) else None)"

definition capability_id_new :: "string \<Rightarrow> identifier_error + unit" where
  "capability_id_new value =
    (if 96 < length value then Inl TooLong
     else case rsplit_once_dot_v value of
       None \<Rightarrow> Inl InvalidSyntax
     | Some (prefix, version) \<Rightarrow>
         res_bind (valid_segmented_ascii prefix 90) (\<lambda>_.
           if version = [] \<or> \<not> list_all is_ascii_digit version \<or> hd version = CHR ''0''
           then Inl InvalidSyntax else Inr ()))"

definition require_versioned_id :: "string \<Rightarrow> unit api_result" where
  "require_versioned_id value =
    (case capability_id_new value of Inl e \<Rightarrow> Inl (InvalidVersionedId e) | Inr _ \<Rightarrow> Inr ())"

subsection \<open>Exact scope\<close>

record exact_scope =
  profile_id :: string
  project_id :: string
  repository_identity :: string
  worktree_identity :: string
  branch_identity :: string
  agent_session_id :: string
  resolved_scope_digest :: string

definition EXACT_SCOPE_DIGEST_DOMAIN :: "byte list" where
  "EXACT_SCOPE_DIGEST_DOMAIN = ''tracedecay.memory-provider.exact-scope.v1'' @ [CHR 0x00]"

definition exact_scope_validate :: "exact_scope \<Rightarrow> unit api_result" where
  "exact_scope_validate s = first_error
    [api_require_non_empty (profile_id s) ''profile_id'',
     api_require_non_empty (project_id s) ''project_id'',
     api_require_non_empty (repository_identity s) ''repository_identity'',
     api_require_non_empty (worktree_identity s) ''worktree_identity'',
     api_require_non_empty (branch_identity s) ''branch_identity'',
     api_require_non_empty (agent_session_id s) ''agent_session_id'',
     require_tagged_sha256 (resolved_scope_digest s) ''resolved_scope_digest'']"

definition exact_scope_sha256 :: "sha \<Rightarrow> exact_scope \<Rightarrow> string" where
  "exact_scope_sha256 sha s = lowercase_hex (sha (EXACT_SCOPE_DIGEST_DOMAIN @ frames
    [profile_id s, project_id s, repository_identity s, worktree_identity s, branch_identity s,
     agent_session_id s, resolved_scope_digest s]))"

definition session_forget_source_key :: "sha \<Rightarrow> exact_scope \<Rightarrow> string \<Rightarrow> string" where
  "session_forget_source_key sha s session_id =
    ''session:'' @ exact_scope_sha256 sha s @ '':'' @ session_id"

subsection \<open>Payloads and extensions\<close>

record canonical_payload =
  contract_id :: string
  payload_bytes :: "byte list"
  sha256 :: string

definition canonical_payload_validate :: "sha \<Rightarrow> canonical_payload \<Rightarrow> unit api_result" where
  "canonical_payload_validate sha p = first_error
    [require_versioned_id (contract_id p),
     api_require_sha256 (sha256 p) ''payload_sha256'',
     if payload_bytes p = [] then Inl (EmptyField ''canonical_payload'') else Inr (),
     if sha256 p \<noteq> lowercase_hex (sha (payload_bytes p))
       then Inl (ContentDigestMismatch ''payload_sha256'') else Inr ()]"

record opaque_extension =
  extension_id :: string
  extension_version :: nat
  required :: bool
  ext_payload_sha256 :: string
  ext_canonical_payload :: "byte list"

definition opaque_extension_validate :: "sha \<Rightarrow> opaque_extension \<Rightarrow> unit api_result" where
  "opaque_extension_validate sha x = first_error
    [require_versioned_id (extension_id x),
     if extension_version x = 0 then Inl InvalidExtensionVersion else Inr (),
     api_require_sha256 (ext_payload_sha256 x) ''extension_payload_sha256'',
     if ext_canonical_payload x = [] then Inl (EmptyField ''extension_canonical_payload'') else Inr (),
     if ext_payload_sha256 x \<noteq> lowercase_hex (sha (ext_canonical_payload x))
       then Inl (ContentDigestMismatch ''extension_payload_sha256'') else Inr ()]"

text \<open>The byte-wise order of \<^verbatim>\<open>str\<close>.\<close>
fun bytes_less :: "string \<Rightarrow> string \<Rightarrow> bool" where
  "bytes_less xs [] = False"
| "bytes_less [] (y # ys) = True"
| "bytes_less (x # xs) (y # ys) = (if x = y then bytes_less xs ys else x < y)"

definition EXTENSIONS_DOMAIN :: "byte list" where
  "EXTENSIONS_DOMAIN = ''tracedecay.memory-provider.observation-extensions.v1'' @ [CHR 0x00]"

definition extension_fields :: "opaque_extension \<Rightarrow> byte list list" where
  "extension_fields x = [extension_id x, u64_be (extension_version x),
    [if required x then CHR 0x01 else CHR 0x00], ext_payload_sha256 x]"

fun check_extensions :: "sha \<Rightarrow> string option \<Rightarrow> opaque_extension list \<Rightarrow> unit api_result" where
  "check_extensions sha previous [] = Inr ()"
| "check_extensions sha previous (x # xs) =
    res_bind (opaque_extension_validate sha x) (\<lambda>_.
      if (case previous of None \<Rightarrow> False | Some prev \<Rightarrow> \<not> bytes_less prev (extension_id x))
      then Inl UnorderedExtensions
      else check_extensions sha (Some (extension_id x)) xs)"

definition opaque_extensions_preimage :: "opaque_extension list \<Rightarrow> byte list" where
  "opaque_extensions_preimage xs =
    EXTENSIONS_DOMAIN @ u64_be (min u64_max (length xs)) @ frames (concat (map extension_fields xs))"

definition opaque_extensions_digest :: "sha \<Rightarrow> opaque_extension list \<Rightarrow> string api_result" where
  "opaque_extensions_digest sha xs =
    res_bind (check_extensions sha None xs) (\<lambda>_.
      Inr (lowercase_hex (sha (opaque_extensions_preimage xs))))"

definition empty_opaque_extensions_digest :: "sha \<Rightarrow> string" where
  "empty_opaque_extensions_digest sha = lowercase_hex (sha (EXTENSIONS_DOMAIN @ u64_be 0))"

fun extension_boundary_scan ::
  "sha \<Rightarrow> nat \<Rightarrow> nat \<Rightarrow> opaque_extension list \<Rightarrow> nat api_result" where
  "extension_boundary_scan sha maximum_extension_bytes total_bytes [] = Inr total_bytes"
| "extension_boundary_scan sha maximum_extension_bytes total_bytes (x # xs) =
    res_bind (opaque_extension_validate sha x) (\<lambda>_.
      if maximum_extension_bytes < length (ext_canonical_payload x)
      then Inl (BoundaryBytesExceeded ''extension_canonical_payload'' maximum_extension_bytes)
      else extension_boundary_scan sha maximum_extension_bytes
        (sat_add_u64 total_bytes (length (ext_canonical_payload x))) xs)"

definition validate_extension_boundary ::
  "sha \<Rightarrow> opaque_extension list \<Rightarrow> nat \<Rightarrow> nat \<Rightarrow> nat option \<Rightarrow> unit api_result" where
  "validate_extension_boundary sha xs maximum_extensions maximum_extension_bytes maximum_total_bytes =
    (if maximum_extensions < length xs then Inl (TooManyBoundaryItems ''extensions'' maximum_extensions)
     else res_bind (extension_boundary_scan sha maximum_extension_bytes 0 xs) (\<lambda>total_bytes.
       case maximum_total_bytes of
         None \<Rightarrow> Inr ()
       | Some maximum \<Rightarrow>
           if maximum < total_bytes then Inl (BoundaryBytesExceeded ''extensions'' maximum) else Inr ()))"

definition observation_extensions_digest :: "sha \<Rightarrow> opaque_extension list \<Rightarrow> string api_result" where
  "observation_extensions_digest sha xs =
    res_bind (validate_extension_boundary sha xs 32 262144 (Some 524288)) (\<lambda>_.
      opaque_extensions_digest sha xs)"

subsection \<open>Lemmas\<close>

lemma exact_scope_preimage_inject:
  assumes "\<forall>f\<in>{profile_id s, project_id s, repository_identity s, worktree_identity s,
      branch_identity s, agent_session_id s, resolved_scope_digest s, profile_id t, project_id t,
      repository_identity t, worktree_identity t, branch_identity t, agent_session_id t,
      resolved_scope_digest t}. length f \<le> u64_max"
    and "frames [profile_id s, project_id s, repository_identity s, worktree_identity s,
        branch_identity s, agent_session_id s, resolved_scope_digest s] =
      frames [profile_id t, project_id t, repository_identity t, worktree_identity t,
        branch_identity t, agent_session_id t, resolved_scope_digest t]"
  shows "(s :: exact_scope) = t"
proof -
  have "[profile_id s, project_id s, repository_identity s, worktree_identity s,
        branch_identity s, agent_session_id s, resolved_scope_digest s] =
      [profile_id t, project_id t, repository_identity t, worktree_identity t,
        branch_identity t, agent_session_id t, resolved_scope_digest t]"
    using assms by (subst (asm) frames_inject) auto
  then show ?thesis by simp
qed

lemma concat_fields_inject:
  "concat (map extension_fields xs) = concat (map extension_fields ys) \<Longrightarrow>
    length xs = length ys \<and> map extension_fields xs = map extension_fields ys"
proof (induction xs arbitrary: ys)
  case Nil
  then show ?case by (cases ys) (auto simp: extension_fields_def)
next
  case (Cons x xs)
  then obtain y ys' where "ys = y # ys'" by (cases ys) (auto simp: extension_fields_def)
  then show ?case using Cons by (auto simp: extension_fields_def)
qed

lemma check_extensions_sorted:
  "check_extensions sha previous xs = Inr () \<Longrightarrow>
    (\<forall>prev. previous = Some prev \<longrightarrow> xs \<noteq> [] \<longrightarrow> bytes_less prev (extension_id (hd xs))) \<and>
    (\<forall>i. Suc i < length xs \<longrightarrow> bytes_less (extension_id (xs ! i)) (extension_id (xs ! Suc i)))"
proof (induction xs arbitrary: previous)
  case (Cons x xs)
  then have rest: "check_extensions sha (Some (extension_id x)) xs = Inr ()"
    and prv: "\<forall>prev. previous = Some prev \<longrightarrow> bytes_less prev (extension_id x)"
    by (auto simp: res_bind_Inr_iff split: if_splits option.splits)
  from Cons.IH [OF rest] have
    "xs \<noteq> [] \<Longrightarrow> bytes_less (extension_id x) (extension_id (hd xs))"
    "\<And>i. Suc i < length xs \<Longrightarrow> bytes_less (extension_id (xs ! i)) (extension_id (xs ! Suc i))"
    by auto
  then show ?case using prv
    by (auto simp: nth_Cons hd_conv_nth split: nat.splits)
qed simp

end
