(* ===== verification/Delivery_State.thy ===== *)
theory Delivery_State
  imports Provider_Api
begin

text \<open>
  The delivery state machine of \<^verbatim>\<open>tracedecay-memory-observation/src/state.rs\<close> and the
  typed failures of \<^verbatim>\<open>error.rs\<close>.
\<close>

datatype (plugins only: code size) observation_journal_error =
    Api api_error
  | Storage string
  | SourceCheckpointConflict nat
  | Serialization string string
  | InvalidDigest string
  | EmptyField string
  | FieldTooLarge string nat
  | IdempotencyKeyMismatch string string
  | ExtensionsDigestMismatch
  | EnvelopeDigestMismatch
  | UnsettledSource string
  | UnknownWireValue string string
  | TerminalNotAdmissible string
  | AcknowledgementWithoutProviderReceipt string
  | UnboundDuplicateAcknowledgement string
  | DuplicateAcknowledgementKeyMismatch
  | DuplicateAcknowledgementIncoherent string string
  | AttemptRefusalBindingMismatch string
  | ReceiptDigestMismatch string
  | InvalidRetentionPolicy string
  | InvalidSweepSchedule string
  | InvalidDispatchPolicy string
  | InvalidBackpressurePolicy string
  | InvalidObservationId string
  | DeadlineBeforeAdmission micros micros
  | UnknownObservation string
  | UnknownLease string
  | SchemaAhead int int
  | LegacyWithheldEvidenceUnmigratable nat
  | Corrupt string string
  | ValueOutOfRange string
  | LockPoisoned
  | OperationCancelled string
  | BudgetExhausted string

type_synonym 'a journal_result = "observation_journal_error + 'a"

datatype delivery_state =
    Pending
  | Leased
  | Acknowledged
  | DuplicateAcknowledged
  | Rejected
  | EffectUnknown
  | Cancelled
  | Expired
  | Exhausted
  | Forgotten

fun state_as_wire :: "delivery_state \<Rightarrow> string" where
  "state_as_wire Pending = ''pending''"
| "state_as_wire Leased = ''leased''"
| "state_as_wire Acknowledged = ''acknowledged''"
| "state_as_wire DuplicateAcknowledged = ''duplicate_acknowledged''"
| "state_as_wire Rejected = ''rejected''"
| "state_as_wire EffectUnknown = ''effect_unknown''"
| "state_as_wire Cancelled = ''cancelled''"
| "state_as_wire Expired = ''expired''"
| "state_as_wire Exhausted = ''exhausted''"
| "state_as_wire Forgotten = ''forgotten''"

definition state_from_wire :: "string \<Rightarrow> delivery_state journal_result" where
  "state_from_wire value =
    (if value = ''pending'' then Inr Pending
     else if value = ''leased'' then Inr Leased
     else if value = ''acknowledged'' then Inr Acknowledged
     else if value = ''duplicate_acknowledged'' then Inr DuplicateAcknowledged
     else if value = ''rejected'' then Inr Rejected
     else if value = ''effect_unknown'' then Inr EffectUnknown
     else if value = ''cancelled'' then Inr Cancelled
     else if value = ''expired'' then Inr Expired
     else if value = ''exhausted'' then Inr Exhausted
     else if value = ''forgotten'' then Inr Forgotten
     else Inl (UnknownWireValue ''delivery_state'' value))"

fun is_terminal :: "delivery_state \<Rightarrow> bool" where
  "is_terminal Pending = False"
| "is_terminal Leased = False"
| "is_terminal EffectUnknown = False"
| "is_terminal _ = True"

fun is_deliverable :: "delivery_state \<Rightarrow> bool" where
  "is_deliverable Pending = True"
| "is_deliverable EffectUnknown = True"
| "is_deliverable _ = False"

fun can_transition_to :: "delivery_state \<Rightarrow> delivery_state \<Rightarrow> bool" where
  "can_transition_to Pending next =
    (next \<in> {Leased, Cancelled, Expired, Exhausted, Forgotten})"
| "can_transition_to Leased next =
    (next \<in> {Pending, Acknowledged, DuplicateAcknowledged, Rejected, EffectUnknown, Cancelled,
      Expired, Exhausted, Forgotten})"
| "can_transition_to EffectUnknown next = (next \<in> {Leased, Exhausted, Expired, Forgotten})"
| "can_transition_to Forgotten next = False"
| "can_transition_to _ next = (next = Forgotten)"

text \<open>A wire codec: decoding what was encoded gives the value back, and nothing else
  decodes to it.\<close>
locale wire_codec =
  fixes enc :: "'a \<Rightarrow> string" and dec :: "string \<Rightarrow> 'a journal_result"
  assumes dec_enc: "dec (enc x) = Inr x"
    and enc_dec: "dec t = Inr x \<Longrightarrow> enc x = t"
begin

lemma enc_inject: "enc x = enc y \<longleftrightarrow> x = y"
  by (metis dec_enc sum.inject(2))

lemma dec_ok_iff: "dec t = Inr x \<longleftrightarrow> t = enc x"
  using dec_enc enc_dec by blast

end

interpretation state_wire: wire_codec state_as_wire state_from_wire
proof unfold_locales
  show "state_from_wire (state_as_wire x) = Inr x" for x
    by (cases x) (simp_all add: state_from_wire_def)
  show "state_as_wire x = t" if "state_from_wire t = Inr x" for t x
    using that by (auto simp: state_from_wire_def split: if_splits)
qed

lemma terminal_not_deliverable [wire_simps]: "is_terminal s \<Longrightarrow> \<not> is_deliverable s"
  by (cases s) auto

lemma terminal_only_forgotten: "is_terminal s \<Longrightarrow> can_transition_to s t \<Longrightarrow> t = Forgotten"
  by (cases s) auto

lemma can_transition_irrefl: "\<not> can_transition_to s s"
  by (cases s) auto

text \<open>The wire text of a delivery state decodes to exactly that state, and every text
  that decodes is the wire text of the state it decodes to.\<close>
theorem state_wire_roundtrip:
  "state_from_wire t = Inr s \<longleftrightarrow> t = state_as_wire s"
  by (rule state_wire.dec_ok_iff)

end
