(* ===== verification/Journal_Identity.thy ===== *)
theory Journal_Identity
  imports Delivery_State
begin

text \<open>
  Content-derived identities of the observation journal
  (\<^verbatim>\<open>tracedecay-memory-observation/src/identity.rs\<close>, with the source authorities of
  \<^verbatim>\<open>settlement.rs\<close>): field validators, UUIDv7 observation identities, and the
  idempotency key, lease identity, receipt identity and envelope digest as length-framed
  hashes of their inputs.
\<close>

subsection \<open>Field validators\<close>

definition SOURCE_EVENT_ID_MAX_BYTES :: nat where
  "SOURCE_EVENT_ID_MAX_BYTES = 256"

definition require_sha256 :: "string \<Rightarrow> string \<Rightarrow> unit journal_result" where
  "require_sha256 value field = (if is_sha256 value then Inr () else Inl (InvalidDigest field))"

definition require_non_empty :: "string \<Rightarrow> string \<Rightarrow> unit journal_result" where
  "require_non_empty value field =
    (if value = [] then Inl (observation_journal_error.EmptyField field) else Inr ())"

definition require_bounded :: "string \<Rightarrow> string \<Rightarrow> nat \<Rightarrow> unit journal_result" where
  "require_bounded value field maximum_bytes =
    res_bind (require_non_empty value field) (\<lambda>_.
      if maximum_bytes < length value then Inl (FieldTooLarge field maximum_bytes) else Inr ())"

lemma require_ok [simp]:
  "require_sha256 v f = Inr () \<longleftrightarrow> is_sha256 v"
  "require_bounded v f n = Inr () \<longleftrightarrow> v \<noteq> [] \<and> length v \<le> n"
  "is_ok (require_sha256 v f) \<longleftrightarrow> is_sha256 v"
  "is_ok (require_bounded v f n) \<longleftrightarrow> v \<noteq> [] \<and> length v \<le> n"
  by (auto simp: require_sha256_def require_bounded_def require_non_empty_def)

subsection \<open>Observation identities\<close>

definition set_version :: "byte \<Rightarrow> byte" where
  "set_version b = char_of (0x70 + (of_char b :: nat) mod 16)"

definition set_variant :: "byte \<Rightarrow> byte" where
  "set_variant b = char_of (0x80 + (of_char b :: nat) mod 64)"

definition uuid_text :: "byte list \<Rightarrow> string" where
  "uuid_text bytes =
    concat (map (\<lambda>(index, character). if index \<in> {8, 12, 16, 20} then [CHR ''-'', character]
      else [character]) (enumerate 0 (lowercase_hex bytes)))"

definition from_v7_parts :: "nat \<Rightarrow> byte list \<Rightarrow> string journal_result" where
  "from_v7_parts unix_millis entropy =
    (if 2 ^ 48 \<le> unix_millis
     then Inl (InvalidObservationId ''unix millisecond stamp exceeds 48 bits'')
     else let bytes = be_bytes 6 unix_millis @ entropy;
              bytes = bytes[6 := set_version (bytes ! 6)];
              bytes = bytes[8 := set_variant (bytes ! 8)]
          in Inr (uuid_text bytes))"

fun uuid_scan :: "nat \<Rightarrow> string \<Rightarrow> unit journal_result" where
  "uuid_scan index [] = Inr ()"
| "uuid_scan index (c # cs) =
    (if index \<in> {8, 13, 18, 23}
     then (if c \<noteq> CHR ''-'' then Inl (InvalidObservationId ''uuid group separator is missing'')
           else uuid_scan (index + 1) cs)
     else if \<not> is_lower_hex c then Inl (InvalidObservationId ''uuid must be lowercase hexadecimal'')
     else uuid_scan (index + 1) cs)"

definition observation_id_parse :: "string \<Rightarrow> string journal_result" where
  "observation_id_parse value =
    (if length value \<noteq> 36 then Inl (InvalidObservationId ''uuid must be 36 characters'')
     else res_bind (uuid_scan 0 value) (\<lambda>_.
       if value ! 14 \<noteq> CHR ''7'' then Inl (InvalidObservationId ''uuid version must be 7'')
       else if value ! 19 \<notin> {CHR ''8'', CHR ''9'', CHR ''a'', CHR ''b''}
       then Inl (InvalidObservationId ''uuid variant must be RFC 4122'')
       else Inr value))"

subsection \<open>Source authorities\<close>

datatype source_authority =
    HostSession | ToolExecution | SourceEdit | TestExecution | DiagnosticBroker | GitEvidence
  | NativeFactPromotion | FeedbackOutcome | AutomationOutcome

fun authority_as_wire :: "source_authority \<Rightarrow> string" where
  "authority_as_wire HostSession = ''host_session''"
| "authority_as_wire ToolExecution = ''tool_execution''"
| "authority_as_wire SourceEdit = ''source_edit''"
| "authority_as_wire TestExecution = ''test_execution''"
| "authority_as_wire DiagnosticBroker = ''diagnostic_broker''"
| "authority_as_wire GitEvidence = ''git_evidence''"
| "authority_as_wire NativeFactPromotion = ''native_fact_promotion''"
| "authority_as_wire FeedbackOutcome = ''feedback_outcome''"
| "authority_as_wire AutomationOutcome = ''automation_outcome''"

definition authority_from_wire :: "string \<Rightarrow> source_authority journal_result" where
  "authority_from_wire value =
    (if value = ''host_session'' then Inr HostSession
     else if value = ''tool_execution'' then Inr ToolExecution
     else if value = ''source_edit'' then Inr SourceEdit
     else if value = ''test_execution'' then Inr TestExecution
     else if value = ''diagnostic_broker'' then Inr DiagnosticBroker
     else if value = ''git_evidence'' then Inr GitEvidence
     else if value = ''native_fact_promotion'' then Inr NativeFactPromotion
     else if value = ''feedback_outcome'' then Inr FeedbackOutcome
     else if value = ''automation_outcome'' then Inr AutomationOutcome
     else Inl (UnknownWireValue ''source_authority'' value))"

interpretation authority_wire: wire_codec authority_as_wire authority_from_wire
proof unfold_locales
  show "authority_from_wire (authority_as_wire x) = Inr x" for x
    by (cases x) (simp_all add: authority_from_wire_def)
  show "authority_as_wire x = t" if "authority_from_wire t = Inr x" for t x
    using that by (auto simp: authority_from_wire_def split: if_splits)
qed

subsection \<open>Derived identities\<close>

definition OBSERVATION_CONTRACT_ID :: string where
  "OBSERVATION_CONTRACT_ID = ''tracedecay.memory.provider.observation.v1''"

definition IDEMPOTENCY_DOMAIN :: "byte list" where
  "IDEMPOTENCY_DOMAIN = ''tracedecay.memory-provider.observation-idempotency.v1'' @ [CHR 0x00]"

definition ENVELOPE_DOMAIN :: "byte list" where
  "ENVELOPE_DOMAIN = ''tracedecay.memory-provider.observation-envelope.v1'' @ [CHR 0x00]"

definition RECEIPT_ID_DOMAIN :: "byte list" where
  "RECEIPT_ID_DOMAIN = ''tracedecay.memory-provider.observation-receipt.v1'' @ [CHR 0x00]"

definition LEASE_ID_DOMAIN :: "byte list" where
  "LEASE_ID_DOMAIN = ''tracedecay.memory-provider.observation-lease.v1'' @ [CHR 0x00]"

record idempotency_input =
  ii_contract_id :: string
  ii_provider_id :: string
  ii_registration_revision :: nat
  ii_exact_scope_sha256 :: string
  ii_source_authority :: source_authority
  ii_source_event_id :: string
  ii_source_event_revision :: nat
  ii_observation_kind :: string
  ii_payload_contract :: string
  ii_payload_sha256 :: string
  ii_extensions_digest :: string

definition idempotency_fields :: "idempotency_input \<Rightarrow> byte list list" where
  "idempotency_fields i =
    [ii_contract_id i, ii_provider_id i, u64_be (ii_registration_revision i),
     ii_exact_scope_sha256 i, authority_as_wire (ii_source_authority i), ii_source_event_id i,
     u64_be (ii_source_event_revision i), ii_observation_kind i, ii_payload_contract i,
     ii_payload_sha256 i, ii_extensions_digest i]"

definition idempotency_preimage :: "idempotency_input \<Rightarrow> byte list" where
  "idempotency_preimage i = IDEMPOTENCY_DOMAIN @ frames (idempotency_fields i)"

definition idempotency_key_derive :: "sha \<Rightarrow> idempotency_input \<Rightarrow> string" where
  "idempotency_key_derive sha i = lowercase_hex (sha (idempotency_preimage i))"

definition lease_preimage :: "string \<times> string \<times> micros \<times> nat \<Rightarrow> byte list" where
  "lease_preimage = (\<lambda>(key, owner, leased_at, attempt).
    LEASE_ID_DOMAIN @ frames [key, owner, i64_be leased_at, u64_be attempt])"

definition lease_id_derive :: "sha \<Rightarrow> string \<Rightarrow> string \<Rightarrow> micros \<Rightarrow> nat \<Rightarrow> string" where
  "lease_id_derive sha key owner leased_at attempt =
    lowercase_hex (sha (lease_preimage (key, owner, leased_at, attempt)))"

definition receipt_preimage :: "string \<times> nat \<Rightarrow> byte list" where
  "receipt_preimage = (\<lambda>(observation_id, attempt).
    RECEIPT_ID_DOMAIN @ frames [observation_id, u64_be attempt])"

definition receipt_id_derive :: "sha \<Rightarrow> string \<Rightarrow> nat \<Rightarrow> string" where
  "receipt_id_derive sha observation_id attempt =
    lowercase_hex (sha (receipt_preimage (observation_id, attempt)))"

definition parse_digest :: "string \<Rightarrow> string \<Rightarrow> string journal_result" where
  "parse_digest field value = res_bind (require_sha256 value field) (\<lambda>_. Inr value)"

record envelope_input =
  ev_observation_id :: string
  ev_idempotency_key :: string
  ev_provider_id :: string
  ev_provider_instance_id :: string
  ev_registration_revision :: nat
  ev_ready_receipt_digest :: string
  ev_exact_scope_sha256 :: string
  ev_source_event_sha256 :: string
  ev_source_sequence :: nat
  ev_observation_kind :: string
  ev_payload_contract :: string
  ev_payload_sha256 :: string
  ev_extensions_digest :: string
  ev_provenance_sha256 :: string
  ev_privacy_digest :: string
  ev_sanitization_binding_digest :: string
  ev_occurred_at :: micros
  ev_admitted_at :: micros
  ev_deadline :: micros
  ev_request_id :: string

definition envelope_fields :: "envelope_input \<Rightarrow> byte list list" where
  "envelope_fields e =
    [ev_observation_id e, ev_idempotency_key e, ev_provider_id e, ev_provider_instance_id e,
     u64_be (ev_registration_revision e), ev_ready_receipt_digest e, ev_exact_scope_sha256 e,
     ev_source_event_sha256 e, u64_be (ev_source_sequence e), ev_observation_kind e,
     ev_payload_contract e, ev_payload_sha256 e, ev_extensions_digest e, ev_provenance_sha256 e,
     ev_privacy_digest e, ev_sanitization_binding_digest e, i64_be (ev_occurred_at e),
     i64_be (ev_admitted_at e), i64_be (ev_deadline e), ev_request_id e]"

definition envelope_preimage :: "envelope_input \<Rightarrow> byte list" where
  "envelope_preimage e = ENVELOPE_DOMAIN @ frames (envelope_fields e)"

definition envelope_digest :: "sha \<Rightarrow> envelope_input \<Rightarrow> string" where
  "envelope_digest sha e = lowercase_hex (sha (envelope_preimage e))"

subsection \<open>The preimages determine their inputs\<close>

definition fits :: "byte list list \<Rightarrow> bool" where
  "fits fs = list_all (\<lambda>f. length f \<le> u64_max) fs"

lemma fits_frames: "fits xs \<Longrightarrow> fits ys \<Longrightarrow> frames xs = frames ys \<Longrightarrow> xs = ys"
  using frames_inject [of xs ys] by (auto simp: fits_def list_all_iff)

definition idempotency_input_ok :: "idempotency_input \<Rightarrow> bool" where
  "idempotency_input_ok i \<longleftrightarrow> fits (idempotency_fields i) \<and>
    ii_registration_revision i \<le> u64_max \<and> ii_source_event_revision i \<le> u64_max"

definition lease_input_ok :: "string \<times> string \<times> micros \<times> nat \<Rightarrow> bool" where
  "lease_input_ok = (\<lambda>(key, owner, at, attempt).
    length key \<le> u64_max \<and> length owner \<le> u64_max \<and> is_i64 at \<and> attempt \<le> u32_max)"

definition receipt_input_ok :: "string \<times> nat \<Rightarrow> bool" where
  "receipt_input_ok = (\<lambda>(oid, attempt). length oid \<le> u64_max \<and> attempt \<le> u32_max)"

definition envelope_input_ok :: "envelope_input \<Rightarrow> bool" where
  "envelope_input_ok e \<longleftrightarrow> fits (envelope_fields e) \<and> ev_registration_revision e \<le> u64_max \<and>
    ev_source_sequence e \<le> u64_max \<and> is_i64 (ev_occurred_at e) \<and> is_i64 (ev_admitted_at e) \<and>
    is_i64 (ev_deadline e)"

lemma small_fields_fit [simp]: "8 \<le> u64_max" "length (u64_be n) \<le> u64_max"
  "length (i64_be x) \<le> u64_max"
  by (simp_all add: u64_max_def)

lemma u32_le_u64 [simp]: "n \<le> u32_max \<Longrightarrow> n \<le> u64_max"
  by (simp add: u32_max_def u64_max_def)

interpretation idempotency: framed_identity idempotency_preimage idempotency_input_ok
proof unfold_locales
  fix a b
  assume ok: "idempotency_input_ok a" "idempotency_input_ok b"
    and "idempotency_preimage a = idempotency_preimage b"
  then have "idempotency_fields a = idempotency_fields b"
    by (intro fits_frames) (simp_all add: idempotency_preimage_def idempotency_input_ok_def)
  then show "a = b"
    using ok by (simp add: idempotency_fields_def idempotency_input_ok_def u64_be_inject
        authority_wire.enc_inject)
qed

interpretation lease: framed_identity lease_preimage lease_input_ok
proof unfold_locales
  fix a b
  assume "lease_input_ok a" "lease_input_ok b" "lease_preimage a = lease_preimage b"
  then show "a = b"
    by (auto simp: lease_preimage_def lease_input_ok_def u64_be_inject i64_be_inject fits_def
        dest!: fits_frames [rotated 2] split: prod.splits)
qed

interpretation receipt: framed_identity receipt_preimage receipt_input_ok
proof unfold_locales
  fix a b
  assume "receipt_input_ok a" "receipt_input_ok b" "receipt_preimage a = receipt_preimage b"
  then show "a = b"
    by (auto simp: receipt_preimage_def receipt_input_ok_def u64_be_inject fits_def
        dest!: fits_frames [rotated 2] split: prod.splits)
qed

interpretation envelope: framed_identity envelope_preimage envelope_input_ok
proof unfold_locales
  fix a b
  assume ok: "envelope_input_ok a" "envelope_input_ok b"
    and "envelope_preimage a = envelope_preimage b"
  then have "envelope_fields a = envelope_fields b"
    by (intro fits_frames) (simp_all add: envelope_preimage_def envelope_input_ok_def)
  then show "a = b"
    using ok by (simp add: envelope_fields_def envelope_input_ok_def u64_be_inject i64_be_inject)
qed

text \<open>The idempotency key binds all eleven contract inputs: two different in-range
  inputs with the same key exhibit a SHA-256 collision, because the length-framed preimage
  leaves no room for shifted field boundaries.\<close>
theorem idempotency_key_binds:
  assumes "idempotency_input_ok a" "idempotency_input_ok b" "a \<noteq> b"
    "idempotency_key_derive sha a = idempotency_key_derive sha b"
  shows "\<exists>x y. x \<noteq> y \<and> sha x = sha y"
  using assms idempotency.identity_collision [of a b sha] by (simp add: idempotency_key_derive_def)

definition sample_idempotency_input :: "nat \<Rightarrow> idempotency_input" where
  "sample_idempotency_input n = \<lparr>ii_contract_id = OBSERVATION_CONTRACT_ID,
    ii_provider_id = ''provider'', ii_registration_revision = n,
    ii_exact_scope_sha256 = sample_digest, ii_source_authority = HostSession,
    ii_source_event_id = ''event'', ii_source_event_revision = 1, ii_observation_kind = ''kind.v1'',
    ii_payload_contract = ''payload.v1'', ii_payload_sha256 = sample_digest,
    ii_extensions_digest = sample_digest\<rparr>"

theorem idempotency_key_binds_witness: "\<exists>x y. x \<noteq> y \<and> zero_sha x = zero_sha y"
  by (rule idempotency_key_binds [of "sample_idempotency_input 1" "sample_idempotency_input 2"])
    (simp_all add: idempotency_input_ok_def idempotency_fields_def fits_def
      sample_idempotency_input_def OBSERVATION_CONTRACT_ID_def idempotency_key_derive_def u64_max_def)

subsection \<open>UUIDv7 round trip\<close>

lemma length_16E:
  assumes "length (bs :: 'a list) = 16"
  obtains a b c d e f g h i j k l m n o' p where "bs = [a,b,c,d,e,f,g,h,i,j,k,l,m,n,o',p]"
  using assms by (auto simp: numeral_eq_Suc length_Suc_conv)

lemma hex_nibbles_lower [simp]:
  "is_lower_hex (hex_digit ((of_char b :: nat) div 16))"
  "is_lower_hex (hex_digit ((of_char b :: nat) mod 16))"
  by (rule hex_digit_lower; simp add: less_mult_imp_div_less)+

lemma version_nibble: "hex_digit ((of_char (set_version b) :: nat) div 16) = CHR ''7''"
proof -
  have "(112 + (of_char b :: nat) mod 16) mod 256 = 112 + of_char b mod 16" by simp
  then show ?thesis by (simp add: set_version_def hex_digit_def)
qed

lemma variant_nibble:
  "hex_digit ((of_char (set_variant b) :: nat) div 16) \<in> {CHR ''8'', CHR ''9'', CHR ''a'', CHR ''b''}"
proof -
  have "(of_char (set_variant b) :: nat) = 128 + of_char b mod 64" by (simp add: set_variant_def)
  moreover have "((of_char b :: nat) mod 64) div 16 < 4" by (simp add: less_mult_imp_div_less)
  then have "((of_char b :: nat) mod 64) div 16 \<in> {0, 1, 2, 3}" by auto
  ultimately show ?thesis by (auto simp: hex_digit_def)
qed

lemma observation_id_parse_uuid_text:
  assumes "length bs = 16" "bs ! 6 = set_version v" "bs ! 8 = set_variant w"
  shows "observation_id_parse (uuid_text bs) = Inr (uuid_text bs)"
  using assms(1)
proof (rule length_16E)
  fix a b c d e f g h i j k l m n o' p
  assume bs: "bs = [a,b,c,d,e,f,g,h,i,j,k,l,m,n,o',p]"
  then have "g = set_version v" "i = set_variant w" using assms by simp_all
  then have "hex_digit ((of_char g :: nat) div 16) = CHR ''7''"
    "hex_digit ((of_char i :: nat) div 16) \<in> {CHR ''8'', CHR ''9'', CHR ''a'', CHR ''b''}"
    by (simp_all only: version_nibble variant_nibble)
  moreover have "is_lower_hex (CHR ''7'')" by (simp add: is_lower_hex_def is_ascii_digit_def)
  ultimately show ?thesis
    by (simp add: bs observation_id_parse_def uuid_text_def lowercase_hex_def)
qed

text \<open>Every identity minted from a 48-bit millisecond stamp and ten entropy bytes is
  accepted, unchanged, by the parser that revalidates stored identities.\<close>
theorem observation_id_roundtrip:
  assumes "unix_millis < 2 ^ 48" "length entropy = 10"
  shows "\<exists>value. from_v7_parts unix_millis entropy = Inr value \<and>
    observation_id_parse value = Inr value"
proof -
  let ?bs = "be_bytes 6 unix_millis @ entropy"
  let ?b1 = "?bs[6 := set_version (?bs ! 6)]"
  let ?b2 = "?b1[8 := set_variant (?b1 ! 8)]"
  have "observation_id_parse (uuid_text ?b2) = Inr (uuid_text ?b2)"
    using assms(2) by (intro observation_id_parse_uuid_text) simp_all
  then show ?thesis using assms by (simp add: from_v7_parts_def Let_def)
qed

theorem observation_id_roundtrip_witness:
  "\<exists>value. from_v7_parts 1700000000000 (replicate 10 (CHR 0xAB)) = Inr value \<and>
    observation_id_parse value = Inr value"
  by (rule observation_id_roundtrip) simp_all

end
