(* ===== verification/Hygiene.thy ===== *)
theory Hygiene
  imports Provider_Api Utf8
begin

text \<open>
  Payload hygiene receipts (\<^verbatim>\<open>tracedecay-memory-provider-api/src/hygiene.rs\<close>): the
  derived receipt identity, its validation and binding checks, and the strict flat-JSON
  encoder and parser the journal stores receipts with.  The parser's cursor into the byte
  array is represented by the bytes that are left.
\<close>

datatype sanitization_disposition = Accepted | Redacted

fun disposition_as_str :: "sanitization_disposition \<Rightarrow> string" where
  "disposition_as_str Accepted = ''accepted''"
| "disposition_as_str Redacted = ''redacted''"

definition disposition_from_wire :: "string \<Rightarrow> sanitization_disposition option" where
  "disposition_from_wire value =
    (if value = ''accepted'' then Some Accepted
     else if value = ''redacted'' then Some Redacted else None)"

datatype withheld_reason = SecretRejected | Quarantined | UnclassifiablePayload | UnknownEligibility

fun withheld_reason_as_str :: "withheld_reason \<Rightarrow> string" where
  "withheld_reason_as_str SecretRejected = ''secret_rejected''"
| "withheld_reason_as_str Quarantined = ''quarantined''"
| "withheld_reason_as_str UnclassifiablePayload = ''unclassifiable_payload''"
| "withheld_reason_as_str UnknownEligibility = ''unknown_eligibility''"

definition withheld_reason_from_wire :: "string \<Rightarrow> withheld_reason option" where
  "withheld_reason_from_wire value =
    (if value = ''secret_rejected'' then Some SecretRejected
     else if value = ''quarantined'' then Some Quarantined
     else if value = ''unclassifiable_payload'' then Some UnclassifiablePayload
     else if value = ''unknown_eligibility'' then Some UnknownEligibility
     else None)"

definition RECEIPT_DIGEST_DOMAIN :: "byte list" where
  "RECEIPT_DIGEST_DOMAIN = ''tracedecay.memory.observation.hygiene.receipt.v1''"

definition WITHHELD_DIGEST_DOMAIN :: "byte list" where
  "WITHHELD_DIGEST_DOMAIN = ''tracedecay.memory.observation.hygiene.withheld.v1''"

definition EMPTY_FINDINGS_DOMAIN :: "byte list" where
  "EMPTY_FINDINGS_DOMAIN = ''tracedecay.memory.observation.hygiene.findings.v1''"

definition OBSERVATION_HYGIENE_RECEIPT_ID_PREFIX :: string where
  "OBSERVATION_HYGIENE_RECEIPT_ID_PREFIX = ''obs-hygiene-receipt.v1.''"

definition OBSERVATION_HYGIENE_WITHHELD_ID_PREFIX :: string where
  "OBSERVATION_HYGIENE_WITHHELD_ID_PREFIX = ''obs-hygiene-withheld.v1.''"

definition SANITIZER_REVISION_MAX_BYTES :: nat where
  "SANITIZER_REVISION_MAX_BYTES = 256"

definition framed_digest :: "sha \<Rightarrow> byte list \<Rightarrow> byte list list \<Rightarrow> byte list" where
  "framed_digest sha domain parts = sha (frames (domain # parts))"

definition derive_withheld_receipt_id ::
  "sha \<Rightarrow> string \<Rightarrow> string \<Rightarrow> string \<Rightarrow> withheld_reason \<Rightarrow> nat \<Rightarrow> string \<Rightarrow> string" where
  "derive_withheld_receipt_id sha revision source_sha ext_digest reason count findings =
    OBSERVATION_HYGIENE_WITHHELD_ID_PREFIX @
    lowercase_hex (framed_digest sha WITHHELD_DIGEST_DOMAIN
      [revision, source_sha, ext_digest, withheld_reason_as_str reason, u32_be count, findings])"

definition empty_findings_digest :: "sha \<Rightarrow> string" where
  "empty_findings_digest sha = lowercase_hex (framed_digest sha EMPTY_FINDINGS_DOMAIN [])"

subsection \<open>Receipts\<close>

record sanitization_receipt_parts =
  sanitizer_revision :: string
  source_payload_sha256 :: string
  sanitized_payload_sha256 :: string
  receipt_extensions_digest :: string
  disposition :: sanitization_disposition
  finding_count :: nat
  findings_digest :: string

record sanitization_receipt = sanitization_receipt_parts +
  hygiene_receipt_id :: string

definition derive_receipt_id :: "sha \<Rightarrow> ('a sanitization_receipt_parts_scheme) \<Rightarrow> string" where
  "derive_receipt_id sha r =
    OBSERVATION_HYGIENE_RECEIPT_ID_PREFIX @
    lowercase_hex (framed_digest sha RECEIPT_DIGEST_DOMAIN
      [sanitizer_revision r, source_payload_sha256 r, sanitized_payload_sha256 r,
       receipt_extensions_digest r, disposition_as_str (disposition r), u32_be (finding_count r),
       findings_digest r])"

definition revision_byte_ok :: "byte \<Rightarrow> bool" where
  "revision_byte_ok b \<longleftrightarrow> in_range 0x21 0x7E b \<and> b \<noteq> CHR 0x22 \<and> b \<noteq> CHR 0x5C"

definition require_sanitizer_revision :: "string \<Rightarrow> unit api_result" where
  "require_sanitizer_revision value =
    (if value = [] \<or> SANITIZER_REVISION_MAX_BYTES < length value then Inl InvalidSanitizerRevision
     else if list_all revision_byte_ok value then Inr ()
     else Inl InvalidSanitizerRevision)"

definition require_disposition_matches_digests ::
  "sanitization_disposition \<Rightarrow> string \<Rightarrow> string \<Rightarrow> unit api_result" where
  "require_disposition_matches_digests d source_sha sanitized_sha =
    (if d = Accepted \<and> sanitized_sha \<noteq> source_sha then Inl SanitizationAcceptedPayloadModified
     else if d = Redacted \<and> sanitized_sha = source_sha
       then Inl SanitizationRedactedPayloadUnmodified
     else Inr ())"

definition receipt_parts_check :: "('a sanitization_receipt_parts_scheme) \<Rightarrow> unit api_result" where
  "receipt_parts_check r = first_error
    [require_sanitizer_revision (sanitizer_revision r),
     api_require_sha256 (source_payload_sha256 r) ''source_payload_sha256'',
     api_require_sha256 (sanitized_payload_sha256 r) ''sanitized_payload_sha256'',
     api_require_sha256 (receipt_extensions_digest r) ''sanitization_extensions_digest'',
     api_require_sha256 (findings_digest r) ''sanitization_findings_digest'',
     require_disposition_matches_digests (disposition r) (source_payload_sha256 r)
       (sanitized_payload_sha256 r)]"

definition sanitization_receipt_new ::
  "sha \<Rightarrow> sanitization_receipt_parts \<Rightarrow> sanitization_receipt api_result" where
  "sanitization_receipt_new sha parts =
    res_bind (receipt_parts_check parts) (\<lambda>_.
      Inr (sanitization_receipt_parts.extend parts
        (sanitization_receipt.fields (derive_receipt_id sha parts))))"

definition sanitization_receipt_validate :: "sha \<Rightarrow> sanitization_receipt \<Rightarrow> unit api_result" where
  "sanitization_receipt_validate sha r =
    res_bind (receipt_parts_check r) (\<lambda>_.
      if derive_receipt_id sha r \<noteq> hygiene_receipt_id r then Inl SanitizationReceiptTampered
      else Inr ())"

definition verify_binding :: "sha \<Rightarrow> sanitization_receipt \<Rightarrow> string \<Rightarrow> string \<Rightarrow> unit api_result" where
  "verify_binding sha r payload_sha ext_digest =
    res_bind (sanitization_receipt_validate sha r) (\<lambda>_.
      if sanitized_payload_sha256 r \<noteq> payload_sha \<or> receipt_extensions_digest r \<noteq> ext_digest
      then Inl SanitizationReceiptUnbound else Inr ())"

subsection \<open>Encoding\<close>

fun decimal :: "nat \<Rightarrow> string" where
  "decimal n = (if n < 10 then [char_of (48 + n)] else decimal (n div 10) @ [char_of (48 + n mod 10)])"

declare decimal.simps [simp del]

abbreviation dquote :: byte where
  "dquote \<equiv> CHR 0x22"

definition json_string_field :: "string \<Rightarrow> string \<Rightarrow> bool \<Rightarrow> string" where
  "json_string_field key value first =
    (if first then [] else '','') @ [dquote] @ key @ [dquote, CHR '':'', dquote] @ value @ [dquote]"

definition to_json :: "sanitization_receipt \<Rightarrow> string" where
  "to_json r =
    ''{'' @
    json_string_field ''receipt_id'' (hygiene_receipt_id r) True @
    json_string_field ''sanitizer_revision'' (sanitizer_revision r) False @
    json_string_field ''source_payload_sha256'' (source_payload_sha256 r) False @
    json_string_field ''sanitized_payload_sha256'' (sanitized_payload_sha256 r) False @
    json_string_field ''extensions_digest'' (receipt_extensions_digest r) False @
    json_string_field ''disposition'' (disposition_as_str (disposition r)) False @
    '','' @ [dquote] @ ''finding_count'' @ [dquote] @ '':'' @ decimal (finding_count r) @
    json_string_field ''findings_digest'' (findings_digest r) False @
    ''}''"

subsection \<open>Parsing\<close>

definition is_json_space :: "byte \<Rightarrow> bool" where
  "is_json_space b \<longleftrightarrow> b \<in> {CHR '' '', CHR 0x09, CHR 0x0A, CHR 0x0D}"

definition skip_whitespace :: "byte list \<Rightarrow> byte list" where
  "skip_whitespace bs = dropWhile is_json_space bs"

abbreviation malformed :: "string \<Rightarrow> 'a api_result" where
  "malformed part \<equiv> Inl (MalformedSanitizationReceiptJson part)"

fun scan_json_string :: "byte list \<Rightarrow> byte list \<Rightarrow> (string \<times> byte list) api_result" where
  "scan_json_string acc [] = malformed ''string''"
| "scan_json_string acc (b # bs) =
    (if b = dquote
     then (if utf8_valid (rev acc) then Inr (rev acc, bs) else malformed ''string'')
     else if b = CHR 0x5C then malformed ''string''
     else if (of_char b :: nat) < 0x20 then malformed ''string''
     else scan_json_string (b # acc) bs)"

fun parse_json_string :: "byte list \<Rightarrow> (string \<times> byte list) api_result" where
  "parse_json_string [] = malformed ''string''"
| "parse_json_string (b # bs) = (if b = dquote then scan_json_string [] bs else malformed ''string'')"

fun scan_json_u32 :: "nat \<Rightarrow> nat \<Rightarrow> byte list \<Rightarrow> (nat \<times> nat \<times> byte list) api_result" where
  "scan_json_u32 value digits [] = Inr (value, digits, [])"
| "scan_json_u32 value digits (b # bs) =
    (if \<not> is_ascii_digit b then Inr (value, digits, b # bs)
     else if digits = 1 \<and> value = 0 then malformed ''number''
     else if u32_max < value * 10 then malformed ''number''
     else if u32_max < value * 10 + (of_char b - 48) then malformed ''number''
     else scan_json_u32 (value * 10 + (of_char b - 48)) (digits + 1) bs)"

definition parse_json_u32 :: "byte list \<Rightarrow> (nat \<times> byte list) api_result" where
  "parse_json_u32 bs = res_bind (scan_json_u32 0 0 bs) (\<lambda>(value, digits, rest).
    if digits = 0 then malformed ''number'' else Inr (value, rest))"

text \<open>The eight \<^verbatim>\<open>Option\<close> locals of the parse loop.\<close>
record receipt_fields =
  f_receipt_id :: "string option"
  f_sanitizer_revision :: "string option"
  f_source_payload_sha256 :: "string option"
  f_sanitized_payload_sha256 :: "string option"
  f_extensions_digest :: "string option"
  f_disposition :: "sanitization_disposition option"
  f_finding_count :: "nat option"
  f_findings_digest :: "string option"

definition no_fields :: receipt_fields where
  "no_fields = \<lparr>f_receipt_id = None, f_sanitizer_revision = None, f_source_payload_sha256 = None,
    f_sanitized_payload_sha256 = None, f_extensions_digest = None, f_disposition = None,
    f_finding_count = None, f_findings_digest = None\<rparr>"

definition RECEIPT_JSON_KEYS :: "string list" where
  "RECEIPT_JSON_KEYS = [''receipt_id'', ''sanitizer_revision'', ''source_payload_sha256'',
    ''sanitized_payload_sha256'', ''extensions_digest'', ''disposition'', ''finding_count'',
    ''findings_digest'']"

text \<open>\<^verbatim>\<open>replace(value).is_some()\<close> on the field a string key names.\<close>
definition store_string_field ::
  "string \<Rightarrow> string \<Rightarrow> receipt_fields \<Rightarrow> (bool \<times> receipt_fields) api_result" where
  "store_string_field key value f =
    (if key = ''receipt_id''
       then Inr (f_receipt_id f \<noteq> None, f\<lparr>f_receipt_id := Some value\<rparr>)
     else if key = ''sanitizer_revision''
       then Inr (f_sanitizer_revision f \<noteq> None, f\<lparr>f_sanitizer_revision := Some value\<rparr>)
     else if key = ''source_payload_sha256''
       then Inr (f_source_payload_sha256 f \<noteq> None, f\<lparr>f_source_payload_sha256 := Some value\<rparr>)
     else if key = ''sanitized_payload_sha256''
       then Inr (f_sanitized_payload_sha256 f \<noteq> None, f\<lparr>f_sanitized_payload_sha256 := Some value\<rparr>)
     else if key = ''extensions_digest''
       then Inr (f_extensions_digest f \<noteq> None, f\<lparr>f_extensions_digest := Some value\<rparr>)
     else if key = ''findings_digest''
       then Inr (f_findings_digest f \<noteq> None, f\<lparr>f_findings_digest := Some value\<rparr>)
     else case disposition_from_wire value of
       None \<Rightarrow> malformed ''disposition''
     | Some d \<Rightarrow> Inr (f_disposition f \<noteq> None, f\<lparr>f_disposition := Some d\<rparr>))"

text \<open>The value after a key and its separator.\<close>
definition parse_receipt_value ::
  "string \<Rightarrow> byte list \<Rightarrow> receipt_fields \<Rightarrow> (receipt_fields \<times> byte list) api_result" where
  "parse_receipt_value key bs f =
    (if key = ''finding_count''
     then res_bind (parse_json_u32 bs) (\<lambda>(value, rest).
       if f_finding_count f \<noteq> None then malformed ''duplicate_field''
       else Inr (f\<lparr>f_finding_count := Some value\<rparr>, rest))
     else res_bind (parse_json_string bs) (\<lambda>(value, rest).
       res_bind (store_string_field key value f) (\<lambda>(duplicated, f').
         if duplicated then malformed ''duplicate_field'' else Inr (f', rest))))"

text \<open>One turn of the loop: a key, its value and the byte that follows; the flag says
  whether a comma asks for another turn.\<close>
definition parse_receipt_member ::
  "byte list \<Rightarrow> receipt_fields \<Rightarrow> (bool \<times> receipt_fields \<times> byte list) api_result" where
  "parse_receipt_member bs f =
    res_bind (parse_json_string bs) (\<lambda>(key, rest).
      if key \<notin> set RECEIPT_JSON_KEYS then malformed ''unknown_field''
      else let rest = skip_whitespace rest in
        if rest = [] \<or> hd rest \<noteq> CHR '':'' then malformed ''separator''
        else res_bind (parse_receipt_value key (skip_whitespace (tl rest)) f) (\<lambda>(f', rest).
          let rest = skip_whitespace rest in
          if rest \<noteq> [] \<and> hd rest = CHR '','' then Inr (True, f', skip_whitespace (tl rest))
          else if rest \<noteq> [] \<and> hd rest = CHR ''}'' then Inr (False, f', skip_whitespace (tl rest))
          else malformed ''object''))"

function parse_receipt_members ::
  "byte list \<Rightarrow> receipt_fields \<Rightarrow> (receipt_fields \<times> byte list) api_result" where
  "parse_receipt_members bs f =
    (case parse_receipt_member bs f of
       Inl e \<Rightarrow> Inl e
     | Inr (True, f', rest) \<Rightarrow> parse_receipt_members rest f'
     | Inr (False, f', rest) \<Rightarrow> Inr (f', rest))"
  by pat_completeness auto

definition require_field :: "'a option \<Rightarrow> 'a api_result" where
  "require_field x = (case x of None \<Rightarrow> malformed ''missing_field'' | Some v \<Rightarrow> Inr v)"

definition receipt_of_fields :: "receipt_fields \<Rightarrow> sanitization_receipt api_result" where
  "receipt_of_fields f =
    res_bind (require_field (f_receipt_id f)) (\<lambda>rid.
    res_bind (require_field (f_sanitizer_revision f)) (\<lambda>rev.
    res_bind (require_field (f_source_payload_sha256 f)) (\<lambda>src.
    res_bind (require_field (f_sanitized_payload_sha256 f)) (\<lambda>san.
    res_bind (require_field (f_extensions_digest f)) (\<lambda>ext.
    res_bind (require_field (f_disposition f)) (\<lambda>d.
    res_bind (require_field (f_finding_count f)) (\<lambda>n.
    res_bind (require_field (f_findings_digest f)) (\<lambda>fd.
      Inr \<lparr>sanitizer_revision = rev, source_payload_sha256 = src, sanitized_payload_sha256 = san,
        receipt_extensions_digest = ext, disposition = d, finding_count = n, findings_digest = fd,
        hygiene_receipt_id = rid\<rparr>))))))))"

lemma scan_json_string_shorter:
  "scan_json_string acc bs = Inr (v, rest) \<Longrightarrow> length rest < length bs"
  by (induction acc bs rule: scan_json_string.induct) (auto split: if_splits)

lemma parse_json_string_shorter:
  "parse_json_string bs = Inr (v, rest) \<Longrightarrow> length rest < length bs"
  by (cases bs) (auto split: if_splits dest: scan_json_string_shorter)

lemma skip_whitespace_length: "length (skip_whitespace bs) \<le> length bs"
  by (simp add: skip_whitespace_def length_dropWhile_le)

lemma scan_json_u32_length:
  "scan_json_u32 v d bs = Inr (v', d', rest) \<Longrightarrow> length rest \<le> length bs"
  by (induction v d bs rule: scan_json_u32.induct) (auto split: if_splits)

lemma parse_receipt_value_length:
  "parse_receipt_value key bs f = Inr (f', rest) \<Longrightarrow> length rest \<le> length bs"
  by (auto simp: parse_receipt_value_def parse_json_u32_def res_bind_Inr_iff
      dest!: scan_json_u32_length parse_json_string_shorter split: if_splits)

lemma parse_receipt_member_shorter:
  assumes "parse_receipt_member bs f = Inr (again, f', rest)"
  shows "length rest < length bs"
proof -
  obtain key r1 r2 where
    k: "parse_json_string bs = Inr (key, r1)" and ne: "skip_whitespace r1 \<noteq> []"
    and v: "parse_receipt_value key (skip_whitespace (tl (skip_whitespace r1))) f = Inr (f', r2)"
    and r: "rest = skip_whitespace (tl (skip_whitespace r2))"
    using assms
    by (auto simp: parse_receipt_member_def res_bind_Inr_iff Let_def split: if_splits)
  have "length rest \<le> length r2"
    using skip_whitespace_length [of r2] skip_whitespace_length [of "tl (skip_whitespace r2)"]
    by (simp add: r)
  also have "\<dots> \<le> length (skip_whitespace (tl (skip_whitespace r1)))"
    using v by (rule parse_receipt_value_length)
  also have "\<dots> \<le> length r1"
    using skip_whitespace_length [of r1] skip_whitespace_length [of "tl (skip_whitespace r1)"]
    by simp
  also have "\<dots> < length bs" using k by (rule parse_json_string_shorter)
  finally show ?thesis .
qed

termination parse_receipt_members
  by (relation "measure (length \<circ> fst)") (auto dest: parse_receipt_member_shorter)

definition parse_receipt_json :: "string \<Rightarrow> sanitization_receipt api_result" where
  "parse_receipt_json source =
    (let bs = skip_whitespace source in
     if bs = [] \<or> hd bs \<noteq> CHR ''{'' then malformed ''object''
     else let bs = skip_whitespace (tl bs) in
       if bs \<noteq> [] \<and> hd bs = CHR ''}'' then malformed ''missing_field''
       else res_bind (parse_receipt_members bs no_fields) (\<lambda>(f, rest).
         if rest \<noteq> [] then malformed ''trailing_content'' else receipt_of_fields f))"

definition from_json :: "sha \<Rightarrow> string \<Rightarrow> sanitization_receipt api_result" where
  "from_json sha source =
    res_bind (parse_receipt_json source) (\<lambda>r.
      res_bind (sanitization_receipt_validate sha r) (\<lambda>_. Inr r))"

subsection \<open>Reading back what was written\<close>

declare parse_receipt_members.simps [simp del]

definition plain_byte :: "byte \<Rightarrow> bool" where
  "plain_byte b \<longleftrightarrow> in_range 0x20 0x7E b \<and> b \<noteq> dquote \<and> b \<noteq> CHR 0x5C"

lemma plain_in_ascii: "plain_byte b \<Longrightarrow> in_range 0 0x7F b"
  by (simp add: plain_byte_def in_range_def)

lemma plain_utf8: "list_all plain_byte v \<Longrightarrow> utf8_valid v"
  by (rule utf8_valid_ascii) (auto simp: list_all_iff plain_in_ascii)

lemma lower_hex_plain: "is_lower_hex b \<Longrightarrow> plain_byte b"
  by (auto simp: is_lower_hex_def is_ascii_digit_def plain_byte_def in_range_def)

lemma revision_plain: "revision_byte_ok b \<Longrightarrow> plain_byte b"
  by (auto simp: revision_byte_ok_def plain_byte_def in_range_def)

lemma sha256_plain: "is_sha256 v \<Longrightarrow> list_all plain_byte v"
  by (auto simp: is_sha256_def list_all_iff lower_hex_plain)

lemma scan_json_string_plain:
  "list_all plain_byte v \<Longrightarrow> list_all plain_byte acc \<Longrightarrow>
    scan_json_string acc (v @ dquote # rest) = Inr (rev acc @ v, rest)"
proof (induction v arbitrary: acc)
  case Nil
  then show ?case using plain_utf8 [of "rev acc"] by simp
next
  case (Cons b v)
  then show ?case by (simp add: plain_byte_def in_range_def)
qed

lemma parse_json_string_plain:
  "list_all plain_byte v \<Longrightarrow> parse_json_string (dquote # v @ dquote # rest) = Inr (v, rest)"
  by (simp add: scan_json_string_plain)

lemma digit_char:
  assumes "n < 10"
  shows "is_ascii_digit (char_of (48 + n))" "(of_char (char_of (48 + n :: nat) :: char) :: nat) = 48 + n"
  using assms by (simp_all add: is_ascii_digit_def)

lemma scan_digit:
  assumes "is_ascii_digit c" "(of_char c :: nat) = 48 + k" "v \<noteq> 0" "v * 10 + k \<le> u32_max"
  shows "scan_json_u32 v d (c # rest) = scan_json_u32 (v * 10 + k) (d + 1) rest"
  using assms by simp

lemma scan_decimal:
  "n \<le> u32_max \<Longrightarrow>
    scan_json_u32 0 0 (decimal n @ rest) = scan_json_u32 n (length (decimal n)) rest"
proof (induction n arbitrary: rest rule: decimal.induct)
  case (1 n)
  show ?case
  proof (cases "n < 10")
    case True
    then show ?thesis using 1 digit_char [of n] by (simp add: decimal.simps u32_max_def)
  next
    case False
    then have "scan_json_u32 0 0 (decimal n @ rest) =
        scan_json_u32 (n div 10) (length (decimal (n div 10))) (char_of (48 + n mod 10) # rest)"
      using 1 by (simp add: decimal.simps [of n])
    also have "\<dots> = scan_json_u32 (n div 10 * 10 + n mod 10) (length (decimal (n div 10)) + 1) rest"
      using False 1(2) digit_char [of "n mod 10"] by (intro scan_digit) (auto simp: div_mult_mod_eq)
    also have "\<dots> = scan_json_u32 n (length (decimal n)) rest"
      using False by (simp add: decimal.simps [of n] div_mult_mod_eq)
    finally show ?thesis .
  qed
qed

lemma decimal_not_Nil [simp]: "decimal n \<noteq> []"
  by (subst decimal.simps) simp

lemma parse_json_u32_decimal:
  assumes "n \<le> u32_max" "\<not> is_ascii_digit c"
  shows "parse_json_u32 (decimal n @ c # rest) = Inr (n, c # rest)"
  using assms by (simp add: parse_json_u32_def scan_decimal)

lemma skip_whitespace_stop [simp]: "\<not> is_json_space c \<Longrightarrow> skip_whitespace (c # cs) = c # cs"
  by (simp add: skip_whitespace_def)

lemma dquote_not_space [simp]: "\<not> is_json_space dquote"
  by (simp add: is_json_space_def)

lemma digit_not_space: "is_ascii_digit c \<Longrightarrow> \<not> is_json_space c"
  by (auto simp: is_json_space_def is_ascii_digit_def)

lemma skip_decimal [simp]: "skip_whitespace (decimal n @ rest) = decimal n @ rest"
proof (induction n arbitrary: rest rule: decimal.induct)
  case (1 n)
  then show ?case
    by (cases "n < 10") (auto simp: decimal.simps [of n] digit_not_space digit_char)
qed

lemma keys_plain: "k \<in> set RECEIPT_JSON_KEYS \<Longrightarrow> list_all plain_byte k"
  by (auto simp: RECEIPT_JSON_KEYS_def plain_byte_def in_range_def)

lemma parse_member_string:
  assumes "k \<in> set RECEIPT_JSON_KEYS" "k \<noteq> ''finding_count''" "list_all plain_byte v"
    "store_string_field k v f = Inr (False, f')" "c = CHR '','' \<or> c = CHR ''}''"
  shows "parse_receipt_member (dquote # k @ dquote # CHR '':'' # dquote # v @ dquote # c # rest) f =
    Inr (c = CHR '','', f', skip_whitespace rest)"
  using assms keys_plain [OF assms(1)]
  by (auto simp: parse_receipt_member_def parse_receipt_value_def parse_json_string_plain
      is_json_space_def simp del: parse_json_string.simps)

lemma parse_member_count:
  assumes "n \<le> u32_max" "f_finding_count f = None"
  shows "parse_receipt_member
      (dquote # ''finding_count'' @ dquote # CHR '':'' # decimal n @ CHR '','' # rest) f =
    Inr (True, f\<lparr>f_finding_count := Some n\<rparr>, skip_whitespace rest)"
proof -
  have key: "''finding_count'' \<in> set RECEIPT_JSON_KEYS" by (simp add: RECEIPT_JSON_KEYS_def)
  have "parse_json_string (dquote # ''finding_count'' @ dquote # CHR '':'' # decimal n @ CHR '','' # rest) =
      Inr (''finding_count'', CHR '':'' # decimal n @ CHR '','' # rest)"
    using keys_plain [OF key] by (rule parse_json_string_plain)
  moreover have "\<not> is_ascii_digit (CHR '','')" by (simp add: is_ascii_digit_def)
  ultimately show ?thesis
    using assms key
    by (simp add: parse_receipt_member_def parse_receipt_value_def parse_json_u32_decimal
        is_json_space_def del: parse_json_string.simps)
qed

lemma parse_members_string:
  assumes "k \<in> set RECEIPT_JSON_KEYS" "k \<noteq> ''finding_count''" "list_all plain_byte v"
    "store_string_field k v f = Inr (False, f')"
  shows "parse_receipt_members
      (dquote # k @ dquote # CHR '':'' # dquote # v @ dquote # CHR '','' # dquote # rest) f =
    parse_receipt_members (dquote # rest) f'"
    "parse_receipt_members (dquote # k @ dquote # CHR '':'' # dquote # v @ dquote # CHR ''}'' # []) f =
    Inr (f', [])"
  using parse_member_string [OF assms, of "CHR '',''" "dquote # rest"]
    parse_member_string [OF assms, of "CHR ''}''" "[]"]
  by (simp_all add: parse_receipt_members.simps [of "dquote # _"] skip_whitespace_def is_json_space_def)

lemma parse_members_count:
  assumes "n \<le> u32_max" "f_finding_count f = None"
  shows "parse_receipt_members
      (dquote # ''finding_count'' @ dquote # CHR '':'' # decimal n @ CHR '','' # dquote # rest) f =
    parse_receipt_members (dquote # rest) (f\<lparr>f_finding_count := Some n\<rparr>)"
  using parse_member_count [OF assms, of "dquote # rest"]
  by (subst parse_receipt_members.simps) (simp only: sum.case prod.case bool.case skip_whitespace_stop [OF dquote_not_space])

text \<open>A run of string members, each followed by a comma and the quote of the next key.\<close>
definition member_text :: "string \<times> string \<Rightarrow> byte list" where
  "member_text kv = fst kv @ [dquote, CHR '':'', dquote] @ snd kv @ [dquote, CHR '','', dquote]"

fun store_all :: "(string \<times> string) list \<Rightarrow> receipt_fields \<Rightarrow> (bool \<times> receipt_fields) api_result" where
  "store_all [] f = Inr (False, f)"
| "store_all (kv # kvs) f = res_bind (store_string_field (fst kv) (snd kv) f) (\<lambda>(dup, f').
    if dup then Inr (True, f') else store_all kvs f')"

lemma parse_members_chain:
  assumes "\<forall>kv\<in>set kvs. fst kv \<in> set RECEIPT_JSON_KEYS \<and> fst kv \<noteq> ''finding_count'' \<and>
      list_all plain_byte (snd kv)"
    and "store_all kvs f = Inr (False, f')"
  shows "parse_receipt_members (dquote # concat (map member_text kvs) @ rest) f =
    parse_receipt_members (dquote # rest) f'"
  using assms
proof (induction kvs arbitrary: f)
  case (Cons kv kvs)
  then obtain f1 where "store_string_field (fst kv) (snd kv) f = Inr (False, f1)"
    "store_all kvs f1 = Inr (False, f')"
    by (auto simp: res_bind_Inr_iff split: if_splits)
  with Cons show ?case
    using parse_members_string(1) [of "fst kv" "snd kv" f f1 "concat (map member_text kvs) @ rest"]
    by (simp add: member_text_def [of kv])
qed simp

lemmas store_field_simps = store_string_field_def RECEIPT_JSON_KEYS_def no_fields_def

lemma receipt_plain:
  assumes "sanitization_receipt_validate sha r = Inr ()"
  shows "list_all plain_byte (sanitizer_revision r)" "list_all plain_byte (source_payload_sha256 r)"
    "list_all plain_byte (sanitized_payload_sha256 r)" "list_all plain_byte (receipt_extensions_digest r)"
    "list_all plain_byte (findings_digest r)" "list_all plain_byte (hygiene_receipt_id r)"
proof -
  have checks: "receipt_parts_check r = Inr ()" and rid: "derive_receipt_id sha r = hygiene_receipt_id r"
    using assms by (auto simp: sanitization_receipt_validate_def res_bind_Inr_iff split: if_splits)
  then show "list_all plain_byte (source_payload_sha256 r)"
    "list_all plain_byte (sanitized_payload_sha256 r)"
    "list_all plain_byte (receipt_extensions_digest r)" "list_all plain_byte (findings_digest r)"
    by (auto simp: receipt_parts_check_def first_error_ok api_require_sha256_def sha256_plain
        split: if_splits)
  show "list_all plain_byte (sanitizer_revision r)"
    using checks
    by (auto simp: receipt_parts_check_def first_error_ok require_sanitizer_revision_def list_all_iff
        revision_plain split: if_splits)
  have "list_all plain_byte (lowercase_hex bs)" for bs
    using lowercase_hex_lower [of bs] by (auto simp: list_all_iff lower_hex_plain)
  then have "list_all plain_byte (derive_receipt_id sha r)"
    by (simp add: derive_receipt_id_def OBSERVATION_HYGIENE_RECEIPT_ID_PREFIX_def plain_byte_def
        in_range_def)
  then show "list_all plain_byte (hygiene_receipt_id r)" by (simp add: rid)
qed

lemma from_json_to_json:
  assumes "sanitization_receipt_validate sha r = Inr ()" "finding_count r \<le> u32_max"
  shows "from_json sha (to_json r) = Inr r"
proof -
  note pl = receipt_plain [OF assms(1)]
  have d: "list_all plain_byte (disposition_as_str (disposition r))"
    "disposition_from_wire (disposition_as_str (disposition r)) = Some (disposition r)"
    by (cases "disposition r"; simp add: plain_byte_def in_range_def disposition_from_wire_def)+
  let ?kvs = "[(''receipt_id'', hygiene_receipt_id r), (''sanitizer_revision'', sanitizer_revision r),
      (''source_payload_sha256'', source_payload_sha256 r),
      (''sanitized_payload_sha256'', sanitized_payload_sha256 r),
      (''extensions_digest'', receipt_extensions_digest r),
      (''disposition'', disposition_as_str (disposition r))]"
  let ?last = "dquote # ''findings_digest'' @ dquote # CHR '':'' # dquote # findings_digest r @ dquote #
      CHR ''}'' # []"
  let ?count = "''finding_count'' @ dquote # CHR '':'' # decimal (finding_count r) @ CHR '','' # ?last"
  let ?f6 = "\<lparr>f_receipt_id = Some (hygiene_receipt_id r),
      f_sanitizer_revision = Some (sanitizer_revision r),
      f_source_payload_sha256 = Some (source_payload_sha256 r),
      f_sanitized_payload_sha256 = Some (sanitized_payload_sha256 r),
      f_extensions_digest = Some (receipt_extensions_digest r),
      f_disposition = Some (disposition r), f_finding_count = None, f_findings_digest = None\<rparr>"
  have body: "to_json r = CHR ''{'' # dquote # concat (map member_text ?kvs) @ ?count"
    by (simp add: to_json_def json_string_field_def member_text_def)
  have "parse_receipt_members (tl (to_json r)) no_fields = parse_receipt_members (dquote # ?count) ?f6"
    unfolding body list.sel
    by (rule parse_members_chain) (auto simp: store_field_simps pl d)
  also have "\<dots> = parse_receipt_members ?last (?f6\<lparr>f_finding_count := Some (finding_count r)\<rparr>)"
    by (rule parse_members_count) (simp_all add: assms(2))
  also have "\<dots> = Inr (?f6\<lparr>f_finding_count := Some (finding_count r),
      f_findings_digest := Some (findings_digest r)\<rparr>, [])"
    by (rule parse_members_string(2)) (simp_all add: store_field_simps pl)
  finally have "parse_receipt_members (tl (to_json r)) no_fields = \<dots>" .
  then have "parse_receipt_json (to_json r) = Inr r"
    by (simp add: parse_receipt_json_def body receipt_of_fields_def require_field_def
        is_json_space_def)
  then show ?thesis using assms(1) by (simp add: from_json_def)
qed

text \<open>C30. Reading a stored hygiene receipt back gives exactly the receipt that was
  minted: the strict parser inverts the encoder on every valid receipt.\<close>
theorem hygiene_receipt_json_roundtrip:
  assumes "sanitization_receipt_validate sha r = Inr ()" "finding_count r \<le> u32_max"
  shows "from_json sha (to_json r) = Inr r"
  using assms by (rule from_json_to_json)

definition sample_receipt :: "nat \<Rightarrow> sanitization_receipt" where
  "sample_receipt n = \<lparr>sanitizer_revision = ''rules.v1'', source_payload_sha256 = sample_digest,
    sanitized_payload_sha256 = sample_digest, receipt_extensions_digest = sample_digest,
    disposition = Accepted, finding_count = n, findings_digest = sample_digest,
    hygiene_receipt_id = OBSERVATION_HYGIENE_RECEIPT_ID_PREFIX @ sample_digest\<rparr>"

lemma sample_receipt_valid: "sanitization_receipt_validate zero_sha (sample_receipt n) = Inr ()"
  by (simp add: sanitization_receipt_validate_def receipt_parts_check_def sample_receipt_def
      require_sanitizer_revision_def SANITIZER_REVISION_MAX_BYTES_def revision_byte_ok_def in_range_def
      api_require_sha256_def require_disposition_matches_digests_def derive_receipt_id_def
      framed_digest_def)

theorem hygiene_receipt_json_roundtrip_witness:
  "from_json zero_sha (to_json (sample_receipt 12)) = Inr (sample_receipt 12)"
  by (rule hygiene_receipt_json_roundtrip [OF sample_receipt_valid])
    (simp add: sample_receipt_def u32_max_def)

lemma validated_receipt_sizes:
  assumes "sanitization_receipt_validate sha r = Inr ()"
  shows "length (sanitizer_revision r) \<le> u64_max \<and> length (source_payload_sha256 r) \<le> u64_max \<and>
    length (sanitized_payload_sha256 r) \<le> u64_max \<and> length (receipt_extensions_digest r) \<le> u64_max \<and>
    length (findings_digest r) \<le> u64_max \<and> hygiene_receipt_id r = derive_receipt_id sha r"
  using assms
  by (auto simp: sanitization_receipt_validate_def receipt_parts_check_def res_bind_Inr_iff
      first_error_ok api_require_sha256_def is_sha256_def require_sanitizer_revision_def
      SANITIZER_REVISION_MAX_BYTES_def u64_max_def split: if_splits)

lemma disposition_as_str_inject: "disposition_as_str d = disposition_as_str e \<longleftrightarrow> d = e"
  by (cases d; cases e) auto

text \<open>A hygiene receipt cannot be re-pointed: two different receipts that both validate
  under the same receipt identity exhibit a SHA-256 collision.\<close>
theorem hygiene_receipt_id_binds:
  assumes "sanitization_receipt_validate sha r = Inr ()" "sanitization_receipt_validate sha r' = Inr ()"
    "finding_count r \<le> u32_max" "finding_count r' \<le> u32_max"
    "hygiene_receipt_id r = hygiene_receipt_id r'" "r \<noteq> r'"
  shows "\<exists>x y. x \<noteq> y \<and> sha x = sha y"
proof -
  let ?fields = "\<lambda>r. [RECEIPT_DIGEST_DOMAIN, sanitizer_revision r, source_payload_sha256 r,
    sanitized_payload_sha256 r, receipt_extensions_digest r, disposition_as_str (disposition r),
    u32_be (finding_count r), findings_digest r]"
  note sizes = validated_receipt_sizes [OF assms(1)] validated_receipt_sizes [OF assms(2)]
  have "length (disposition_as_str d) \<le> u64_max" for d by (cases d) (simp_all add: u64_max_def)
  then have "frames (?fields r) = frames (?fields r') \<longleftrightarrow> ?fields r = ?fields r'"
    using sizes by (intro frames_inject) (auto simp: RECEIPT_DIGEST_DOMAIN_def u64_max_def)
  moreover have "?fields r \<noteq> ?fields r'"
    using assms sizes by (auto simp: disposition_as_str_inject u32_be_inject derive_receipt_id_def)
  moreover have "sha (frames (?fields r)) = sha (frames (?fields r'))"
    using sizes assms(5)
    by (simp add: derive_receipt_id_def framed_digest_def lowercase_hex_inject)
  ultimately show ?thesis by blast
qed

theorem hygiene_receipt_id_binds_witness: "\<exists>x y. x \<noteq> y \<and> zero_sha x = zero_sha y"
  by (rule hygiene_receipt_id_binds [OF sample_receipt_valid [of 1] sample_receipt_valid [of 2]])
    (simp_all add: sample_receipt_def u32_max_def)

end
