(* ===== verification/Envelope.thy ===== *)
theory Envelope
  imports Journal_Identity Hygiene
begin

text \<open>
  The admitted observation envelope (\<^verbatim>\<open>envelope.rs\<close>) and the canonical settlement
  receipt it rests on (\<^verbatim>\<open>settlement.rs\<close>) of
  \<^verbatim>\<open>tracedecay-memory-observation/src\<close>: enumerations with their wire codecs, the
  records, their validation in the order the code checks them, and the derived digests.
\<close>

subsection \<open>Settlement\<close>

record stream_key =
  sk_source_authority :: source_authority
  sk_exact_scope_sha256 :: string
  sk_source_stream :: string

definition stream_key_validate :: "stream_key \<Rightarrow> unit journal_result" where
  "stream_key_validate k = require_sha256 (sk_exact_scope_sha256 k) ''exact_scope_sha256''"

definition source_stream_new :: "string \<Rightarrow> string journal_result" where
  "source_stream_new value =
    res_bind (require_bounded value ''source_stream'' SOURCE_EVENT_ID_MAX_BYTES) (\<lambda>_. Inr value)"

definition forget_source_key_new :: "string \<Rightarrow> string journal_result" where
  "forget_source_key_new value =
    res_bind (require_bounded value ''forget_source_key'' SOURCE_EVENT_ID_MAX_BYTES) (\<lambda>_. Inr value)"

record settlement_receipt =
  sr_source_authority :: source_authority
  sr_commit_point_id :: string
  sr_source_event_id :: string
  sr_source_event_revision :: nat
  sr_source_event_sha256 :: string
  sr_source_stream :: string
  sr_source_sequence :: nat
  sr_settled_at :: micros
  sr_settlement_proof_sha256 :: string

definition settlement_receipt_validate :: "settlement_receipt \<Rightarrow> unit journal_result" where
  "settlement_receipt_validate r = first_error
    [if sr_commit_point_id r = [] then Inl (UnsettledSource ''commit_point_id'') else Inr (),
     if sr_source_event_id r = [] then Inl (UnsettledSource ''source_event_id'') else Inr (),
     require_bounded (sr_source_event_id r) ''source_event_id'' SOURCE_EVENT_ID_MAX_BYTES,
     require_bounded (sr_commit_point_id r) ''commit_point_id'' SOURCE_EVENT_ID_MAX_BYTES,
     if is_sha256 (sr_source_event_sha256 r) then Inr ()
       else Inl (UnsettledSource ''source_event_sha256''),
     if is_sha256 (sr_settlement_proof_sha256 r) then Inr ()
       else Inl (UnsettledSource ''settlement_proof_sha256'')]"

subsection \<open>Targets and privacy\<close>

definition MAX_PAYLOAD_BYTES :: nat where
  "MAX_PAYLOAD_BYTES = 3145728"

definition MAX_SANITIZATION_RECEIPT_JSON_BYTES :: nat where
  "MAX_SANITIZATION_RECEIPT_JSON_BYTES = 4096"

record provider_target =
  pt_provider_id :: string
  pt_provider_instance_id :: string
  pt_registration_revision :: nat
  pt_ready_receipt_digest :: string

definition provider_target_validate :: "provider_target \<Rightarrow> unit journal_result" where
  "provider_target_validate t = first_error
    [require_bounded (pt_provider_instance_id t) ''provider_instance_id'' SOURCE_EVENT_ID_MAX_BYTES,
     if pt_registration_revision t = 0 then Inl (ValueOutOfRange ''registration_revision'') else Inr (),
     require_sha256 (pt_ready_receipt_digest t) ''ready_receipt_digest'']"

datatype privacy_classification = Public | Internal | Sensitive | Restricted

fun classification_as_wire :: "privacy_classification \<Rightarrow> string" where
  "classification_as_wire Public = ''public''"
| "classification_as_wire Internal = ''internal''"
| "classification_as_wire Sensitive = ''sensitive''"
| "classification_as_wire Restricted = ''restricted''"

definition classification_from_wire :: "string \<Rightarrow> privacy_classification journal_result" where
  "classification_from_wire value =
    (if value = ''public'' then Inr Public
     else if value = ''internal'' then Inr Internal
     else if value = ''sensitive'' then Inr Sensitive
     else if value = ''restricted'' then Inr Restricted
     else Inl (UnknownWireValue ''privacy_classification'' value))"

datatype retention_class = Ephemeral | Session | Project | Profile

fun retention_class_as_wire :: "retention_class \<Rightarrow> string" where
  "retention_class_as_wire Ephemeral = ''ephemeral''"
| "retention_class_as_wire Session = ''session''"
| "retention_class_as_wire Project = ''project''"
| "retention_class_as_wire Profile = ''profile''"

definition retention_class_from_wire :: "string \<Rightarrow> retention_class journal_result" where
  "retention_class_from_wire value =
    (if value = ''ephemeral'' then Inr Ephemeral
     else if value = ''session'' then Inr Session
     else if value = ''project'' then Inr Project
     else if value = ''profile'' then Inr Profile
     else Inl (UnknownWireValue ''retention_class'' value))"

datatype provenance_origin = User | Agent | Tool | Repository | TracedecayNative | Automation

fun origin_as_wire :: "provenance_origin \<Rightarrow> string" where
  "origin_as_wire User = ''user''"
| "origin_as_wire Agent = ''agent''"
| "origin_as_wire Tool = ''tool''"
| "origin_as_wire Repository = ''repository''"
| "origin_as_wire TracedecayNative = ''tracedecay_native''"
| "origin_as_wire Automation = ''automation''"

definition origin_from_wire :: "string \<Rightarrow> provenance_origin journal_result" where
  "origin_from_wire value =
    (if value = ''user'' then Inr User
     else if value = ''agent'' then Inr Agent
     else if value = ''tool'' then Inr Tool
     else if value = ''repository'' then Inr Repository
     else if value = ''tracedecay_native'' then Inr TracedecayNative
     else if value = ''automation'' then Inr Automation
     else Inl (UnknownWireValue ''provenance_origin'' value))"

interpretation classification_wire: wire_codec classification_as_wire classification_from_wire
proof unfold_locales
  show "classification_from_wire (classification_as_wire x) = Inr x" for x
    by (cases x) (simp_all add: classification_from_wire_def)
  show "classification_as_wire x = t" if "classification_from_wire t = Inr x" for t x
    using that by (auto simp: classification_from_wire_def split: if_splits)
qed

interpretation retention_class_wire: wire_codec retention_class_as_wire retention_class_from_wire
proof unfold_locales
  show "retention_class_from_wire (retention_class_as_wire x) = Inr x" for x
    by (cases x) (simp_all add: retention_class_from_wire_def)
  show "retention_class_as_wire x = t" if "retention_class_from_wire t = Inr x" for t x
    using that by (auto simp: retention_class_from_wire_def split: if_splits)
qed

interpretation origin_wire: wire_codec origin_as_wire origin_from_wire
proof unfold_locales
  show "origin_from_wire (origin_as_wire x) = Inr x" for x
    by (cases x) (simp_all add: origin_from_wire_def)
  show "origin_as_wire x = t" if "origin_from_wire t = Inr x" for t x
    using that by (auto simp: origin_from_wire_def split: if_splits)
qed

record observation_privacy =
  pv_classification :: privacy_classification
  pv_retention_class :: retention_class
  pv_redaction_revision :: nat
  pv_content_policy_revision :: nat
  pv_forget_source_key :: string
  pv_expires_at :: micros

definition privacy_validate :: "observation_privacy \<Rightarrow> unit journal_result" where
  "privacy_validate p =
    require_bounded (pv_forget_source_key p) ''forget_source_key'' SOURCE_EVENT_ID_MAX_BYTES"

definition privacy_digest :: "sha \<Rightarrow> observation_privacy \<Rightarrow> string" where
  "privacy_digest sha p = lowercase_hex (sha
    ((''tracedecay.memory-provider.observation-privacy.v1'' @ [CHR 0x00]) @ frames
      [classification_as_wire (pv_classification p), retention_class_as_wire (pv_retention_class p),
       u64_be (pv_redaction_revision p), u64_be (pv_content_policy_revision p),
       pv_forget_source_key p, i64_be (pv_expires_at p)]))"

subsection \<open>The hygiene binding\<close>

record sanitization_binding =
  sb_receipt_id :: string
  sb_sanitizer_revision :: string
  sb_source_payload_sha256 :: string
  sb_receipt_json :: string

definition lift_api :: "'a api_result \<Rightarrow> 'a journal_result" where
  "lift_api m = (case m of Inl e \<Rightarrow> Inl (Api e) | Inr x \<Rightarrow> Inr x)"

definition sanitization_binding_validate ::
  "sha \<Rightarrow> sanitization_binding \<Rightarrow> string \<Rightarrow> string \<Rightarrow> unit journal_result" where
  "sanitization_binding_validate sha b payload_sha ext_digest =
    res_bind (first_error
      [require_bounded (sb_receipt_id b) ''sanitization_receipt_id'' SOURCE_EVENT_ID_MAX_BYTES,
       require_bounded (sb_sanitizer_revision b) ''sanitizer_revision'' SOURCE_EVENT_ID_MAX_BYTES,
       require_sha256 (sb_source_payload_sha256 b) ''source_payload_sha256'',
       require_bounded (sb_receipt_json b) ''sanitization_receipt_json''
         MAX_SANITIZATION_RECEIPT_JSON_BYTES]) (\<lambda>_.
    res_bind (lift_api (from_json sha (sb_receipt_json b))) (\<lambda>receipt. first_error
      [if hygiene_receipt_id receipt \<noteq> sb_receipt_id b
         then Inl (ReceiptDigestMismatch ''sanitization_receipt_id'') else Inr (),
       if sanitizer_revision receipt \<noteq> sb_sanitizer_revision b
         then Inl (ReceiptDigestMismatch ''sanitizer_revision'') else Inr (),
       if source_payload_sha256 receipt \<noteq> sb_source_payload_sha256 b
         then Inl (ReceiptDigestMismatch ''sanitization_source_payload_sha256'') else Inr (),
       lift_api (verify_binding sha receipt payload_sha ext_digest)]))"

definition SANITIZATION_BINDING_DOMAIN :: "byte list" where
  "SANITIZATION_BINDING_DOMAIN =
    ''tracedecay.memory-provider.observation-sanitization-binding.v1'' @ [CHR 0x00]"

definition sanitization_binding_digest :: "sha \<Rightarrow> sanitization_binding \<Rightarrow> string" where
  "sanitization_binding_digest sha b = lowercase_hex (sha (SANITIZATION_BINDING_DOMAIN @ frames
    [sb_receipt_id b, sb_sanitizer_revision b, sb_source_payload_sha256 b, sb_receipt_json b]))"

subsection \<open>Admitted observations\<close>

record admitted_observation =
  ao_observation_id :: string
  ao_idempotency_key :: string
  ao_target :: provider_target
  ao_exact_scope :: exact_scope
  ao_source :: settlement_receipt
  ao_observation_kind :: string
  ao_payload :: canonical_payload
  ao_extensions :: "opaque_extension list"
  ao_extensions_digest :: string
  ao_provenance_origin :: provenance_origin
  ao_provenance_sha256 :: string
  ao_privacy :: observation_privacy
  ao_sanitization :: sanitization_binding
  ao_occurred_at :: micros
  ao_admitted_at :: micros
  ao_deadline :: micros
  ao_request_id :: string
  ao_envelope_sha256 :: string

definition ao_idempotency_input :: "sha \<Rightarrow> admitted_observation \<Rightarrow> idempotency_input" where
  "ao_idempotency_input sha a =
    \<lparr>ii_contract_id = OBSERVATION_CONTRACT_ID,
     ii_provider_id = pt_provider_id (ao_target a),
     ii_registration_revision = pt_registration_revision (ao_target a),
     ii_exact_scope_sha256 = exact_scope_sha256 sha (ao_exact_scope a),
     ii_source_authority = sr_source_authority (ao_source a),
     ii_source_event_id = sr_source_event_id (ao_source a),
     ii_source_event_revision = sr_source_event_revision (ao_source a),
     ii_observation_kind = ao_observation_kind a,
     ii_payload_contract = contract_id (ao_payload a),
     ii_payload_sha256 = sha256 (ao_payload a),
     ii_extensions_digest = ao_extensions_digest a\<rparr>"

definition derive_idempotency_key :: "sha \<Rightarrow> admitted_observation \<Rightarrow> string" where
  "derive_idempotency_key sha a = idempotency_key_derive sha (ao_idempotency_input sha a)"

definition ao_stream_key :: "sha \<Rightarrow> admitted_observation \<Rightarrow> stream_key" where
  "ao_stream_key sha a = \<lparr>sk_source_authority = sr_source_authority (ao_source a),
    sk_exact_scope_sha256 = exact_scope_sha256 sha (ao_exact_scope a),
    sk_source_stream = sr_source_stream (ao_source a)\<rparr>"

definition ao_source_sequence :: "admitted_observation \<Rightarrow> nat" where
  "ao_source_sequence a = sr_source_sequence (ao_source a)"

definition ao_queue_bytes :: "admitted_observation \<Rightarrow> nat" where
  "ao_queue_bytes a = sat_add_u64 (length (payload_bytes (ao_payload a)))
    (sum_list (map (\<lambda>x. length (ext_canonical_payload x)) (ao_extensions a)))"

definition ao_envelope_input :: "sha \<Rightarrow> admitted_observation \<Rightarrow> envelope_input" where
  "ao_envelope_input sha a =
    \<lparr>ev_observation_id = ao_observation_id a,
     ev_idempotency_key = ao_idempotency_key a,
     ev_provider_id = pt_provider_id (ao_target a),
     ev_provider_instance_id = pt_provider_instance_id (ao_target a),
     ev_registration_revision = pt_registration_revision (ao_target a),
     ev_ready_receipt_digest = pt_ready_receipt_digest (ao_target a),
     ev_exact_scope_sha256 = exact_scope_sha256 sha (ao_exact_scope a),
     ev_source_event_sha256 = sr_source_event_sha256 (ao_source a),
     ev_source_sequence = sr_source_sequence (ao_source a),
     ev_observation_kind = ao_observation_kind a,
     ev_payload_contract = contract_id (ao_payload a),
     ev_payload_sha256 = sha256 (ao_payload a),
     ev_extensions_digest = ao_extensions_digest a,
     ev_provenance_sha256 = ao_provenance_sha256 a,
     ev_privacy_digest = privacy_digest sha (ao_privacy a),
     ev_sanitization_binding_digest = sanitization_binding_digest sha (ao_sanitization a),
     ev_occurred_at = ao_occurred_at a,
     ev_admitted_at = ao_admitted_at a,
     ev_deadline = ao_deadline a,
     ev_request_id = ao_request_id a\<rparr>"

definition expected_envelope_sha256 :: "sha \<Rightarrow> admitted_observation \<Rightarrow> string" where
  "expected_envelope_sha256 sha a = envelope_digest sha (ao_envelope_input sha a)"

definition admitted_validate :: "sha \<Rightarrow> admitted_observation \<Rightarrow> unit journal_result" where
  "admitted_validate sha a =
    res_bind (first_error
      [provider_target_validate (ao_target a),
       lift_api (exact_scope_validate (ao_exact_scope a)),
       settlement_receipt_validate (ao_source a),
       lift_api (canonical_payload_validate sha (ao_payload a)),
       privacy_validate (ao_privacy a)]) (\<lambda>_.
    res_bind (lift_api (observation_extensions_digest sha (ao_extensions a))) (\<lambda>derived_extensions.
    if derived_extensions \<noteq> ao_extensions_digest a then Inl ExtensionsDigestMismatch
    else first_error
      [sanitization_binding_validate sha (ao_sanitization a) (sha256 (ao_payload a))
         (ao_extensions_digest a),
       if MAX_PAYLOAD_BYTES < length (payload_bytes (ao_payload a))
         then Inl (FieldTooLarge ''canonical_payload'' MAX_PAYLOAD_BYTES) else Inr (),
       require_bounded (ao_request_id a) ''request_id'' SOURCE_EVENT_ID_MAX_BYTES,
       require_sha256 (ao_provenance_sha256 a) ''provenance_sha256'',
       if ao_deadline a \<le> ao_admitted_at a
         then Inl (DeadlineBeforeAdmission (ao_deadline a) (ao_admitted_at a)) else Inr (),
       if derive_idempotency_key sha a \<noteq> ao_idempotency_key a
         then Inl (IdempotencyKeyMismatch (derive_idempotency_key sha a) (ao_idempotency_key a))
         else Inr (),
       if expected_envelope_sha256 sha a \<noteq> ao_envelope_sha256 a then Inl EnvelopeDigestMismatch
         else Inr ()]))"

subsection \<open>Withheld admissions\<close>

record withheld_admission =
  wa_source_authority :: string
  wa_exact_scope_sha256 :: string
  wa_source_stream :: string
  wa_source_sequence :: nat
  wa_source_event_id :: string
  wa_source_event_revision :: string
  wa_receipt_id :: string
  wa_reason :: string
  wa_source_payload_sha256 :: string
  wa_extensions_digest :: string
  wa_sanitizer_revision :: string
  wa_finding_count :: nat
  wa_findings_digest :: string
  wa_forget_source_key :: string

definition withheld_validate :: "sha \<Rightarrow> withheld_admission \<Rightarrow> unit journal_result" where
  "withheld_validate sha w =
    res_bind (authority_from_wire (wa_source_authority w)) (\<lambda>_.
    res_bind (first_error
      [require_sha256 (wa_exact_scope_sha256 w) ''exact_scope_sha256'',
       require_bounded (wa_source_stream w) ''source_stream'' SOURCE_EVENT_ID_MAX_BYTES,
       require_bounded (wa_source_event_id w) ''source_event_id'' SOURCE_EVENT_ID_MAX_BYTES,
       require_bounded (wa_source_event_revision w) ''source_event_revision'' SOURCE_EVENT_ID_MAX_BYTES,
       require_bounded (wa_receipt_id w) ''receipt_id'' SOURCE_EVENT_ID_MAX_BYTES,
       require_bounded (wa_reason w) ''reason'' SOURCE_EVENT_ID_MAX_BYTES,
       require_sha256 (wa_source_payload_sha256 w) ''source_payload_sha256'',
       require_sha256 (wa_extensions_digest w) ''extensions_digest'',
       require_bounded (wa_sanitizer_revision w) ''sanitizer_revision'' SOURCE_EVENT_ID_MAX_BYTES,
       require_sha256 (wa_findings_digest w) ''sanitization_findings_digest'']) (\<lambda>_.
    case withheld_reason_from_wire (wa_reason w) of
      None \<Rightarrow> Inl (UnknownWireValue ''withheld_reason'' (wa_reason w))
    | Some reason \<Rightarrow>
        if derive_withheld_receipt_id sha (wa_sanitizer_revision w) (wa_source_payload_sha256 w)
          (wa_extensions_digest w) reason (wa_finding_count w) (wa_findings_digest w)
          \<noteq> wa_receipt_id w
        then Inl (ReceiptDigestMismatch ''withheld_receipt_id'')
        else require_bounded (wa_forget_source_key w) ''forget_source_key''
          SOURCE_EVENT_ID_MAX_BYTES))"

definition withheld_stream_key :: "withheld_admission \<Rightarrow> stream_key journal_result" where
  "withheld_stream_key w =
    res_bind (authority_from_wire (wa_source_authority w)) (\<lambda>auth.
    res_bind (source_stream_new (wa_source_stream w)) (\<lambda>stream.
      Inr \<lparr>sk_source_authority = auth, sk_exact_scope_sha256 = wa_exact_scope_sha256 w,
        sk_source_stream = stream\<rparr>))"

subsection \<open>What an admitted envelope guarantees\<close>

lemma lift_api_ok [simp]: "lift_api m = Inr x \<longleftrightarrow> m = Inr x" "is_ok (lift_api m) \<longleftrightarrow> is_ok m"
  by (cases m; simp add: lift_api_def)+

lemma is_ok_unit: "is_ok (m :: 'e + unit) \<longleftrightarrow> m = Inr ()"
  by (cases m) auto

lemma canonical_payload_validate_digest:
  "canonical_payload_validate sha p = Inr () \<Longrightarrow> sha256 p = lowercase_hex (sha (payload_bytes p))"
  by (auto simp: canonical_payload_validate_def first_error_ok split: if_splits)

lemma sanitization_binding_receipt:
  assumes "sanitization_binding_validate sha b payload_sha ext_digest = Inr ()"
  obtains r where "from_json sha (sb_receipt_json b) = Inr r" "hygiene_receipt_id r = sb_receipt_id b"
    "sanitized_payload_sha256 r = payload_sha" "receipt_extensions_digest r = ext_digest"
  using assms
  by (auto simp: sanitization_binding_validate_def res_bind_Inr_iff first_error_ok verify_binding_def
      is_ok_unit split: if_splits)

lemma admitted_validateD:
  assumes "admitted_validate sha a = Inr ()"
  shows "canonical_payload_validate sha (ao_payload a) = Inr ()"
    "settlement_receipt_validate (ao_source a) = Inr ()"
    "observation_extensions_digest sha (ao_extensions a) = Inr (ao_extensions_digest a)"
    "sanitization_binding_validate sha (ao_sanitization a) (sha256 (ao_payload a))
      (ao_extensions_digest a) = Inr ()"
    "ao_idempotency_key a = derive_idempotency_key sha a" "ao_admitted_at a < ao_deadline a"
    "length (payload_bytes (ao_payload a)) \<le> MAX_PAYLOAD_BYTES"
    "pt_registration_revision (ao_target a) \<noteq> 0"
  using assms
  by (auto simp: admitted_validate_def res_bind_Inr_iff first_error_ok is_ok_unit
      provider_target_validate_def split: if_splits)


text \<open>A concrete admitted observation, parameterised by what the examples vary.\<close>

definition sample_scope :: exact_scope where
  "sample_scope = \<lparr>profile_id = ''p'', project_id = ''q'', repository_identity = ''r'',
    worktree_identity = ''w'', branch_identity = ''b'', agent_session_id = ''s'',
    resolved_scope_digest = ''sha256:'' @ sample_digest\<rparr>"

definition sample_binding :: sanitization_binding where
  "sample_binding = \<lparr>sb_receipt_id = hygiene_receipt_id (sample_receipt 0),
    sb_sanitizer_revision = ''rules.v1'', sb_source_payload_sha256 = sample_digest,
    sb_receipt_json = to_json (sample_receipt 0)\<rparr>"

definition sample_source :: "nat \<Rightarrow> settlement_receipt" where
  "sample_source n = \<lparr>sr_source_authority = HostSession, sr_commit_point_id = ''commit'',
    sr_source_event_id = ''event'' @ decimal n, sr_source_event_revision = 1,
    sr_source_event_sha256 = sample_digest, sr_source_stream = ''stream'', sr_source_sequence = n,
    sr_settled_at = 0, sr_settlement_proof_sha256 = sample_digest\<rparr>"

definition sample_admitted :: "nat \<Rightarrow> byte list \<Rightarrow> admitted_observation" where
  "sample_admitted n bytes =
    \<lparr>ao_observation_id = ''00000000-0000-7000-8000-0000000000'' @ decimal (10 + n), ao_idempotency_key = sample_digest,
     ao_target = \<lparr>pt_provider_id = ''provider'', pt_provider_instance_id = ''instance'',
       pt_registration_revision = 1, pt_ready_receipt_digest = sample_digest\<rparr>,
     ao_exact_scope = sample_scope, ao_source = sample_source n, ao_observation_kind = ''kind.v1'',
     ao_payload = \<lparr>contract_id = ''payload.v1'', payload_bytes = bytes, sha256 = sample_digest\<rparr>,
     ao_extensions = [], ao_extensions_digest = sample_digest, ao_provenance_origin = User,
     ao_provenance_sha256 = sample_digest,
     ao_privacy = \<lparr>pv_classification = Internal, pv_retention_class = Session,
       pv_redaction_revision = 1, pv_content_policy_revision = 1, pv_forget_source_key = ''forget'',
       pv_expires_at = 1000000\<rparr>,
     ao_sanitization = sample_binding, ao_occurred_at = 0, ao_admitted_at = 1, ao_deadline = 1000,
     ao_request_id = ''request'', ao_envelope_sha256 = sample_digest\<rparr>"

lemma sample_binding_valid:
  "sanitization_binding_validate zero_sha sample_binding sample_digest sample_digest = Inr ()"
proof -
  have "from_json zero_sha (to_json (sample_receipt 0)) = Inr (sample_receipt 0)"
    by (rule from_json_to_json [OF sample_receipt_valid]) (simp add: sample_receipt_def)
  moreover have "to_json (sample_receipt 0) \<noteq> []" "length (to_json (sample_receipt 0)) \<le> 4096"
    by (simp_all add: to_json_def json_string_field_def sample_receipt_def decimal.simps
        OBSERVATION_HYGIENE_RECEIPT_ID_PREFIX_def)
  ultimately show ?thesis
    using sample_receipt_valid [of 0]
    by (simp add: sanitization_binding_validate_def sample_binding_def sample_receipt_def
        verify_binding_def lift_api_def OBSERVATION_HYGIENE_RECEIPT_ID_PREFIX_def
        SOURCE_EVENT_ID_MAX_BYTES_def MAX_SANITIZATION_RECEIPT_JSON_BYTES_def require_bounded_def
        require_non_empty_def require_sha256_def)
qed

lemma sample_scope_valid: "exact_scope_validate sample_scope = Inr ()"
  by (simp add: exact_scope_validate_def sample_scope_def api_require_non_empty_def
      require_tagged_sha256_def strip_prefix_def api_require_sha256_def)

lemma sample_admitted_valid:
  assumes "bytes \<noteq> []" "length bytes \<le> MAX_PAYLOAD_BYTES" "length (decimal n) \<le> 100"
  shows "admitted_validate zero_sha (sample_admitted n bytes) = Inr ()"
  using assms sample_binding_valid sample_scope_valid
  by (simp add: admitted_validate_def sample_admitted_def sample_source_def
      provider_target_validate_def settlement_receipt_validate_def canonical_payload_validate_def
      privacy_validate_def require_bounded_def require_non_empty_def require_sha256_def
      api_require_sha256_def SOURCE_EVENT_ID_MAX_BYTES_def require_versioned_id_def
      capability_id_new_def valid_segmented_ascii_def is_ascii_lowercase_def is_ascii_digit_def
      observation_extensions_digest_def validate_extension_boundary_def opaque_extensions_digest_def
      derive_idempotency_key_def idempotency_key_derive_def expected_envelope_sha256_def
      envelope_digest_def lift_api_def)


end
