(* ===== verification/Receipts.thy ===== *)
theory Receipts
  imports Envelope
begin

text \<open>
  Per-attempt evidence of the observation journal: delivery outcomes and receipts
  (\<^verbatim>\<open>receipt.rs\<close>), leases (\<^verbatim>\<open>lease.rs\<close>), refused terminals (\<^verbatim>\<open>refusal.rs\<close>) and
  orphaned attempts (\<^verbatim>\<open>orphan.rs\<close>), with their validators and the constructors that turn
  a provider terminal into a receipt.
\<close>

subsection \<open>Outcomes\<close>

datatype observation_outcome =
    Applied
  | DuplicateAcknowledged
  | RejectedContractViolation
  | RejectedScopeMismatch
  | RejectedProvenanceUnavailable
  | RejectedPrivacyPolicy
  | RejectedPayloadTooLarge
  | RejectedExtensionUnsupported
  | IdempotencyConflict
  | ProviderUnavailable
  | DeadlineExceeded
  | Cancelled
  | PartialEffect
  | EffectUnknown

fun outcome_as_wire :: "observation_outcome \<Rightarrow> string" where
  "outcome_as_wire Applied = ''applied''"
| "outcome_as_wire DuplicateAcknowledged = ''duplicate_acknowledged''"
| "outcome_as_wire RejectedContractViolation = ''rejected_contract_violation''"
| "outcome_as_wire RejectedScopeMismatch = ''rejected_scope_mismatch''"
| "outcome_as_wire RejectedProvenanceUnavailable = ''rejected_provenance_unavailable''"
| "outcome_as_wire RejectedPrivacyPolicy = ''rejected_privacy_policy''"
| "outcome_as_wire RejectedPayloadTooLarge = ''rejected_payload_too_large''"
| "outcome_as_wire RejectedExtensionUnsupported = ''rejected_extension_unsupported''"
| "outcome_as_wire IdempotencyConflict = ''idempotency_conflict''"
| "outcome_as_wire ProviderUnavailable = ''provider_unavailable''"
| "outcome_as_wire DeadlineExceeded = ''deadline_exceeded''"
| "outcome_as_wire Cancelled = ''cancelled''"
| "outcome_as_wire PartialEffect = ''partial_effect''"
| "outcome_as_wire EffectUnknown = ''effect_unknown''"

definition outcome_from_wire :: "string \<Rightarrow> observation_outcome journal_result" where
  "outcome_from_wire value =
    (if value = ''applied'' then Inr Applied
     else if value = ''duplicate_acknowledged'' then Inr DuplicateAcknowledged
     else if value = ''rejected_contract_violation'' then Inr RejectedContractViolation
     else if value = ''rejected_scope_mismatch'' then Inr RejectedScopeMismatch
     else if value = ''rejected_provenance_unavailable'' then Inr RejectedProvenanceUnavailable
     else if value = ''rejected_privacy_policy'' then Inr RejectedPrivacyPolicy
     else if value = ''rejected_payload_too_large'' then Inr RejectedPayloadTooLarge
     else if value = ''rejected_extension_unsupported'' then Inr RejectedExtensionUnsupported
     else if value = ''idempotency_conflict'' then Inr IdempotencyConflict
     else if value = ''provider_unavailable'' then Inr ProviderUnavailable
     else if value = ''deadline_exceeded'' then Inr DeadlineExceeded
     else if value = ''cancelled'' then Inr Cancelled
     else if value = ''partial_effect'' then Inr PartialEffect
     else if value = ''effect_unknown'' then Inr EffectUnknown
     else Inl (UnknownWireValue ''outcome'' value))"

interpretation outcome_wire: wire_codec outcome_as_wire outcome_from_wire
proof unfold_locales
  show "outcome_from_wire (outcome_as_wire x) = Inr x" for x
    by (cases x) (simp_all add: outcome_from_wire_def)
  show "outcome_as_wire x = t" if "outcome_from_wire t = Inr x" for t x
    using that by (auto simp: outcome_from_wire_def split: if_splits)
qed

definition requires_provider_receipt :: "observation_outcome \<Rightarrow> bool" where
  "requires_provider_receipt o1 \<longleftrightarrow> o1 \<in> {Applied, DuplicateAcknowledged, PartialEffect}"

definition is_retryable :: "observation_outcome \<Rightarrow> bool" where
  "is_retryable o1 \<longleftrightarrow> o1 \<in> {ProviderUnavailable, DeadlineExceeded, EffectUnknown}"

fun implied_state :: "observation_outcome \<Rightarrow> delivery_state" where
  "implied_state Applied = Acknowledged"
| "implied_state PartialEffect = Acknowledged"
| "implied_state DuplicateAcknowledged = delivery_state.DuplicateAcknowledged"
| "implied_state ProviderUnavailable = Pending"
| "implied_state DeadlineExceeded = Pending"
| "implied_state Cancelled = delivery_state.Cancelled"
| "implied_state EffectUnknown = delivery_state.EffectUnknown"
| "implied_state _ = Rejected"

fun from_terminal_semantics ::
  "terminal_code \<Rightarrow> committed_effect_state \<Rightarrow> observation_outcome journal_result" where
  "from_terminal_semantics Success effect =
    (if effect = EffectDuplicate then Inr DuplicateAcknowledged else Inr Applied)"
| "from_terminal_semantics Partial _ = Inr PartialEffect"
| "from_terminal_semantics terminal_code.PartialEffect _ = Inr PartialEffect"
| "from_terminal_semantics terminal_code.EffectUnknown _ = Inr EffectUnknown"
| "from_terminal_semantics Conflict _ = Inr IdempotencyConflict"
| "from_terminal_semantics ScopeMismatch _ = Inr RejectedScopeMismatch"
| "from_terminal_semantics ContractViolation _ = Inr RejectedContractViolation"
| "from_terminal_semantics InvalidRequest _ = Inr RejectedContractViolation"
| "from_terminal_semantics Unauthorized _ = Inr RejectedContractViolation"
| "from_terminal_semantics StaleIdentity _ = Inr RejectedContractViolation"
| "from_terminal_semantics CapabilityUnsupported _ = Inr RejectedExtensionUnsupported"
| "from_terminal_semantics CapacityExceeded _ = Inr ProviderUnavailable"
| "from_terminal_semantics terminal_code.ProviderUnavailable _ = Inr ProviderUnavailable"
| "from_terminal_semantics ScopeUnavailable _ = Inr ProviderUnavailable"
| "from_terminal_semantics ResetRequired _ = Inr ProviderUnavailable"
| "from_terminal_semantics StateIncompatible _ = Inr ProviderUnavailable"
| "from_terminal_semantics InternalFailure _ = Inr ProviderUnavailable"
| "from_terminal_semantics terminal_code.DeadlineExceeded _ = Inr DeadlineExceeded"
| "from_terminal_semantics terminal_code.Cancelled _ = Inr Cancelled"
| "from_terminal_semantics SuccessZeroResults _ =
    Inl (TerminalNotAdmissible (terminal_code_as_wire SuccessZeroResults))"

datatype observation_committed_effect =
  NoEffect | EffectApplied | DuplicateEffect | PartlyApplied | UnknownEffect

fun committed_effect_as_wire :: "observation_committed_effect \<Rightarrow> string" where
  "committed_effect_as_wire NoEffect = ''none''"
| "committed_effect_as_wire EffectApplied = ''applied''"
| "committed_effect_as_wire DuplicateEffect = ''duplicate''"
| "committed_effect_as_wire PartlyApplied = ''partial''"
| "committed_effect_as_wire UnknownEffect = ''unknown''"

definition committed_effect_from_wire :: "string \<Rightarrow> observation_committed_effect journal_result" where
  "committed_effect_from_wire value =
    (if value = ''none'' then Inr NoEffect
     else if value = ''applied'' then Inr EffectApplied
     else if value = ''duplicate'' then Inr DuplicateEffect
     else if value = ''partial'' then Inr PartlyApplied
     else if value = ''unknown'' then Inr UnknownEffect
     else Inl (UnknownWireValue ''committed_effect'' value))"

interpretation committed_effect_wire: wire_codec committed_effect_as_wire committed_effect_from_wire
proof unfold_locales
  show "committed_effect_from_wire (committed_effect_as_wire x) = Inr x" for x
    by (cases x) (simp_all add: committed_effect_from_wire_def)
  show "committed_effect_as_wire x = t" if "committed_effect_from_wire t = Inr x" for t x
    using that by (auto simp: committed_effect_from_wire_def split: if_splits)
qed

fun from_generated :: "committed_effect_state \<Rightarrow> observation_committed_effect" where
  "from_generated EffectNone = NoEffect"
| "from_generated EffectCommitted = EffectApplied"
| "from_generated EffectDuplicate = DuplicateEffect"
| "from_generated EffectPartial = PartlyApplied"
| "from_generated EffectUnknownState = UnknownEffect"

subsection \<open>Leases\<close>

record lease_request =
  lr_provider_id :: string
  lr_registration_revision :: nat
  lr_provider_instance_id :: string
  lr_exact_scope_sha256 :: "string option"
  lr_lease_owner :: string
  lr_now :: micros
  lr_lease_duration :: micros
  lr_max_items :: nat
  lr_max_bytes :: nat

definition lease_request_validate :: "lease_request \<Rightarrow> unit journal_result" where
  "lease_request_validate q = first_error
    [require_bounded (lr_provider_id q) ''provider_id'' SOURCE_EVENT_ID_MAX_BYTES,
     require_bounded (lr_provider_instance_id q) ''provider_instance_id'' SOURCE_EVENT_ID_MAX_BYTES,
     require_bounded (lr_lease_owner q) ''lease_owner'' SOURCE_EVENT_ID_MAX_BYTES,
     if lr_registration_revision q = 0 then Inl (ValueOutOfRange ''registration_revision'') else Inr (),
     (case lr_exact_scope_sha256 q of None \<Rightarrow> Inr ()
      | Some scope \<Rightarrow> require_sha256 scope ''exact_scope_sha256''),
     if lr_lease_duration q \<le> 0 then Inl (ValueOutOfRange ''lease_duration_micros'') else Inr (),
     if lr_max_items q = 0 then Inl (ValueOutOfRange ''max_items'') else Inr (),
     if lr_max_bytes q = 0 then Inl (ValueOutOfRange ''max_bytes'') else Inr ()]"

record leased_observation =
  lo_lease_id :: string
  lo_lease_expires_at :: micros
  lo_observation_id :: string
  lo_idempotency_key :: string
  lo_target :: provider_target
  lo_exact_scope :: exact_scope
  lo_exact_scope_sha256 :: string
  lo_observation_kind :: string
  lo_payload :: canonical_payload
  lo_extensions :: "opaque_extension list"
  lo_extensions_digest :: string
  lo_privacy :: observation_privacy
  lo_provenance_origin :: provenance_origin
  lo_sanitization :: sanitization_binding
  lo_attempt_number :: nat
  lo_deadline :: micros
  lo_source_sequence :: nat

datatype attempt_outcome =
    Recorded delivery_state "micros option"
  | DuplicateReceipt delivery_state
  | LeaseLost string

subsection \<open>Delivery receipts\<close>

record provider_effect_summary =
  es_effect_count :: nat
  es_stable_memory_refs :: "string list"
  es_provider_trace_refs :: "string list"
  es_no_effect_reason :: "string option"

definition default_effect_summary :: provider_effect_summary where
  "default_effect_summary = \<lparr>es_effect_count = 0, es_stable_memory_refs = [],
    es_provider_trace_refs = [], es_no_effect_reason = None\<rparr>"

record delivery_receipt =
  dr_receipt_id :: string
  dr_observation_id :: string
  dr_idempotency_key :: string
  dr_payload_sha256 :: string
  dr_extensions_digest :: string
  dr_provider_id :: string
  dr_provider_instance_id :: "string option"
  dr_registration_revision :: nat
  dr_state_generation_before :: "nat option"
  dr_state_generation_after :: "nat option"
  dr_attempt_number :: nat
  dr_outcome :: observation_outcome
  dr_committed_effect :: observation_committed_effect
  dr_provider_effect_summary :: provider_effect_summary
  dr_provider_receipt_digest :: "string option"
  dr_started_at :: micros
  dr_finished_at :: micros
  dr_warnings :: "string list"

definition receipt_validate :: "sha \<Rightarrow> delivery_receipt \<Rightarrow> unit journal_result" where
  "receipt_validate sha r = first_error
    [if dr_attempt_number r = 0 then Inl (ValueOutOfRange ''attempt_number'') else Inr (),
     (case dr_provider_instance_id r of None \<Rightarrow> Inr ()
      | Some inst \<Rightarrow> require_bounded inst ''provider_instance_id'' SOURCE_EVENT_ID_MAX_BYTES),
     require_sha256 (dr_payload_sha256 r) ''payload_sha256'',
     require_sha256 (dr_extensions_digest r) ''extensions_digest'',
     (case dr_provider_receipt_digest r of
        Some digest \<Rightarrow> require_sha256 digest ''provider_receipt_digest''
      | None \<Rightarrow> if requires_provider_receipt (dr_outcome r)
          then Inl (AcknowledgementWithoutProviderReceipt (outcome_as_wire (dr_outcome r)))
          else Inr ()),
     if dr_finished_at r < dr_started_at r then Inl (ValueOutOfRange ''finished_at_unix_micros'')
       else Inr (),
     if receipt_id_derive sha (dr_observation_id r) (dr_attempt_number r) \<noteq> dr_receipt_id r
       then Inl (ReceiptDigestMismatch ''receipt_id'') else Inr (),
     if (dr_outcome r = DuplicateAcknowledged) \<noteq> (dr_committed_effect r = DuplicateEffect)
       then Inl (DuplicateAcknowledgementIncoherent (outcome_as_wire (dr_outcome r))
         (committed_effect_as_wire (dr_committed_effect r)))
       else Inr ()]"

text \<open>Host-owned evidence for an attempt without a trusted terminal.\<close>
definition host_receipt ::
  "sha \<Rightarrow> observation_outcome \<Rightarrow> leased_observation \<Rightarrow> micros \<Rightarrow> micros \<Rightarrow> delivery_receipt" where
  "host_receipt sha outcome l started finished =
    \<lparr>dr_receipt_id = receipt_id_derive sha (lo_observation_id l) (lo_attempt_number l),
     dr_observation_id = lo_observation_id l,
     dr_idempotency_key = lo_idempotency_key l,
     dr_payload_sha256 = sha256 (lo_payload l),
     dr_extensions_digest = lo_extensions_digest l,
     dr_provider_id = pt_provider_id (lo_target l),
     dr_provider_instance_id = Some (pt_provider_instance_id (lo_target l)),
     dr_registration_revision = pt_registration_revision (lo_target l),
     dr_state_generation_before = None, dr_state_generation_after = None,
     dr_attempt_number = lo_attempt_number l, dr_outcome = outcome,
     dr_committed_effect = UnknownEffect, dr_provider_effect_summary = default_effect_summary,
     dr_provider_receipt_digest = None, dr_started_at = started,
     dr_finished_at = max finished started, dr_warnings = []\<rparr>"

definition validated :: "sha \<Rightarrow> delivery_receipt \<Rightarrow> delivery_receipt journal_result" where
  "validated sha r = res_bind (receipt_validate sha r) (\<lambda>_. Inr r)"

definition from_cancelled ::
  "sha \<Rightarrow> leased_observation \<Rightarrow> micros \<Rightarrow> micros \<Rightarrow> delivery_receipt journal_result" where
  "from_cancelled sha l started finished = validated sha (host_receipt sha Cancelled l started finished)"

definition from_refused_terminal ::
  "sha \<Rightarrow> leased_observation \<Rightarrow> micros \<Rightarrow> micros \<Rightarrow> delivery_receipt journal_result" where
  "from_refused_terminal sha l started finished =
    validated sha (host_receipt sha EffectUnknown l started finished)"

text \<open>The parts of a provider terminal that a receipt is built from or checked against.\<close>
record committed_effect_evidence =
  ce_state :: committed_effect_state
  ce_state_generation_before :: "nat option"
  ce_state_generation_after :: "nat option"
  ce_committed_item_refs :: "string list"
  ce_uncommitted_item_refs :: "string list"
  ce_provider_receipt_digest :: "string option"
  ce_duplicate_of_idempotency_key :: "string option"
  ce_duplicate_of_operation_id :: "string option"

record terminal_record =
  tr_operation :: provider_operation
  tr_provider_id :: string
  tr_terminal_code :: terminal_code
  tr_committed_effect :: committed_effect_evidence
  tr_operation_id :: string
  tr_exact_scope_sha256 :: string
  tr_provider_receipt_sha256 :: "string option"
  tr_diagnostic_id :: "string option"

definition check_duplicate_binding ::
  "observation_outcome \<Rightarrow> committed_effect_evidence \<Rightarrow> string \<Rightarrow> unit journal_result" where
  "check_duplicate_binding outcome e key =
    (if outcome \<noteq> DuplicateAcknowledged then Inr ()
     else case ce_duplicate_of_idempotency_key e of
       None \<Rightarrow> Inl (UnboundDuplicateAcknowledgement ''duplicate_of_idempotency_key'')
     | Some claimed \<Rightarrow>
         if claimed \<noteq> key then Inl DuplicateAcknowledgementKeyMismatch
         else case ce_duplicate_of_operation_id e of
           None \<Rightarrow> Inl (UnboundDuplicateAcknowledgement ''duplicate_of_operation_id'')
         | Some operation \<Rightarrow>
             if operation = [] then Inl (UnboundDuplicateAcknowledgement ''duplicate_of_operation_id'')
             else Inr ())"

definition from_terminal ::
  "sha \<Rightarrow> terminal_record \<Rightarrow> leased_observation \<Rightarrow> micros \<Rightarrow> micros \<Rightarrow> delivery_receipt journal_result" where
  "from_terminal sha t l started finished =
    (let e = tr_committed_effect t in
     res_bind (from_terminal_semantics (tr_terminal_code t) (ce_state e)) (\<lambda>outcome.
     res_bind (check_duplicate_binding outcome e (lo_idempotency_key l)) (\<lambda>_.
     validated sha
      \<lparr>dr_receipt_id = receipt_id_derive sha (lo_observation_id l) (lo_attempt_number l),
       dr_observation_id = lo_observation_id l,
       dr_idempotency_key = lo_idempotency_key l,
       dr_payload_sha256 = sha256 (lo_payload l),
       dr_extensions_digest = lo_extensions_digest l,
       dr_provider_id = pt_provider_id (lo_target l),
       dr_provider_instance_id = Some (pt_provider_instance_id (lo_target l)),
       dr_registration_revision = pt_registration_revision (lo_target l),
       dr_state_generation_before = ce_state_generation_before e,
       dr_state_generation_after = ce_state_generation_after e,
       dr_attempt_number = lo_attempt_number l,
       dr_outcome = outcome,
       dr_committed_effect = from_generated (ce_state e),
       dr_provider_effect_summary =
         \<lparr>es_effect_count = min u32_max (length (ce_committed_item_refs e)),
          es_stable_memory_refs = ce_committed_item_refs e,
          es_provider_trace_refs = ce_uncommitted_item_refs e,
          es_no_effect_reason = tr_diagnostic_id t\<rparr>,
       dr_provider_receipt_digest = ce_provider_receipt_digest e,
       dr_started_at = started, dr_finished_at = finished, dr_warnings = []\<rparr>)))"

subsection \<open>Refused terminals\<close>

definition REFUSAL_TEXT_MAX_BYTES :: nat where
  "REFUSAL_TEXT_MAX_BYTES = SOURCE_EVENT_ID_MAX_BYTES"

datatype refusal_category = TerminalIdentityMismatch | ReceiptNotAdmissible

fun refusal_category_as_wire :: "refusal_category \<Rightarrow> string" where
  "refusal_category_as_wire TerminalIdentityMismatch = ''terminal_identity_mismatch''"
| "refusal_category_as_wire ReceiptNotAdmissible = ''receipt_not_admissible''"

definition refusal_category_from_wire :: "string \<Rightarrow> refusal_category journal_result" where
  "refusal_category_from_wire value =
    (if value = ''terminal_identity_mismatch'' then Inr TerminalIdentityMismatch
     else if value = ''receipt_not_admissible'' then Inr ReceiptNotAdmissible
     else Inl (UnknownWireValue ''attempt_refusal_category'' value))"

record attempt_refusal =
  ar_observation_id :: string
  ar_attempt_number :: nat
  ar_idempotency_key :: string
  ar_provider_id :: string
  ar_provider_instance_id :: string
  ar_registration_revision :: nat
  ar_exact_scope_sha256 :: string
  ar_category :: refusal_category
  ar_refused_field :: string
  ar_expected :: "string option"
  ar_provided :: "string option"
  ar_detail :: string
  ar_terminal_operation :: string
  ar_terminal_code :: string
  ar_terminal_operation_id :: string
  ar_provider_receipt_digest :: "string option"
  ar_started_at :: micros
  ar_finished_at :: micros
  ar_recorded_at :: micros

definition is_continuation :: "byte \<Rightarrow> bool" where
  "is_continuation b \<longleftrightarrow> in_range 0x80 0xBF b"

definition is_char_boundary :: "string \<Rightarrow> nat \<Rightarrow> bool" where
  "is_char_boundary value index \<longleftrightarrow>
    index = 0 \<or> index = length value \<or> (index < length value \<and> \<not> is_continuation (value ! index))"

fun boundary_floor :: "string \<Rightarrow> nat \<Rightarrow> nat" where
  "boundary_floor value 0 = 0"
| "boundary_floor value (Suc n) =
    (if is_char_boundary value (Suc n) then Suc n else boundary_floor value n)"

definition bound_text :: "string \<Rightarrow> string" where
  "bound_text value =
    (if length value \<le> REFUSAL_TEXT_MAX_BYTES then value
     else take (boundary_floor value REFUSAL_TEXT_MAX_BYTES) value)"

definition bound_digest :: "string option \<Rightarrow> string option" where
  "bound_digest value = (case value of None \<Rightarrow> None | Some d \<Rightarrow> if is_sha256 d then Some d else None)"

definition optional_bounded :: "string option \<Rightarrow> string \<Rightarrow> unit journal_result" where
  "optional_bounded value field =
    (case value of None \<Rightarrow> Inr () | Some v \<Rightarrow> require_bounded v field REFUSAL_TEXT_MAX_BYTES)"

definition refusal_validate :: "attempt_refusal \<Rightarrow> unit journal_result" where
  "refusal_validate r = first_error
    [if ar_attempt_number r = 0 then Inl (ValueOutOfRange ''attempt_number'') else Inr (),
     if ar_registration_revision r = 0 then Inl (ValueOutOfRange ''registration_revision'') else Inr (),
     require_bounded (ar_provider_id r) ''provider_id'' REFUSAL_TEXT_MAX_BYTES,
     require_bounded (ar_provider_instance_id r) ''provider_instance_id'' REFUSAL_TEXT_MAX_BYTES,
     require_sha256 (ar_exact_scope_sha256 r) ''exact_scope_sha256'',
     require_bounded (ar_refused_field r) ''refused_field'' REFUSAL_TEXT_MAX_BYTES,
     require_bounded (ar_detail r) ''detail'' REFUSAL_TEXT_MAX_BYTES,
     require_bounded (ar_terminal_operation r) ''terminal_operation'' REFUSAL_TEXT_MAX_BYTES,
     require_bounded (ar_terminal_code r) ''terminal_code'' REFUSAL_TEXT_MAX_BYTES,
     require_bounded (ar_terminal_operation_id r) ''terminal_operation_id'' REFUSAL_TEXT_MAX_BYTES,
     optional_bounded (ar_expected r) ''expected'',
     optional_bounded (ar_provided r) ''provided'',
     (case ar_provider_receipt_digest r of None \<Rightarrow> Inr ()
      | Some d \<Rightarrow> require_sha256 d ''provider_receipt_digest''),
     if ar_finished_at r < ar_started_at r then Inl (ValueOutOfRange ''finished_at_unix_micros'')
       else Inr ()]"

datatype attempt_refusal_outcome = RefusalRecorded | RefusalAlreadyRecorded | RefusalLeaseLost

subsection \<open>Orphaned attempts\<close>

datatype orphan_cause = LeaseExpiredWithoutAnswer

fun orphan_cause_as_wire :: "orphan_cause \<Rightarrow> string" where
  "orphan_cause_as_wire LeaseExpiredWithoutAnswer = ''lease_expired_without_answer''"

definition orphan_cause_from_wire :: "string \<Rightarrow> orphan_cause journal_result" where
  "orphan_cause_from_wire value =
    (if value = ''lease_expired_without_answer'' then Inr LeaseExpiredWithoutAnswer
     else Inl (UnknownWireValue ''attempt_orphan_cause'' value))"

datatype orphan_recovery = RedeliveryScheduled | AttemptsExhausted

fun orphan_recovery_as_wire :: "orphan_recovery \<Rightarrow> string" where
  "orphan_recovery_as_wire RedeliveryScheduled = ''redelivery_scheduled''"
| "orphan_recovery_as_wire AttemptsExhausted = ''attempts_exhausted''"

definition orphan_recovery_from_wire :: "string \<Rightarrow> orphan_recovery journal_result" where
  "orphan_recovery_from_wire value =
    (if value = ''redelivery_scheduled'' then Inr RedeliveryScheduled
     else if value = ''attempts_exhausted'' then Inr AttemptsExhausted
     else Inl (UnknownWireValue ''attempt_orphan_recovery'' value))"

record attempt_orphan =
  or_observation_id :: string
  or_attempt_number :: nat
  or_idempotency_key :: string
  or_provider_id :: string
  or_provider_instance_id :: "string option"
  or_registration_revision :: nat
  or_exact_scope_sha256 :: string
  or_lease_id :: string
  or_lease_owner :: string
  or_payload_sha256 :: string
  or_cause :: orphan_cause
  or_recovery :: orphan_recovery
  or_lease_expired_at :: micros
  or_recorded_at :: micros

definition orphan_validate :: "attempt_orphan \<Rightarrow> unit journal_result" where
  "orphan_validate r = first_error
    [if or_attempt_number r = 0 then Inl (ValueOutOfRange ''attempt_orphan_attempt_number'') else Inr (),
     require_bounded (or_provider_id r) ''provider_id'' SOURCE_EVENT_ID_MAX_BYTES,
     (case or_provider_instance_id r of None \<Rightarrow> Inr ()
      | Some inst \<Rightarrow> require_bounded inst ''provider_instance_id'' SOURCE_EVENT_ID_MAX_BYTES),
     if or_registration_revision r = 0 then Inl (ValueOutOfRange ''registration_revision'') else Inr (),
     require_sha256 (or_exact_scope_sha256 r) ''exact_scope_sha256'',
     require_bounded (or_lease_owner r) ''lease_owner'' SOURCE_EVENT_ID_MAX_BYTES,
     require_sha256 (or_payload_sha256 r) ''payload_sha256'']"

subsection \<open>Properties\<close>

lemma implied_state_legal: "can_transition_to Leased (implied_state o1)"
  by (cases o1) auto

lemma retryable_state: "is_retryable o1 \<Longrightarrow> \<not> is_terminal (implied_state o1)"
  by (cases o1) (auto simp: is_retryable_def)

lemma not_retryable_state: "\<not> is_retryable o1 \<Longrightarrow> is_terminal (implied_state o1)"
  by (cases o1) (auto simp: is_retryable_def)

lemma validated_ok: "validated sha r = Inr r' \<longleftrightarrow> r' = r \<and> receipt_validate sha r = Inr ()"
  by (auto simp: validated_def res_bind_Inr_iff)

lemma receipt_validateD:
  assumes "receipt_validate sha r = Inr ()"
  shows "dr_attempt_number r \<noteq> 0"
    "dr_receipt_id r = receipt_id_derive sha (dr_observation_id r) (dr_attempt_number r)"
    "requires_provider_receipt (dr_outcome r) \<Longrightarrow>
      \<exists>d. dr_provider_receipt_digest r = Some d \<and> is_sha256 d"
    "dr_outcome r = DuplicateAcknowledged \<longleftrightarrow> dr_committed_effect r = DuplicateEffect"
    "dr_started_at r \<le> dr_finished_at r"
  using assms
  by (auto simp: receipt_validate_def first_error_ok is_ok_unit split: if_splits option.splits)

lemma terminal_semantics_duplicate:
  "from_terminal_semantics code effect = Inr DuplicateAcknowledged \<longleftrightarrow>
    code = Success \<and> effect = EffectDuplicate"
  by (cases code) auto


definition sample_leased :: "nat \<Rightarrow> leased_observation" where
  "sample_leased attempt = (let a = sample_admitted 1 ''x'' in
    \<lparr>lo_lease_id = sample_digest, lo_lease_expires_at = 100, lo_observation_id = ao_observation_id a,
     lo_idempotency_key = ao_idempotency_key a, lo_target = ao_target a,
     lo_exact_scope = ao_exact_scope a, lo_exact_scope_sha256 = sample_digest,
     lo_observation_kind = ao_observation_kind a, lo_payload = ao_payload a, lo_extensions = [],
     lo_extensions_digest = sample_digest, lo_privacy = ao_privacy a, lo_provenance_origin = User,
     lo_sanitization = ao_sanitization a, lo_attempt_number = attempt, lo_deadline = 1000,
     lo_source_sequence = 1\<rparr>)"

definition sample_terminal :: terminal_record where
  "sample_terminal = \<lparr>tr_operation = Observe, tr_provider_id = ''provider'', tr_terminal_code = Success,
    tr_committed_effect = \<lparr>ce_state = EffectDuplicate, ce_state_generation_before = Some 1,
      ce_state_generation_after = Some 1, ce_committed_item_refs = [], ce_uncommitted_item_refs = [],
      ce_provider_receipt_digest = Some sample_digest,
      ce_duplicate_of_idempotency_key = Some sample_digest,
      ce_duplicate_of_operation_id = Some ''op''\<rparr>,
    tr_operation_id = ''op2'', tr_exact_scope_sha256 = sample_digest,
    tr_provider_receipt_sha256 = Some sample_digest, tr_diagnostic_id = None\<rparr>"

lemma sample_from_terminal:
  "\<exists>r. from_terminal zero_sha sample_terminal (sample_leased 1) 5 7 = Inr r \<and>
    dr_outcome r = DuplicateAcknowledged"
  by (simp add: from_terminal_def sample_terminal_def sample_leased_def Let_def
      check_duplicate_binding_def validated_def receipt_validate_def requires_provider_receipt_def
      receipt_id_derive_def sample_admitted_def require_bounded_def require_non_empty_def
      require_sha256_def SOURCE_EVENT_ID_MAX_BYTES_def)


lemma boundary_floor_boundary:
  "boundary_floor value n \<le> n \<and> is_char_boundary value (boundary_floor value n)"
  by (induction n) (auto simp: is_char_boundary_def)

text \<open>Refusal evidence is stored bounded and still text: truncation keeps at most 256
  bytes, is a prefix of the input, and never cuts a UTF-8 sequence.\<close>
theorem bound_text_valid:
  assumes "utf8_valid value"
  shows "length (bound_text value) \<le> REFUSAL_TEXT_MAX_BYTES \<and>
    utf8_valid (bound_text value) \<and> (\<exists>rest. value = bound_text value @ rest)"
proof (cases "length value \<le> REFUSAL_TEXT_MAX_BYTES")
  case False
  let ?n = "boundary_floor value REFUSAL_TEXT_MAX_BYTES"
  have "?n \<le> REFUSAL_TEXT_MAX_BYTES" "is_char_boundary value ?n" using boundary_floor_boundary by blast+
  moreover from this have "utf8_valid (take ?n value)"
    using assms False utf8_valid_take [of "value" ?n]
    by (cases "?n = 0") (auto simp: is_char_boundary_def is_continuation_def)
  moreover have "value = take ?n value @ drop ?n value" by simp
  ultimately show ?thesis using False by (auto simp: bound_text_def intro: exI [of _ "drop ?n value"])
qed (use assms in \<open>auto simp: bound_text_def\<close>)

theorem bound_text_valid_witness:
  "length (bound_text (replicate 300 (CHR ''a''))) \<le> REFUSAL_TEXT_MAX_BYTES"
proof -
  have "utf8_valid (replicate 300 (CHR ''a''))"
    by (rule utf8_valid_ascii) (simp add: list_all_iff in_range_def)
  then show ?thesis using bound_text_valid by blast
qed

end
