(* ===== verification/Policies.thy ===== *)
theory Policies
  imports Receipts
begin

text \<open>
  Retention and dispatch policies: \<^verbatim>\<open>RetentionPolicyV1\<close> (\<^verbatim>\<open>retention.rs\<close>), \<^verbatim>\<open>RetryBackoffV1\<close> and \<^verbatim>\<open>DispatchPolicyV1\<close>
  (\<^verbatim>\<open>runtime/dispatch_policy.rs\<close>).  The backoff curve is shown equal to the capped
  exponential on unbounded integers, and monotone.
\<close>

record retention_policy =
  rp_ephemeral_max_age :: micros
  rp_session_max_age :: micros
  rp_project_max_age :: micros
  rp_profile_max_age :: micros
  rp_receipt_retention :: micros
  rp_max_queue_items :: nat
  rp_max_queue_bytes :: nat
  rp_max_attempts :: nat
  rp_backoff_base :: micros
  rp_backoff_max :: micros
  rp_sweep_batch_rows :: nat

definition require_positive :: "micros \<Rightarrow> string \<Rightarrow> unit journal_result" where
  "require_positive v field = (if v \<le> 0 then Inl (InvalidRetentionPolicy field) else Inr ())"

definition require_nonzero :: "nat \<Rightarrow> string \<Rightarrow> unit journal_result" where
  "require_nonzero v field = (if v = 0 then Inl (InvalidRetentionPolicy field) else Inr ())"

definition retention_policy_validate :: "retention_policy \<Rightarrow> unit journal_result" where
  "retention_policy_validate p = first_error
    [require_positive (rp_ephemeral_max_age p) ''ephemeral_max_age_micros'',
     require_positive (rp_session_max_age p) ''session_max_age_micros'',
     require_positive (rp_project_max_age p) ''project_max_age_micros'',
     require_positive (rp_profile_max_age p) ''profile_max_age_micros'',
     require_positive (rp_receipt_retention p) ''receipt_retention_micros'',
     require_positive (rp_backoff_base p) ''backoff_base_micros'',
     require_positive (rp_backoff_max p) ''backoff_max_micros'',
     if rp_backoff_max p < rp_backoff_base p then Inl (InvalidRetentionPolicy ''backoff_max_micros'')
       else Inr (),
     require_nonzero (rp_max_queue_items p) ''max_queue_items'',
     require_nonzero (rp_max_queue_bytes p) ''max_queue_bytes'',
     require_nonzero (rp_max_attempts p) ''max_attempts'',
     require_nonzero (rp_sweep_batch_rows p) ''sweep_batch_rows'']"

fun max_age_for :: "retention_policy \<Rightarrow> retention_class \<Rightarrow> micros" where
  "max_age_for p Ephemeral = rp_ephemeral_max_age p"
| "max_age_for p Session = rp_session_max_age p"
| "max_age_for p Project = rp_project_max_age p"
| "max_age_for p Profile = rp_profile_max_age p"

subsection \<open>Backoff\<close>

record retry_backoff =
  base_micros :: micros
  max_micros :: micros

definition backoff_of :: "retention_policy \<Rightarrow> retry_backoff" where
  "backoff_of p = \<lparr>base_micros = rp_backoff_base p, max_micros = rp_backoff_max p\<rparr>"

definition backoff_validate :: "retry_backoff \<Rightarrow> unit journal_result" where
  "backoff_validate b = first_error
    [if base_micros b \<le> 0 then Inl (InvalidDispatchPolicy ''backoff_base_micros'') else Inr (),
     if max_micros b < base_micros b then Inl (InvalidDispatchPolicy ''backoff_max_micros'')
       else Inr ()]"

definition unwrap_or :: "'a \<Rightarrow> 'a option \<Rightarrow> 'a" where
  "unwrap_or d x = (case x of None \<Rightarrow> d | Some v \<Rightarrow> v)"

definition delay_for :: "retry_backoff \<Rightarrow> nat \<Rightarrow> micros" where
  "delay_for b attempt =
    (let shift = min (attempt - 1) 31;
         multiplier = unwrap_or i64_max (checked_shl_one_i64 shift)
     in min (unwrap_or i64_max (checked_mul_i64 (base_micros b) multiplier)) (max_micros b))"

definition next_attempt_at :: "retry_backoff \<Rightarrow> micros \<Rightarrow> nat \<Rightarrow> micros" where
  "next_attempt_at b now attempt = sat_add_i64 now (delay_for b attempt)"

definition next_attempt_delay :: "retention_policy \<Rightarrow> nat \<Rightarrow> micros" where
  "next_attempt_delay p attempt = delay_for (backoff_of p) attempt"

subsection \<open>Dispatch policy\<close>

record dispatch_policy =
  dp_lease_duration :: micros
  dp_batch_max_items :: nat
  dp_batch_max_bytes :: nat
  dp_attempt_budget :: micros
  dp_reap_budget :: nat
  dp_max_rounds_per_drain :: nat
  dp_drain_budget :: micros

definition dispatch_policy_validate_against ::
  "dispatch_policy \<Rightarrow> retention_policy \<Rightarrow> unit journal_result" where
  "dispatch_policy_validate_against d p = first_error
    [if dp_lease_duration d \<le> 0 then Inl (InvalidDispatchPolicy ''lease_duration_micros'') else Inr (),
     if dp_batch_max_items d = 0 \<or> rp_max_queue_items p < dp_batch_max_items d
       then Inl (InvalidDispatchPolicy ''batch_max_items'') else Inr (),
     if dp_batch_max_bytes d = 0 \<or> rp_max_queue_bytes p < dp_batch_max_bytes d
       then Inl (InvalidDispatchPolicy ''batch_max_bytes'') else Inr (),
     if dp_attempt_budget d \<le> 0 \<or> dp_lease_duration d < dp_attempt_budget d
       then Inl (InvalidDispatchPolicy ''attempt_budget_micros'') else Inr (),
     if dp_reap_budget d = 0 then Inl (InvalidDispatchPolicy ''reap_budget'') else Inr (),
     if dp_max_rounds_per_drain d = 0 \<or>
        rp_max_queue_items p < sat_mul_u64 (dp_max_rounds_per_drain d) (dp_batch_max_items d)
       then Inl (InvalidDispatchPolicy ''max_rounds_per_drain'') else Inr (),
     if dp_drain_budget d < dp_attempt_budget d \<or> dp_lease_duration d < dp_drain_budget d
       then Inl (InvalidDispatchPolicy ''drain_budget_micros'') else Inr (),
     backoff_validate (backoff_of p)]"

record drain_bounds =
  db_max_rounds :: nat
  db_deadline :: micros

definition drain_bounds_of ::
  "dispatch_policy \<Rightarrow> retention_policy \<Rightarrow> micros \<Rightarrow> drain_bounds journal_result" where
  "drain_bounds_of d p now =
    res_bind (dispatch_policy_validate_against d p) (\<lambda>_.
      Inr \<lparr>db_max_rounds = dp_max_rounds_per_drain d,
        db_deadline = sat_add_i64 now (dp_drain_budget d)\<rparr>)"

subsection \<open>The backoff curve\<close>

text \<open>The reference: the capped exponential on unbounded integers.\<close>
definition capped_exponential :: "retry_backoff \<Rightarrow> nat \<Rightarrow> int" where
  "capped_exponential b attempt = min (base_micros b * 2 ^ min (attempt - 1) 31) (max_micros b)"

lemma delay_for_capped:
  assumes "0 < base_micros b" "max_micros b \<le> i64_max"
  shows "delay_for b attempt = capped_exponential b attempt"
proof -
  let ?s = "min (attempt - 1) 31"
  have mult: "unwrap_or i64_max (checked_shl_one_i64 ?s) = 2 ^ ?s"
    by (auto simp: checked_shl_one_i64_def unwrap_or_def min_def)
  have pos: "0 < base_micros b * 2 ^ ?s" using assms(1) by simp
  then have "is_i64 (base_micros b * 2 ^ ?s) \<longleftrightarrow> base_micros b * 2 ^ ?s \<le> i64_max"
    by (auto simp: is_i64_def i64_min_def)
  then show ?thesis
    using assms(2) mult
    by (auto simp: delay_for_def capped_exponential_def Let_def checked_mul_i64_def unwrap_or_def)
qed

lemma capped_exponential_mono:
  assumes "0 \<le> base_micros b" "m \<le> n"
  shows "capped_exponential b m \<le> capped_exponential b n"
proof -
  have "(2::int) ^ min (m - 1) 31 \<le> 2 ^ min (n - 1) 31"
    using assms(2) by (intro power_increasing) auto
  then have "base_micros b * 2 ^ min (m - 1) 31 \<le> base_micros b * 2 ^ min (n - 1) 31"
    using assms(1) by (rule mult_left_mono)
  then show ?thesis by (simp add: capped_exponential_def min_le_iff_disj)
qed

lemma capped_exponential_bounds:
  assumes "0 < base_micros b" "base_micros b \<le> max_micros b"
  shows "base_micros b \<le> capped_exponential b n" "capped_exponential b n \<le> max_micros b"
proof -
  have "base_micros b * 1 \<le> base_micros b * 2 ^ min (n - 1) 31"
    using assms(1) by (intro mult_left_mono) auto
  then show "base_micros b \<le> capped_exponential b n" using assms(2) by (simp add: capped_exponential_def)
qed (simp add: capped_exponential_def)

lemma backoff_validateD:
  "backoff_validate b = Inr () \<Longrightarrow> 0 < base_micros b \<and> base_micros b \<le> max_micros b"
  by (auto simp: backoff_validate_def first_error_ok split: if_splits)

text \<open>C33. The retry delay of a validated backoff, computed with checked 64-bit arithmetic,
  is the capped exponential on unbounded integers: overflow never shortens or inverts it.
  It starts at the base, never exceeds the ceiling, and never decreases from one attempt to
  the next.\<close>
theorem backoff_delay_correct:
  assumes "backoff_validate b = Inr ()" "max_micros b \<le> i64_max" "m \<le> n"
  shows "delay_for b n = min (base_micros b * 2 ^ min (n - 1) 31) (max_micros b) \<and>
    delay_for b 1 = base_micros b \<and>
    base_micros b \<le> delay_for b n \<and> delay_for b n \<le> max_micros b \<and> delay_for b m \<le> delay_for b n"
proof -
  have b: "0 < base_micros b" "base_micros b \<le> max_micros b" using backoff_validateD [OF assms(1)] by auto
  have eq: "delay_for b k = capped_exponential b k" for k
    using b(1) assms(2) by (rule delay_for_capped)
  show ?thesis
    using capped_exponential_bounds [OF b] capped_exponential_mono [OF _ assms(3)] b
    unfolding eq by (simp add: capped_exponential_def)
qed

theorem backoff_delay_correct_witness:
  "delay_for \<lparr>base_micros = 4611686018427387904, max_micros = i64_max\<rparr> 3 =
    min (4611686018427387904 * 2 ^ min (3 - 1) 31) i64_max"
  using backoff_delay_correct
    [of "\<lparr>base_micros = 4611686018427387904, max_micros = i64_max\<rparr>" 1 3]
  by (simp add: backoff_validate_def i64_max_def)

text \<open>A drain's bounds come only from a policy the retention policy admits: the rounds
  times the batch size stay within the queue, and the drain's wall budget ends before a lease
  taken in its first round lapses.\<close>
theorem drain_bounds_within_policy:
  assumes "drain_bounds_of d p now = Inr b" "rp_max_queue_items p < u64_max" "is_i64 now"
  shows "db_max_rounds b * dp_batch_max_items d \<le> rp_max_queue_items p \<and> 0 < db_max_rounds b \<and>
    now \<le> db_deadline b \<and> db_deadline b \<le> sat_add_i64 now (dp_lease_duration d)"
proof -
  have v: "dispatch_policy_validate_against d p = Inr ()"
    and b: "db_max_rounds b = dp_max_rounds_per_drain d"
      "db_deadline b = sat_add_i64 now (dp_drain_budget d)"
    using assms(1) by (auto simp: drain_bounds_of_def res_bind_Inr_iff)
  have "0 < dp_max_rounds_per_drain d" "0 < dp_attempt_budget d"
    "dp_attempt_budget d \<le> dp_drain_budget d" "dp_drain_budget d \<le> dp_lease_duration d"
    "sat_mul_u64 (dp_max_rounds_per_drain d) (dp_batch_max_items d) \<le> rp_max_queue_items p"
    using v by (auto simp: dispatch_policy_validate_against_def first_error_ok split: if_splits)
  then show ?thesis
    using assms(2,3) by (auto simp: b sat_mul_u64_def sat_add_i64_ge sat_add_i64_mono)
qed

definition sample_policy :: retention_policy where
  "sample_policy = \<lparr>rp_ephemeral_max_age = 1000, rp_session_max_age = 1000, rp_project_max_age = 1000,
    rp_profile_max_age = 1000, rp_receipt_retention = 1000, rp_max_queue_items = 8,
    rp_max_queue_bytes = 1000, rp_max_attempts = 1, rp_backoff_base = 10, rp_backoff_max = 100,
    rp_sweep_batch_rows = 4\<rparr>"

definition sample_dispatch_policy :: dispatch_policy where
  "sample_dispatch_policy = \<lparr>dp_lease_duration = 50, dp_batch_max_items = 2, dp_batch_max_bytes = 100,
    dp_attempt_budget = 10, dp_reap_budget = 5, dp_max_rounds_per_drain = 3, dp_drain_budget = 40\<rparr>"

theorem drain_bounds_within_policy_witness:
  "(3::nat) * 2 \<le> 8 \<and> (40::int) \<le> sat_add_i64 0 50"
  using drain_bounds_within_policy
    [of sample_dispatch_policy sample_policy 0 "\<lparr>db_max_rounds = 3, db_deadline = 40\<rparr>"]
  by (simp add: drain_bounds_of_def dispatch_policy_validate_against_def sample_policy_def
      sample_dispatch_policy_def sat_mul_u64_def u64_max_def backoff_validate_def backoff_of_def
      is_i64_def sat_add_i64_def i64_min_def i64_max_def)

end
