(* ===== verification/Journal_Store.thy ===== *)
theory Journal_Store
  imports Policies "HOL-Library.List_Lexorder" "HOL-Library.Product_Lexorder"
begin

text \<open>
  The tables of the observation journal (\<^verbatim>\<open>sqlite/schema.rs\<close>), the value codecs of
  \<^verbatim>\<open>sqlite/row.rs\<close> and the transaction discipline of \<^verbatim>\<open>sqlite/mod.rs\<close>.  A table is the
  list of its rows.  A column that holds JSON produced by serde holds the decoded value; the
  extension column keeps the hex-encoded form the source stores.  An operation maps a store to
  an error or to a result with the new store; \<^verbatim>\<open>with_transaction\<close> keeps the old store on an
  error.  The store invariant \<^verbatim>\<open>store_ok\<close> collects the key, index, reference and CHECK
  constraints of the schema that the operations have to keep.
\<close>

subsection \<open>Columns\<close>

definition sql_i64 :: "nat \<Rightarrow> string \<Rightarrow> nat journal_result" where
  "sql_i64 v field = (if int v \<le> i64_max then Inr v else Inl (ValueOutOfRange field))"

definition read_u32 :: "nat \<Rightarrow> string \<Rightarrow> nat journal_result" where
  "read_u32 v field = (if v \<le> u32_max then Inr v else Inl (ValueOutOfRange field))"

fun nibble :: "byte \<Rightarrow> nat option" where
  "nibble c = (if is_ascii_digit c then Some (of_char c - 48)
     else if 97 \<le> (of_char c :: nat) \<and> (of_char c :: nat) \<le> 102 then Some (of_char c - 97 + 10)
     else None)"

fun decode_hex :: "string \<Rightarrow> byte list option" where
  "decode_hex [] = Some []"
| "decode_hex [_] = None"
| "decode_hex (h # l # rest) =
    (case nibble h of None \<Rightarrow> None
     | Some high \<Rightarrow> (case nibble l of None \<Rightarrow> None
       | Some low \<Rightarrow> (case decode_hex rest of None \<Rightarrow> None
         | Some bs \<Rightarrow> Some (char_of (high * 16 + low) # bs))))"

record stored_extension =
  se_extension_id :: string
  se_extension_version :: nat
  se_required :: bool
  se_payload_sha256 :: string
  se_canonical_payload_hex :: string

definition from_extension :: "opaque_extension \<Rightarrow> stored_extension" where
  "from_extension e = \<lparr>se_extension_id = extension_id e, se_extension_version = extension_version e,
    se_required = required e, se_payload_sha256 = ext_payload_sha256 e,
    se_canonical_payload_hex = lowercase_hex (ext_canonical_payload e)\<rparr>"

definition JOURNAL :: string where "JOURNAL = ''tdmem_observation_journal_v1''"
definition DELIVERY :: string where "DELIVERY = ''tdmem_observation_delivery_v1''"
definition RECEIPT :: string where "RECEIPT = ''tdmem_observation_receipt_v1''"
definition REPLAY_CURSOR :: string where "REPLAY_CURSOR = ''tdmem_observation_replay_cursor_v1''"
definition RECOVERY :: string where "RECOVERY = ''tdmem_observation_recovery_v1''"
definition WITHHELD :: string where "WITHHELD = ''tdmem_observation_withheld_v2''"

definition into_extension :: "sha \<Rightarrow> stored_extension \<Rightarrow> opaque_extension journal_result" where
  "into_extension sha x = (case decode_hex (se_canonical_payload_hex x) of
      None \<Rightarrow> Inl (Corrupt JOURNAL ''extensions_json'')
    | Some bytes \<Rightarrow>
        (let e = \<lparr>extension_id = se_extension_id x, extension_version = se_extension_version x,
           required = se_required x, ext_payload_sha256 = se_payload_sha256 x,
           ext_canonical_payload = bytes\<rparr>
         in res_bind (lift_api (opaque_extension_validate sha e)) (\<lambda>_. Inr e)))"

fun into_extensions :: "sha \<Rightarrow> stored_extension list \<Rightarrow> opaque_extension list journal_result" where
  "into_extensions sha [] = Inr []"
| "into_extensions sha (x # xs) =
    res_bind (into_extension sha x) (\<lambda>e. res_bind (into_extensions sha xs) (\<lambda>es. Inr (e # es)))"

definition encode_extensions :: "opaque_extension list \<Rightarrow> stored_extension list option" where
  "encode_extensions es = (if es = [] then None else Some (map from_extension es))"

definition decode_extensions ::
  "sha \<Rightarrow> stored_extension list option \<Rightarrow> opaque_extension list journal_result" where
  "decode_extensions sha value = (case value of None \<Rightarrow> Inr [] | Some xs \<Rightarrow> into_extensions sha xs)"

subsection \<open>Rows\<close>

type_synonym lane = "string \<times> nat"
type_synonym stream_columns = "string \<times> string \<times> string"

record journal_row =
  j_idempotency_key :: string
  j_observation_id :: string
  j_exact_scope_sha256 :: string
  j_target :: provider_target
  j_source :: settlement_receipt
  j_exact_scope :: exact_scope
  j_observation_kind :: string
  j_payload_contract :: string
  j_payload_sha256 :: string
  j_payload_bytes :: "byte list option"
  j_payload_byte_len :: nat
  j_extensions_digest :: string
  j_extensions :: "stored_extension list option"
  j_provenance_origin :: provenance_origin
  j_provenance_sha256 :: string
  j_privacy :: observation_privacy
  j_occurred_at :: micros
  j_admitted_at :: micros
  j_deadline :: micros
  j_request_id :: string
  j_envelope_sha256 :: string
  j_sanitization :: "sanitization_binding option"
  j_content_forgotten_at :: "micros option"

record delivery_row =
  d_idempotency_key :: string
  d_observation_id :: string
  d_provider_id :: string
  d_registration_revision :: nat
  d_last_provider_instance_id :: "string option"
  d_state :: delivery_state
  d_attempt_number :: nat
  d_next_attempt_at :: micros
  d_lease_owner :: "string option"
  d_lease_id :: "string option"
  d_lease_expires_at :: "micros option"
  d_last_outcome :: "observation_outcome option"
  d_last_committed_effect :: "observation_committed_effect option"
  d_last_receipt_id :: "string option"
  d_source_sequence :: nat
  d_exact_scope_sha256 :: string
  d_queue_bytes :: nat
  d_updated_at :: micros

record non_message_row =
  nm_stream :: stream_columns
  nm_source_sequence :: nat
  nm_source_event_id :: string
  nm_source_event_revision :: string
  nm_settlement_proof_sha256 :: string

datatype replay_disposition = Admitted | Withheld | NonMessage

fun replay_disposition_as_wire :: "replay_disposition \<Rightarrow> string" where
  "replay_disposition_as_wire Admitted = ''admitted''"
| "replay_disposition_as_wire Withheld = ''withheld''"
| "replay_disposition_as_wire NonMessage = ''non_message''"

definition replay_disposition_from_wire :: "string \<Rightarrow> replay_disposition journal_result" where
  "replay_disposition_from_wire value =
    (if value = ''admitted'' then Inr Admitted
     else if value = ''withheld'' then Inr Withheld
     else if value = ''non_message'' then Inr NonMessage
     else Inl (UnknownWireValue ''last_disposition'' value))"

record cursor_row =
  rc_stream :: stream_columns
  rc_last_admitted_sequence :: nat
  rc_last_source_event_id :: string
  rc_last_source_event_revision :: string
  rc_last_settlement_proof_sha256 :: "string option"
  rc_last_disposition :: replay_disposition
  rc_updated_at :: micros

record target_cursor_row =
  tc_lane :: lane
  tc_stream :: stream_columns
  tc_last_admitted_sequence :: nat
  tc_last_source_event_id :: string
  tc_last_source_event_revision :: nat
  tc_updated_at :: micros

record withheld_row =
  w_admission :: withheld_admission
  w_withheld_at :: micros

record recovery_row =
  rv_lane :: lane
  rv_stream :: stream_columns
  rv_acknowledged_sequence :: "nat option"
  rv_acknowledged_observation_id :: "string option"
  rv_acknowledged_at :: "micros option"
  rv_implementation_identity_sha256 :: "string option"
  rv_state_schema_version :: "string option"
  rv_state_generation :: "nat option"
  rv_replay_position_retained :: "bool option"
  rv_automatic_repair_attempts :: nat
  rv_last_defect :: "string option"
  rv_last_assessment_id :: "string option"
  rv_updated_at :: micros

record journal_store =
  st_journal :: "journal_row list"
  st_delivery :: "delivery_row list"
  st_receipts :: "delivery_receipt list"
  st_refusals :: "attempt_refusal list"
  st_orphans :: "attempt_orphan list"
  st_non_message :: "non_message_row list"
  st_cursors :: "cursor_row list"
  st_target_cursors :: "target_cursor_row list"
  st_withheld :: "withheld_row list"
  st_recovery :: "recovery_row list"

definition empty_store :: journal_store where
  "empty_store = \<lparr>st_journal = [], st_delivery = [], st_receipts = [], st_refusals = [],
    st_orphans = [], st_non_message = [], st_cursors = [], st_target_cursors = [],
    st_withheld = [], st_recovery = []\<rparr>"

subsection \<open>Keys and indexes\<close>

definition j_lane :: "journal_row \<Rightarrow> lane" where
  "j_lane j = (pt_provider_id (j_target j), pt_registration_revision (j_target j))"

definition j_stream :: "journal_row \<Rightarrow> stream_columns" where
  "j_stream j = (authority_as_wire (sr_source_authority (j_source j)), j_exact_scope_sha256 j,
    sr_source_stream (j_source j))"

definition j_sequence :: "journal_row \<Rightarrow> nat" where
  "j_sequence j = sr_source_sequence (j_source j)"

definition j_source_index :: "journal_row \<Rightarrow> lane \<times> stream_columns \<times> nat" where
  "j_source_index j = (j_lane j, j_stream j, j_sequence j)"

definition d_lane :: "delivery_row \<Rightarrow> lane" where
  "d_lane d = (d_provider_id d, d_registration_revision d)"

definition w_stream :: "withheld_row \<Rightarrow> stream_columns" where
  "w_stream w = (wa_source_authority (w_admission w), wa_exact_scope_sha256 (w_admission w),
    wa_source_stream (w_admission w))"

definition w_sequence :: "withheld_row \<Rightarrow> nat" where
  "w_sequence w = wa_source_sequence (w_admission w)"

definition receipt_slot :: "delivery_receipt \<Rightarrow> string \<times> nat" where
  "receipt_slot r = (dr_observation_id r, dr_attempt_number r)"

definition refusal_slot :: "attempt_refusal \<Rightarrow> string \<times> nat" where
  "refusal_slot r = (ar_observation_id r, ar_attempt_number r)"

definition orphan_slot :: "attempt_orphan \<Rightarrow> string \<times> nat" where
  "orphan_slot r = (or_observation_id r, or_attempt_number r)"

definition find_journal_key :: "journal_store \<Rightarrow> string \<Rightarrow> journal_row option" where
  "find_journal_key s key = find (\<lambda>j. j_idempotency_key j = key) (st_journal s)"

definition find_journal_observation :: "journal_store \<Rightarrow> string \<Rightarrow> journal_row option" where
  "find_journal_observation s obs = find (\<lambda>j. j_observation_id j = obs) (st_journal s)"

definition find_delivery_key :: "journal_store \<Rightarrow> string \<Rightarrow> delivery_row option" where
  "find_delivery_key s key = find (\<lambda>d. d_idempotency_key d = key) (st_delivery s)"

definition find_delivery_observation :: "journal_store \<Rightarrow> string \<Rightarrow> delivery_row option" where
  "find_delivery_observation s obs = find (\<lambda>d. d_observation_id d = obs) (st_delivery s)"

subsection \<open>Transactions\<close>

type_synonym 'a tx = "journal_store \<Rightarrow> observation_journal_error + 'a \<times> journal_store"

definition with_transaction :: "('s \<Rightarrow> 'e + 'a \<times> 's) \<Rightarrow> 's \<Rightarrow> ('e + 'a) \<times> 's" where
  "with_transaction action s =
    (case action s of Inl e \<Rightarrow> (Inl e, s) | Inr (x, s') \<Rightarrow> (Inr x, s'))"

text \<open>Prepend a read that may fail to a transaction body.\<close>
abbreviation tx_check :: "'b journal_result \<Rightarrow> ('b \<Rightarrow> observation_journal_error + 'a \<times> journal_store) \<Rightarrow>
    observation_journal_error + 'a \<times> journal_store" where
  "tx_check \<equiv> res_bind"

subsection \<open>Invariant\<close>

definition delivery_ok :: "delivery_row \<Rightarrow> bool" where
  "delivery_ok d \<longleftrightarrow>
    (d_state d = Leased \<longleftrightarrow> d_lease_id d \<noteq> None) \<and>
    (d_state d = Leased \<longrightarrow> d_lease_owner d \<noteq> None \<and> d_lease_expires_at d \<noteq> None \<and> 0 < d_attempt_number d) \<and>
    d_attempt_number d \<le> u32_max \<and> 0 < d_queue_bytes d"

definition belongs_to :: "journal_row \<Rightarrow> delivery_row \<Rightarrow> bool" where
  "belongs_to j d \<longleftrightarrow> d_idempotency_key d = j_idempotency_key j \<and>
    d_observation_id d = j_observation_id j \<and> d_lane d = j_lane j \<and>
    d_source_sequence d = j_sequence j \<and> d_exact_scope_sha256 d = j_exact_scope_sha256 j"

definition content_ok :: "journal_row \<Rightarrow> bool" where
  "content_ok j \<longleftrightarrow> 0 < pt_registration_revision (j_target j) \<and> 0 < j_payload_byte_len j \<and>
    (j_payload_bytes j \<noteq> None \<longrightarrow> j_sanitization j \<noteq> None)"

definition store_ok :: "journal_store \<Rightarrow> bool" where
  "store_ok s \<longleftrightarrow>
    distinct (map j_idempotency_key (st_journal s)) \<and>
    distinct (map j_observation_id (st_journal s)) \<and>
    distinct (map j_source_index (st_journal s)) \<and>
    list_all content_ok (st_journal s) \<and>
    list_all2 belongs_to (st_journal s) (st_delivery s) \<and>
    list_all delivery_ok (st_delivery s) \<and>
    distinct (map receipt_slot (st_receipts s)) \<and>
    distinct (map refusal_slot (st_refusals s)) \<and>
    distinct (map orphan_slot (st_orphans s)) \<and>
    distinct (map rc_stream (st_cursors s)) \<and>
    distinct (map (\<lambda>c. (tc_lane c, tc_stream c)) (st_target_cursors s)) \<and>
    distinct (map (\<lambda>r. (rv_lane r, rv_stream r)) (st_recovery s))"

text \<open>The delivery table is the only mutable delivery authority.  A row evolves when its
  identity is kept, its state is unchanged or takes one transition of the delivery state
  machine, and no consumed attempt number is handed back.\<close>
definition same_identity :: "delivery_row \<Rightarrow> delivery_row \<Rightarrow> bool" where
  "same_identity d d' \<longleftrightarrow>
    d_idempotency_key d' = d_idempotency_key d \<and> d_observation_id d' = d_observation_id d \<and>
    d_provider_id d' = d_provider_id d \<and> d_registration_revision d' = d_registration_revision d \<and>
    d_source_sequence d' = d_source_sequence d \<and>
    d_exact_scope_sha256 d' = d_exact_scope_sha256 d \<and> d_queue_bytes d' = d_queue_bytes d"

definition evolves :: "delivery_row \<Rightarrow> delivery_row \<Rightarrow> bool" where
  "evolves d d' \<longleftrightarrow> same_identity d d' \<and>
    (d_state d' = d_state d \<or> can_transition_to (d_state d) (d_state d')) \<and>
    d_attempt_number d \<le> d_attempt_number d'"

text \<open>One transaction moves a row out of the deliverable states at most once.\<close>
definition leaves_queue :: "delivery_row \<Rightarrow> delivery_row \<Rightarrow> bool" where
  "leaves_queue d d' \<longleftrightarrow> d' = d \<or>
    evolves d d' \<and> is_deliverable (d_state d) \<and> \<not> is_deliverable (d_state d')"

definition fresh_delivery :: "delivery_row \<Rightarrow> bool" where
  "fresh_delivery d \<longleftrightarrow> d_state d = Pending \<and> d_attempt_number d = 0 \<and> d_lease_id d = None"

definition grows :: "delivery_row list \<Rightarrow> delivery_row list \<Rightarrow> bool" where
  "grows ds ds' \<longleftrightarrow>
    (\<exists>moved new. ds' = moved @ new \<and> list_all2 evolves ds moved \<and> list_all fresh_delivery new)"

subsection \<open>Codecs\<close>

lemma nibble_hex_digit: "n < 16 \<Longrightarrow> nibble (hex_digit n) = Some n"
proof -
  assume "n < 16"
  then have "n \<in> set [0..<16]" by simp
  moreover have "\<forall>m\<in>set [0..<16]. nibble (hex_digit m) = Some m" by code_simp
  ultimately show ?thesis by blast
qed

lemma decode_hex_lowercase_hex: "decode_hex (lowercase_hex bs) = Some bs"
proof (induction bs)
  case (Cons b bs)
  have "(of_char b :: nat) div 16 < 16"
    using less_mult_imp_div_less [of "of_char b" 16 16] by simp
  then have "nibble (hex_digit (of_char b div 16)) = Some (of_char b div 16)"
    "nibble (hex_digit (of_char b mod 16)) = Some (of_char b mod 16)"
    by (simp_all add: nibble_hex_digit del: nibble.simps)
  with Cons show ?case
    by (simp add: lowercase_hex_def div_mult_mod_eq del: nibble.simps)
qed (simp add: lowercase_hex_def)

lemma into_from_extension:
  "opaque_extension_validate sha e = Inr () \<Longrightarrow> into_extension sha (from_extension e) = Inr e"
  by (cases e) (simp add: into_extension_def from_extension_def decode_hex_lowercase_hex lift_api_def Let_def)

lemma into_from_extensions:
  "list_all (\<lambda>e. opaque_extension_validate sha e = Inr ()) es \<Longrightarrow>
    into_extensions sha (map from_extension es) = Inr es"
  by (induction es) (auto simp: into_from_extension)

interpretation replay_disposition_wire: wire_codec replay_disposition_as_wire replay_disposition_from_wire
proof unfold_locales
  show "replay_disposition_from_wire (replay_disposition_as_wire x) = Inr x" for x
    by (cases x) (simp_all add: replay_disposition_from_wire_def)
  show "replay_disposition_as_wire x = t" if "replay_disposition_from_wire t = Inr x" for t x
    using that by (auto simp: replay_disposition_from_wire_def split: if_splits)
qed

subsection \<open>Rows and invariants\<close>

lemma evolves_refl [simp]: "evolves d d"
  by (simp add: evolves_def same_identity_def)

lemma leaves_queue_refl [simp]: "leaves_queue d d"
  by (simp add: leaves_queue_def)

lemma leaves_queue_evolves: "leaves_queue d d' \<Longrightarrow> evolves d d'"
  by (auto simp: leaves_queue_def)

lemma leaves_queue_trans: "leaves_queue a b \<Longrightarrow> leaves_queue b c \<Longrightarrow> leaves_queue a c"
  by (auto simp: leaves_queue_def)

lemma list_all2_leaves_queue_trans:
  "list_all2 leaves_queue xs ys \<Longrightarrow> list_all2 leaves_queue ys zs \<Longrightarrow> list_all2 leaves_queue xs zs"
  by (rule list_all2_trans [OF leaves_queue_trans])

lemma list_all2_update_where:
  "(\<And>r. r \<in> set rows \<Longrightarrow> P r \<Longrightarrow> R r (f r)) \<Longrightarrow> (\<And>r. R r r) \<Longrightarrow> list_all2 R rows (update_where P f rows)"
  by (simp add: update_where_def list_all2_conv_all_nth)

lemma list_all_update_where:
  "list_all Q rows \<Longrightarrow> (\<And>r. r \<in> set rows \<Longrightarrow> Q r \<Longrightarrow> P r \<Longrightarrow> Q (f r)) \<Longrightarrow> list_all Q (update_where P f rows)"
  by (auto simp: update_where_def list_all_iff)

lemma grows_evolve: "list_all2 evolves ds ds' \<Longrightarrow> grows ds ds'"
  unfolding grows_def by (intro exI [of _ ds'] exI [of _ "[]"]) simp

lemma grows_refl [simp]: "grows ds ds"
  by (rule grows_evolve) (simp add: list_all2_refl)

lemma belongs_to_same: "same_identity d d' \<Longrightarrow> belongs_to j d \<Longrightarrow> belongs_to j d'"
  by (auto simp: belongs_to_def same_identity_def d_lane_def)

lemma list_all2_belongs_same:
  "list_all2 belongs_to js ds \<Longrightarrow> list_all2 evolves ds ds' \<Longrightarrow> list_all2 belongs_to js ds'"
  by (rule list_all2_trans [of belongs_to evolves belongs_to])
    (auto simp: evolves_def intro: belongs_to_same)

lemma store_ok_update_delivery:
  assumes "store_ok s" "list_all2 evolves (st_delivery s) ds'" "list_all delivery_ok ds'"
  shows "store_ok (s\<lparr>st_delivery := ds'\<rparr>)"
  using assms by (auto simp: store_ok_def intro: list_all2_belongs_same)

lemma aligned_keys:
  "list_all2 belongs_to js ds \<Longrightarrow>
    map d_idempotency_key ds = map j_idempotency_key js \<and> map d_observation_id ds = map j_observation_id js"
  by (induction rule: list_all2_induct) (auto simp: belongs_to_def)

lemma store_ok_delivery_keys:
  "store_ok s \<Longrightarrow> distinct (map d_idempotency_key (st_delivery s)) \<and> distinct (map d_observation_id (st_delivery s))"
  using aligned_keys [of "st_journal s" "st_delivery s"] by (auto simp: store_ok_def)

lemma store_ok_unique_delivery:
  assumes "store_ok s" "d \<in> set (st_delivery s)" "d' \<in> set (st_delivery s)"
    "d_idempotency_key d = d_idempotency_key d' \<or> d_observation_id d = d_observation_id d'"
  shows "d = d'"
  using assms store_ok_delivery_keys [OF assms(1)] by (auto simp: distinct_map inj_on_def)

lemma store_ok_delivery_ok: "store_ok s \<Longrightarrow> d \<in> set (st_delivery s) \<Longrightarrow> delivery_ok d"
  by (simp add: store_ok_def list_all_iff)

lemma store_ok_journal_of:
  assumes "store_ok s" "d \<in> set (st_delivery s)"
  shows "\<exists>j\<in>set (st_journal s). belongs_to j d \<and> find_journal_key s (d_idempotency_key d) = Some j"
proof -
  obtain n where n: "n < length (st_delivery s)" "st_delivery s ! n = d"
    using assms(2) by (auto simp: in_set_conv_nth)
  have al: "list_all2 belongs_to (st_journal s) (st_delivery s)"
    and ds: "distinct (map j_idempotency_key (st_journal s))"
    using assms(1) by (auto simp: store_ok_def)
  have bel: "belongs_to (st_journal s ! n) d" "n < length (st_journal s)"
    using al n list_all2_nthD2 [OF al] list_all2_lengthD [OF al] by auto
  then have "find_journal_key s (d_idempotency_key d) = Some (st_journal s ! n)"
    using find_distinct_key [OF ds, of "st_journal s ! n"]
    by (simp add: find_journal_key_def belongs_to_def)
  with bel show ?thesis by auto
qed

lemma with_transaction_keeps:
  "P s \<Longrightarrow> (\<And>x s'. f s = Inr (x, s') \<Longrightarrow> P s') \<Longrightarrow> P (snd (with_transaction f s))"
  by (auto simp: with_transaction_def split: sum.splits)

lemma with_transaction_ok: "with_transaction f s = (Inr x, s') \<longleftrightarrow> f s = Inr (x, s')"
  by (auto simp: with_transaction_def split: sum.splits)

lemma with_transaction_error: "fst (with_transaction f s) = Inl e \<Longrightarrow> snd (with_transaction f s) = s"
  by (auto simp: with_transaction_def split: sum.splits)

lemma empty_store_ok [simp]: "store_ok empty_store"
  by (simp add: store_ok_def empty_store_def)

text \<open>The extension column round-trips: decoding the hex-encoded form of a set of valid
  extensions gives the same extensions, byte for byte.\<close>
theorem extensions_column_roundtrip:
  assumes "list_all (\<lambda>e. opaque_extension_validate sha e = Inr ()) es"
  shows "decode_extensions sha (encode_extensions es) = Inr es"
  using into_from_extensions [OF assms] by (simp add: decode_extensions_def encode_extensions_def)

definition sample_extension :: opaque_extension where
  "sample_extension = \<lparr>extension_id = ''ext.v1'', extension_version = 1, required = False,
    ext_payload_sha256 = sample_digest, ext_canonical_payload = [CHR 0x00, CHR 0xff, CHR ''z'']\<rparr>"

theorem extensions_column_roundtrip_witness:
  "decode_extensions zero_sha (encode_extensions [sample_extension]) = Inr [sample_extension]"
  by (rule extensions_column_roundtrip)
    (simp add: sample_extension_def opaque_extension_validate_def require_versioned_id_def capability_id_new_def
      valid_segmented_ascii_def is_ascii_lowercase_def is_ascii_digit_def api_require_sha256_def)

end
