(* ===== verification/Source_Fence.thy ===== *)
theory Source_Fence
  imports Journal_Store "HOL-Library.Sublist"
begin

text \<open>
  Provider source fences (\<^verbatim>\<open>sqlite/retention.rs\<close>): the durable record that a provider must not
  use a source any more, or only one readmitted revision of it.  A transition names the fence
  revision it expects, is keyed by the host's operation identity and is answered by a receipt
  that later retries return.  Rows hold the decoded fence and receipt; their JSON texts, whose
  lengths the readers bound, are computed by \<^verbatim>\<open>fence_json\<close> and \<^verbatim>\<open>intent_receipt_json\<close> in the
  compact form of serde.  The bounded variants take the answers of the clock, the cancellation
  token, the connection mutex and SQLite from a \<^verbatim>\<open>intent_control\<close>.
\<close>

subsection \<open>Fences and receipts\<close>

datatype deletion_mode = RemoveInfluence | HardDelete | Anonymize

fun deletion_mode_as_wire :: "deletion_mode \<Rightarrow> string" where
  "deletion_mode_as_wire RemoveInfluence = ''remove_influence''"
| "deletion_mode_as_wire HardDelete = ''hard_delete''"
| "deletion_mode_as_wire Anonymize = ''anonymize''"

record source_fence =
  sf_provider_id :: string
  sf_original_source_sha256 :: string
  sf_revision :: nat
  sf_mode :: string
  sf_deleted_source_revision :: "string option"
  sf_admitted_source_revision :: "string option"
  sf_authority_ref :: string
  sf_accepted_at :: micros

definition blocks_revision :: "source_fence \<Rightarrow> string option \<Rightarrow> bool" where
  "blocks_revision f revision \<longleftrightarrow> sf_mode f \<noteq> ''remove_influence'' \<or>
    sf_admitted_source_revision f = None \<or> sf_admitted_source_revision f \<noteq> revision"

record intent_receipt =
  ir_operation_id :: string
  ir_fence :: source_fence
  ir_provider_erasure_verified :: bool

record deletion_intent =
  di_operation_id :: string
  di_provider_id :: string
  di_original_source_sha256 :: string
  di_expected_fence_revision :: nat
  di_mode :: deletion_mode
  di_source_revision :: "string option"
  di_authority_ref :: string
  di_accepted_at :: micros

record revision_admission =
  ra_operation_id :: string
  ra_provider_id :: string
  ra_original_source_sha256 :: string
  ra_expected_fence_revision :: nat
  ra_source_revision :: string
  ra_authority_ref :: string
  ra_accepted_at :: micros

record fence_row =
  fw_provider_id :: string
  fw_source :: string
  fw_revision :: nat
  fw_fence :: source_fence

record intent_row =
  iw_provider_id :: string
  iw_operation_id :: string
  iw_request_json :: string
  iw_receipt :: intent_receipt

record fence_store =
  fs_fences :: "fence_row list"
  fs_intents :: "intent_row list"

type_synonym 'a fence_tx = "fence_store \<Rightarrow> observation_journal_error + 'a \<times> fence_store"

subsection \<open>JSON texts\<close>

definition json_escape_byte :: "byte \<Rightarrow> string" where
  "json_escape_byte b =
    (if b = dquote then [CHR 0x5C, dquote] else if b = CHR 0x5C then [CHR 0x5C, CHR 0x5C]
     else if b = CHR 0x08 then [CHR 0x5C, CHR ''b''] else if b = CHR 0x0C then [CHR 0x5C, CHR ''f'']
     else if b = CHR 0x0A then [CHR 0x5C, CHR ''n''] else if b = CHR 0x0D then [CHR 0x5C, CHR ''r'']
     else if b = CHR 0x09 then [CHR 0x5C, CHR ''t'']
     else if (of_char b :: nat) < 32 then [CHR 0x5C] @ ''u00'' @ lowercase_hex [b] else [b])"

definition json_text :: "string \<Rightarrow> string" where
  "json_text v = [dquote] @ concat (map json_escape_byte v) @ [dquote]"

definition json_optional_text :: "string option \<Rightarrow> string" where
  "json_optional_text v = (case v of None \<Rightarrow> ''null'' | Some x \<Rightarrow> json_text x)"

definition json_int :: "int \<Rightarrow> string" where
  "json_int i = (if i < 0 then ''-'' @ decimal (nat (- i)) else decimal (nat i))"

definition json_bool :: "bool \<Rightarrow> string" where
  "json_bool b = (if b then ''true'' else ''false'')"

fun json_joined :: "string list \<Rightarrow> string" where
  "json_joined [] = []"
| "json_joined [x] = x"
| "json_joined (x # xs) = x @ '','' @ json_joined xs"

definition json_member :: "string \<Rightarrow> string \<Rightarrow> string" where
  "json_member key v = json_text key @ '':'' @ v"

definition json_object :: "string list \<Rightarrow> string" where
  "json_object ms = ''{'' @ json_joined ms @ ''}''"

definition fence_json :: "source_fence \<Rightarrow> string" where
  "fence_json f = json_object
    [json_member ''provider_id'' (json_text (sf_provider_id f)),
     json_member ''original_source_sha256'' (json_text (sf_original_source_sha256 f)),
     json_member ''revision'' (decimal (sf_revision f)),
     json_member ''mode'' (json_text (sf_mode f)),
     json_member ''deleted_source_revision'' (json_optional_text (sf_deleted_source_revision f)),
     json_member ''admitted_source_revision'' (json_optional_text (sf_admitted_source_revision f)),
     json_member ''authority_ref'' (json_text (sf_authority_ref f)),
     json_member ''accepted_at_utc_micros'' (json_int (sf_accepted_at f))]"

definition intent_receipt_json :: "intent_receipt \<Rightarrow> string" where
  "intent_receipt_json r = json_object
    [json_member ''operation_id'' (json_text (ir_operation_id r)),
     json_member ''fence'' (fence_json (ir_fence r)),
     json_member ''provider_erasure_verified'' (json_bool (ir_provider_erasure_verified r))]"

definition intent_request_json ::
  "string \<Rightarrow> nat \<Rightarrow> string \<Rightarrow> string option \<Rightarrow> string \<Rightarrow> bool \<Rightarrow> string" where
  "intent_request_json source expected mode revision authority admit =
    ''['' @ json_joined [json_text source, decimal expected, json_text mode, json_optional_text revision,
      json_text authority, json_bool admit] @ '']''"

subsection \<open>Labels\<close>

definition fence_conflict :: "string \<Rightarrow> observation_journal_error" where
  "fence_conflict field = UnsettledSource field"

text \<open>The UTF-8 encodings of the characters with the Unicode property \<^verbatim>\<open>White_Space\<close>.\<close>
definition white_space :: "byte list list" where
  "white_space = map (\<lambda>n. [char_of n]) [9, 10, 11, 12, 13, 32 :: nat] @
    [[CHR 0xC2, CHR 0x85], [CHR 0xC2, CHR 0xA0], [CHR 0xE1, CHR 0x9A, CHR 0x80]] @
    map (\<lambda>n. [CHR 0xE2, CHR 0x80, char_of n])
      [0x80, 0x81, 0x82, 0x83, 0x84, 0x85, 0x86, 0x87, 0x88, 0x89, 0x8A, 0xA8, 0xA9, 0xAF :: nat] @
    [[CHR 0xE2, CHR 0x81, CHR 0x9F], [CHR 0xE3, CHR 0x80, CHR 0x80]]"

text \<open>\<^verbatim>\<open>value.trim() != value\<close>\<close>
definition trims :: "string \<Rightarrow> bool" where
  "trims v \<longleftrightarrow> list_ex (\<lambda>w. prefix w v \<or> suffix w v) white_space"

text \<open>\<^verbatim>\<open>value.chars().any(char::is_control)\<close>: the code points below 32, 127 and 128 to 159.\<close>
fun has_control :: "string \<Rightarrow> bool" where
  "has_control [] = False"
| "has_control (b # bs) = ((of_char b :: nat) < 32 \<or> b = CHR 0x7F \<or>
    b = CHR 0xC2 \<and> bs \<noteq> [] \<and> 0x80 \<le> (of_char (hd bs) :: nat) \<and> (of_char (hd bs) :: nat) \<le> 0x9F \<or> has_control bs)"

definition validate_fence_label :: "string \<Rightarrow> string \<Rightarrow> unit journal_result" where
  "validate_fence_label v field = res_bind (require_bounded v field 1024) (\<lambda>_.
    if trims v \<or> has_control v then Inl (fence_conflict field) else Inr ())"

fun validate_revisions :: "string option list \<Rightarrow> unit journal_result" where
  "validate_revisions [] = Inr ()"
| "validate_revisions (None # vs) = validate_revisions vs"
| "validate_revisions (Some v # vs) =
    res_bind (validate_fence_label v ''source_revision'') (\<lambda>_. validate_revisions vs)"

subsection \<open>Reading\<close>

definition known_mode :: "string \<Rightarrow> bool" where
  "known_mode m \<longleftrightarrow> m = ''remove_influence'' \<or> m = ''hard_delete'' \<or> m = ''anonymize''"

definition MAX_JSON_BYTES :: nat where
  "MAX_JSON_BYTES = 16384"

definition read_source_fence :: "fence_store \<Rightarrow> string \<Rightarrow> string \<Rightarrow> source_fence option journal_result" where
  "read_source_fence s provider source =
    (case find (\<lambda>w. fw_provider_id w = provider \<and> fw_source w = source) (fs_fences s) of
      None \<Rightarrow> Inr None
    | Some w \<Rightarrow> let f = fw_fence w in
        if MAX_JSON_BYTES < length (fence_json f) then Inl (ValueOutOfRange ''provider_source_fence_json'')
        else if sf_provider_id f \<noteq> provider \<or> sf_original_source_sha256 f \<noteq> source \<or> sf_revision f \<noteq> fw_revision w \<or>
          \<not> known_mode (sf_mode f) \<or> sf_revision f = 0 \<or>
          sf_mode f \<noteq> ''remove_influence'' \<and> sf_admitted_source_revision f \<noteq> None
        then Inl (fence_conflict ''provider_source_fence_binding'')
        else res_bind (validate_fence_label (sf_authority_ref f) ''fence_authority_ref'') (\<lambda>_.
          res_bind (validate_revisions [sf_deleted_source_revision f, sf_admitted_source_revision f]) (\<lambda>_.
          Inr (Some f))))"

record prepared_transition =
  pf_operation_id :: string
  pf_provider_id :: string
  pf_source :: string
  pf_expected :: nat
  pf_mode :: string
  pf_revision :: "string option"
  pf_authority_ref :: string
  pf_accepted_at :: micros
  pf_admit_revision :: bool
  pf_request_json :: string

definition prepared_new ::
  "string \<Rightarrow> string \<Rightarrow> string \<Rightarrow> nat \<Rightarrow> string \<Rightarrow> string option \<Rightarrow> string \<Rightarrow> micros \<Rightarrow> bool \<Rightarrow>
    prepared_transition journal_result" where
  "prepared_new operation provider source expected mode revision authority accepted admit =
    res_bind (first_error [validate_fence_label operation ''operation_id'', validate_fence_label provider ''provider_id'',
      validate_fence_label authority ''authority_ref'', validate_revisions [revision],
      require_sha256 source ''original_source_sha256'']) (\<lambda>_.
    Inr \<lparr>pf_operation_id = operation, pf_provider_id = provider, pf_source = source, pf_expected = expected,
      pf_mode = mode, pf_revision = revision, pf_authority_ref = authority, pf_accepted_at = accepted,
      pf_admit_revision = admit,
      pf_request_json = intent_request_json source expected mode revision authority admit\<rparr>)"

definition prepared_deletion :: "deletion_intent \<Rightarrow> prepared_transition journal_result" where
  "prepared_deletion q = prepared_new (di_operation_id q) (di_provider_id q) (di_original_source_sha256 q)
    (di_expected_fence_revision q) (deletion_mode_as_wire (di_mode q)) (di_source_revision q) (di_authority_ref q)
    (di_accepted_at q) False"

definition next_revision :: "nat \<Rightarrow> nat journal_result" where
  "next_revision expected =
    (if expected < u64_max \<and> int (expected + 1) \<le> i64_max then Inr (expected + 1)
     else Inl (ValueOutOfRange ''fence_revision''))"

definition receipt_binds :: "prepared_transition \<Rightarrow> nat \<Rightarrow> intent_receipt \<Rightarrow> bool" where
  "receipt_binds p expected_revision r \<longleftrightarrow>
    (let f = ir_fence r in
     ir_operation_id r = pf_operation_id p \<and> sf_provider_id f = pf_provider_id p \<and>
     sf_original_source_sha256 f = pf_source p \<and> \<not> ir_provider_erasure_verified r \<and>
     sf_revision f = expected_revision \<and> sf_authority_ref f = pf_authority_ref p \<and> known_mode (sf_mode f) \<and>
     \<not> (sf_mode f \<noteq> ''remove_influence'' \<and> sf_admitted_source_revision f \<noteq> None) \<and>
     \<not> (pf_admit_revision p \<and>
        (sf_mode f \<noteq> ''remove_influence'' \<or> sf_admitted_source_revision f \<noteq> pf_revision p)) \<and>
     \<not> (\<not> pf_admit_revision p \<and>
        (sf_deleted_source_revision f \<noteq> pf_revision p \<or> sf_admitted_source_revision f \<noteq> None \<or>
         pf_mode p = ''hard_delete'' \<and> sf_mode f \<noteq> ''hard_delete'' \<or>
         pf_mode p = ''anonymize'' \<and> sf_mode f = ''remove_influence'')))"

definition read_intent_receipt :: "prepared_transition \<Rightarrow> fence_store \<Rightarrow> intent_receipt option journal_result" where
  "read_intent_receipt p s =
    (case find (\<lambda>w. iw_provider_id w = pf_provider_id p \<and> iw_operation_id w = pf_operation_id p) (fs_intents s) of
      None \<Rightarrow> Inr None
    | Some w \<Rightarrow>
        if MAX_JSON_BYTES < length (iw_request_json w) \<or> MAX_JSON_BYTES < length (intent_receipt_json (iw_receipt w))
        then Inl (fence_conflict ''source_intent_receipt_size'')
        else if iw_request_json w \<noteq> pf_request_json p then Inl (fence_conflict ''source_intent_idempotency_conflict'')
        else res_bind (next_revision (pf_expected p)) (\<lambda>expected_revision.
          let r = iw_receipt w; f = ir_fence r in
          if \<not> receipt_binds p expected_revision r then Inl (fence_conflict ''source_intent_receipt_binding'')
          else res_bind (validate_fence_label (sf_authority_ref f) ''fence_authority_ref'') (\<lambda>_.
            res_bind (validate_revisions [sf_deleted_source_revision f, sf_admitted_source_revision f]) (\<lambda>_.
            Inr (Some r)))))"

subsection \<open>Transitions\<close>

text \<open>Strong privacy modes are not weakened by a later intent.\<close>
definition strengthened_mode :: "string \<Rightarrow> string option \<Rightarrow> string" where
  "strengthened_mode mode previous =
    (if mode = ''hard_delete'' \<or> previous = Some ''hard_delete'' then ''hard_delete''
     else if mode = ''anonymize'' \<or> previous = Some ''anonymize'' then ''anonymize''
     else ''remove_influence'')"

definition next_fence :: "prepared_transition \<Rightarrow> source_fence option \<Rightarrow> nat \<Rightarrow> source_fence journal_result" where
  "next_fence p current next =
    (if pf_admit_revision p then (case current of
        None \<Rightarrow> Inl (fence_conflict ''source_fence_missing'')
      | Some f \<Rightarrow>
          if sf_mode f \<noteq> ''remove_influence'' \<or> pf_revision p = None \<or>
            pf_revision p = sf_deleted_source_revision f \<or> pf_revision p = sf_admitted_source_revision f
          then Inl (fence_conflict ''source_revision_not_admitted'')
          else Inr (f\<lparr>sf_admitted_source_revision := pf_revision p, sf_revision := next,
            sf_authority_ref := pf_authority_ref p, sf_accepted_at := pf_accepted_at p\<rparr>))
     else Inr \<lparr>sf_provider_id = pf_provider_id p, sf_original_source_sha256 = pf_source p, sf_revision = next,
       sf_mode = strengthened_mode (pf_mode p) (map_option sf_mode current),
       sf_deleted_source_revision = pf_revision p, sf_admitted_source_revision = None,
       sf_authority_ref = pf_authority_ref p, sf_accepted_at = pf_accepted_at p\<rparr>)"

definition upsert_fence :: "fence_row \<Rightarrow> fence_row list \<Rightarrow> fence_row list" where
  "upsert_fence row rows =
    (if \<exists>w\<in>set rows. fw_provider_id w = fw_provider_id row \<and> fw_source w = fw_source row
     then update_where (\<lambda>w. fw_provider_id w = fw_provider_id row \<and> fw_source w = fw_source row) (\<lambda>_. row) rows
     else rows @ [row])"

text \<open>The control is consulted three times; the intent row is inserted only when no row has its
  key, so the insertion does not conflict.\<close>
definition apply_transition ::
  "prepared_transition \<Rightarrow> (nat \<Rightarrow> unit journal_result) \<Rightarrow> intent_receipt fence_tx" where
  "apply_transition p check s =
    res_bind (check 0) (\<lambda>_.
    res_bind (read_intent_receipt p s) (\<lambda>standing.
    case standing of Some r \<Rightarrow> Inr (r, s)
    | None \<Rightarrow>
      res_bind (read_source_fence s (pf_provider_id p) (pf_source p)) (\<lambda>current.
      if (case current of None \<Rightarrow> 0 | Some f \<Rightarrow> sf_revision f) \<noteq> pf_expected p
      then Inl (fence_conflict ''source_fence_revision_conflict'')
      else res_bind (next_revision (pf_expected p)) (\<lambda>next.
        res_bind (next_fence p current next) (\<lambda>fence.
        res_bind (check 1) (\<lambda>_.
        let receipt = \<lparr>ir_operation_id = pf_operation_id p, ir_fence = fence, ir_provider_erasure_verified = False\<rparr> in
        res_bind (check 2) (\<lambda>_.
        Inr (receipt, s\<lparr>
          fs_fences := upsert_fence \<lparr>fw_provider_id = pf_provider_id p, fw_source = pf_source p,
            fw_revision = next, fw_fence = fence\<rparr> (fs_fences s),
          fs_intents := fs_intents s @ [\<lparr>iw_provider_id = pf_provider_id p, iw_operation_id = pf_operation_id p,
            iw_request_json = pf_request_json p, iw_receipt = receipt\<rparr>]\<rparr>))))))))"

definition transition_provider_source_fence ::
  "string \<Rightarrow> string \<Rightarrow> string \<Rightarrow> nat \<Rightarrow> string \<Rightarrow> string option \<Rightarrow> string \<Rightarrow> micros \<Rightarrow> bool \<Rightarrow> fence_store \<Rightarrow>
    intent_receipt journal_result \<times> fence_store" where
  "transition_provider_source_fence operation provider source expected mode revision authority accepted admit s =
    (case prepared_new operation provider source expected mode revision authority accepted admit of
      Inl e \<Rightarrow> (Inl e, s)
    | Inr p \<Rightarrow> with_transaction (apply_transition p (\<lambda>_. Inr ())) s)"

definition record_provider_source_deletion_intent ::
  "deletion_intent \<Rightarrow> fence_store \<Rightarrow> intent_receipt journal_result \<times> fence_store" where
  "record_provider_source_deletion_intent q = transition_provider_source_fence (di_operation_id q) (di_provider_id q)
    (di_original_source_sha256 q) (di_expected_fence_revision q)
    (case di_mode q of RemoveInfluence \<Rightarrow> ''remove_influence'' | HardDelete \<Rightarrow> ''hard_delete'' | Anonymize \<Rightarrow> ''anonymize'')
    (di_source_revision q) (di_authority_ref q) (di_accepted_at q) False"

definition admit_provider_source_revision ::
  "revision_admission \<Rightarrow> fence_store \<Rightarrow> intent_receipt journal_result \<times> fence_store" where
  "admit_provider_source_revision q = transition_provider_source_fence (ra_operation_id q) (ra_provider_id q)
    (ra_original_source_sha256 q) (ra_expected_fence_revision q) ''remove_influence'' (Some (ra_source_revision q))
    (ra_authority_ref q) (ra_accepted_at q) True"

subsection \<open>Bounded variants\<close>

text \<open>What the environment answers to one bounded call: the cancellation and budget checks in the
  order they are made, the mutex, the busy timeout and its restoration, and the statements
  that begin and commit the transaction.\<close>
record intent_control =
  ic_check :: "nat \<Rightarrow> unit journal_result"
  ic_lock :: "unit journal_result"
  ic_busy_timeout :: "unit journal_result"
  ic_begin :: "unit journal_result"
  ic_commit :: "unit journal_result"
  ic_restore :: "unit journal_result"

definition source_intent_remaining :: "micros \<Rightarrow> micros \<Rightarrow> micros" where
  "source_intent_remaining elapsed budget = sat_sub_i64 budget (min elapsed i64_max)"

text \<open>The check that the bounded deletion intents make against the clock and the token.\<close>
definition source_intent_control_check :: "bool \<Rightarrow> micros \<Rightarrow> micros \<Rightarrow> string \<Rightarrow> unit journal_result" where
  "source_intent_control_check cancelled elapsed budget operation =
    (if cancelled then Inl (OperationCancelled operation)
     else if source_intent_remaining elapsed budget \<le> 0 then Inl (BudgetExhausted operation) else Inr ())"

definition is_busy :: "observation_journal_error \<Rightarrow> bool" where
  "is_busy e \<longleftrightarrow> e = Storage ''DatabaseBusy'' \<or> e = Storage ''DatabaseLocked''"

text \<open>The result of the guarded action, given the results of capping and restoring the timeout.\<close>
definition with_busy_budget :: "string \<Rightarrow> unit journal_result \<Rightarrow> unit journal_result \<Rightarrow> 'a journal_result \<Rightarrow> 'a journal_result" where
  "with_busy_budget operation cap restore outcome =
    res_bind cap (\<lambda>_. res_bind restore (\<lambda>_.
    case outcome of Inl e \<Rightarrow> if is_busy e then Inl (BudgetExhausted operation) else Inl e | Inr x \<Rightarrow> Inr x))"

definition read_provider_source_fence_bounded ::
  "intent_control \<Rightarrow> string \<Rightarrow> string \<Rightarrow> fence_store \<Rightarrow> source_fence option journal_result" where
  "read_provider_source_fence_bounded c provider source s =
    res_bind (ic_check c 0) (\<lambda>_.
    res_bind (validate_fence_label provider ''provider_id'') (\<lambda>_.
    res_bind (require_sha256 source ''original_source_sha256'') (\<lambda>_.
    let result = res_bind (ic_lock c) (\<lambda>_. with_busy_budget ''read_provider_source_fence'' (ic_busy_timeout c) (ic_restore c)
      (res_bind (ic_check c 1) (\<lambda>_. res_bind (read_source_fence s provider source) (\<lambda>fence.
        res_bind (ic_check c 2) (\<lambda>_. Inr fence)))))
    in res_bind (ic_check c 3) (\<lambda>_. result))))"

definition read_intent_receipt_bounded ::
  "intent_control \<Rightarrow> deletion_intent \<Rightarrow> fence_store \<Rightarrow> intent_receipt option journal_result" where
  "read_intent_receipt_bounded c q s =
    res_bind (ic_check c 0) (\<lambda>_.
    res_bind (prepared_deletion q) (\<lambda>p.
    res_bind (ic_lock c) (\<lambda>_.
    res_bind (ic_check c 1) (\<lambda>_.
    let outcome = with_busy_budget ''read_provider_source_deletion_intent_receipt'' (ic_busy_timeout c) (ic_restore c)
      (res_bind (ic_check c 2) (\<lambda>_. res_bind (read_intent_receipt p s) (\<lambda>r.
        res_bind (ic_check c 3) (\<lambda>_. Inr r))))
    in res_bind (ic_check c 4) (\<lambda>_. outcome)))))"

text \<open>The transaction body up to and including the commit; a receipt means that it committed.\<close>
definition commit_intent :: "intent_control \<Rightarrow> prepared_transition \<Rightarrow> intent_receipt fence_tx" where
  "commit_intent c p s =
    res_bind (ic_check c 2) (\<lambda>_. res_bind (ic_begin c) (\<lambda>_.
    res_bind (apply_transition p (\<lambda>i. ic_check c (3 + i)) s) (\<lambda>(r, s').
    res_bind (ic_check c 6) (\<lambda>_. res_bind (ic_commit c) (\<lambda>_. Inr (r, s'))))))"

definition record_intent_bounded ::
  "intent_control \<Rightarrow> deletion_intent \<Rightarrow> fence_store \<Rightarrow> intent_receipt journal_result \<times> fence_store" where
  "record_intent_bounded c q s =
    (case res_bind (ic_check c 0) (\<lambda>_. res_bind (prepared_deletion q) (\<lambda>p.
        res_bind (ic_lock c) (\<lambda>_. res_bind (ic_check c 1) (\<lambda>_. Inr p)))) of
      Inl e \<Rightarrow> (Inl e, s)
    | Inr p \<Rightarrow>
        (case res_bind (ic_busy_timeout c) (\<lambda>_. commit_intent c p s) of
          Inr (receipt, s') \<Rightarrow> (Inr receipt, s')
        | Inl e \<Rightarrow> (res_bind (ic_check c 7) (\<lambda>_. with_busy_budget ''record_provider_source_deletion_intent''
            (ic_busy_timeout c) (ic_restore c) (Inl e)), s)))"

end
