(* ===== verification/Fence_Properties.thy ===== *)
theory Fence_Properties
  imports Source_Fence
begin

text \<open>
  What provider source fences promise: a receipt is returned unchanged to every retry of its
  operation, however far the fence has moved on since; the revision of a fence only grows and
  its mode is never weakened; and a bounded intent that reports a failure has changed nothing.
\<close>

subsection \<open>Sizes of the stored texts\<close>

lemma decimal_length: "n < 10 ^ Suc k \<Longrightarrow> length (decimal n) \<le> Suc k"
proof (induction k arbitrary: n)
  case 0
  then show ?case by (simp add: decimal.simps)
next
  case (Suc k)
  have "n div 10 < 10 ^ Suc k" using Suc.prems by (simp add: less_mult_imp_div_less)
  from Suc.IH [OF this] show ?case by (simp add: decimal.simps [of n])
qed

lemma json_escape_length: "length (json_escape_byte b) \<le> 6"
  by (simp add: json_escape_byte_def lowercase_hex_def)

lemma json_escape_plain: "32 \<le> (of_char b :: nat) \<Longrightarrow> length (json_escape_byte b) \<le> 2"
  by (auto simp: json_escape_byte_def)

lemma json_text_length:
  assumes "\<not> has_control v" "length v \<le> n"
  shows "length (json_text v) \<le> 2 * n + 2"
proof -
  have "length (concat (map json_escape_byte v)) \<le> 2 * length v"
    using assms(1)
  proof (induction v)
    case (Cons b v)
    then have "length (json_escape_byte b) \<le> 2" by (intro json_escape_plain) auto
    with Cons show ?case by auto
  qed simp
  with assms(2) show ?thesis by (simp add: json_text_def)
qed

lemma json_text_loose: "length (json_text v) \<le> 6 * length v + 2"
proof -
  have "length (concat (map json_escape_byte v)) \<le> 6 * length v"
  proof (induction v)
    case (Cons b v)
    then show ?case using json_escape_length [of b] by simp
  qed simp
  then show ?thesis by (simp add: json_text_def)
qed

lemma json_member_length: "length (json_member key v) \<le> 6 * length key + 3 + length v"
  using json_text_loose [of key] by (simp add: json_member_def)

text \<open>A label as the fence readers and the transitions accept it.\<close>
definition label_ok :: "string \<Rightarrow> bool" where
  "label_ok v \<longleftrightarrow> v \<noteq> [] \<and> length v \<le> 1024 \<and> \<not> trims v \<and> \<not> has_control v"

definition labels_ok :: "string option \<Rightarrow> bool" where
  "labels_ok v \<longleftrightarrow> (case v of None \<Rightarrow> True | Some x \<Rightarrow> label_ok x)"

lemma fence_label_iff [simp]:
  "validate_fence_label v field = Inr () \<longleftrightarrow> label_ok v" "is_ok (validate_fence_label v field) \<longleftrightarrow> label_ok v"
  by (auto simp: validate_fence_label_def res_bind_Inr_iff label_ok_def is_ok_unit)

lemma validate_revisions_ok [simp]: "validate_revisions vs = Inr () \<longleftrightarrow> (\<forall>v\<in>set vs. labels_ok v)"
  by (induction vs rule: validate_revisions.induct) (auto simp: res_bind_Inr_iff labels_ok_def)

lemma label_length: "label_ok v \<Longrightarrow> length (json_text v) \<le> 2050"
  using json_text_length [of v 1024] by (simp add: label_ok_def)

lemma labels_length: "labels_ok v \<Longrightarrow> length (json_optional_text v) \<le> 2050"
  by (cases v) (auto simp: json_optional_text_def labels_ok_def label_length)

lemma json_int_length: "is_i64 i \<Longrightarrow> length (json_int i) \<le> 20"
  using decimal_length [of "nat i" 18] decimal_length [of "nat (- i)" 18]
  by (cases "i < 0") (simp_all add: is_i64_def i64_max_def i64_min_def json_int_def nat_less_iff)

definition fence_valid :: "source_fence \<Rightarrow> bool" where
  "fence_valid f \<longleftrightarrow> label_ok (sf_provider_id f) \<and> is_sha256 (sf_original_source_sha256 f) \<and>
    int (sf_revision f) \<le> i64_max \<and> known_mode (sf_mode f) \<and> labels_ok (sf_deleted_source_revision f) \<and>
    labels_ok (sf_admitted_source_revision f) \<and> label_ok (sf_authority_ref f) \<and> is_i64 (sf_accepted_at f)"

lemma fence_json_length:
  assumes "fence_valid f"
  shows "length (fence_json f) \<le> 10000"
proof -
  have "length (json_text (sf_provider_id f)) \<le> 2050" "length (json_text (sf_authority_ref f)) \<le> 2050"
    "length (json_optional_text (sf_deleted_source_revision f)) \<le> 2050"
    "length (json_optional_text (sf_admitted_source_revision f)) \<le> 2050"
    "length (json_int (sf_accepted_at f)) \<le> 20"
    using assms by (simp_all add: fence_valid_def label_length labels_length json_int_length)
  moreover have "length (sf_original_source_sha256 f) = 64" using assms by (simp add: fence_valid_def is_sha256_def)
  then have "length (json_text (sf_original_source_sha256 f)) \<le> 386"
    using json_text_loose [of "sf_original_source_sha256 f"] by simp
  moreover have "length (sf_mode f) \<le> 16" using assms by (auto simp: fence_valid_def known_mode_def)
  then have "length (json_text (sf_mode f)) \<le> 98" using json_text_loose [of "sf_mode f"] by simp
  moreover have "length (decimal (sf_revision f)) \<le> 19"
    using assms decimal_length [of "sf_revision f" 18] by (simp add: fence_valid_def i64_max_def)
  ultimately show ?thesis
    using json_member_length [of "''provider_id''" "json_text (sf_provider_id f)"]
      json_member_length [of "''original_source_sha256''" "json_text (sf_original_source_sha256 f)"]
      json_member_length [of "''revision''" "decimal (sf_revision f)"] json_member_length [of "''mode''" "json_text (sf_mode f)"]
      json_member_length [of "''deleted_source_revision''" "json_optional_text (sf_deleted_source_revision f)"]
      json_member_length [of "''admitted_source_revision''" "json_optional_text (sf_admitted_source_revision f)"]
      json_member_length [of "''authority_ref''" "json_text (sf_authority_ref f)"]
      json_member_length [of "''accepted_at_utc_micros''" "json_int (sf_accepted_at f)"]
    by (simp add: fence_json_def json_object_def)
qed

lemma json_bool_length: "length (json_bool b) \<le> 5"
  by (simp add: json_bool_def)

lemma intent_receipt_json_length:
  assumes "fence_valid (ir_fence r)" "label_ok (ir_operation_id r)"
  shows "length (intent_receipt_json r) \<le> MAX_JSON_BYTES"
  using fence_json_length [OF assms(1)] label_length [OF assms(2)]
    json_member_length [of "''operation_id''" "json_text (ir_operation_id r)"]
    json_member_length [of "''fence''" "fence_json (ir_fence r)"]
    json_member_length [of "''provider_erasure_verified''" "json_bool (ir_provider_erasure_verified r)"]
    json_bool_length [of "ir_provider_erasure_verified r"]
  by (simp add: intent_receipt_json_def json_object_def MAX_JSON_BYTES_def)

lemma intent_request_json_length:
  assumes "is_sha256 source" "expected \<le> u64_max" "known_mode mode" "labels_ok revision" "label_ok authority"
  shows "length (intent_request_json source expected mode revision authority admit) \<le> MAX_JSON_BYTES"
proof -
  have "length (json_text source) \<le> 386" using assms(1) json_text_loose [of source] by (simp add: is_sha256_def)
  moreover have "length (decimal expected) \<le> 20" using assms(2) decimal_length [of expected 19] by (simp add: u64_max_def)
  moreover have "length mode \<le> 16" using assms(3) by (auto simp: known_mode_def)
  then have "length (json_text mode) \<le> 98" using json_text_loose [of mode] by simp
  ultimately show ?thesis
    using labels_length [OF assms(4)] label_length [OF assms(5)] json_bool_length [of admit]
    by (simp add: intent_request_json_def MAX_JSON_BYTES_def)
qed

subsection \<open>One transition\<close>

definition prepared_ok :: "prepared_transition \<Rightarrow> bool" where
  "prepared_ok p \<longleftrightarrow> label_ok (pf_operation_id p) \<and> label_ok (pf_provider_id p) \<and> label_ok (pf_authority_ref p) \<and>
    labels_ok (pf_revision p) \<and> is_sha256 (pf_source p) \<and> known_mode (pf_mode p) \<and> pf_expected p \<le> u64_max \<and>
    is_i64 (pf_accepted_at p) \<and> pf_request_json p = intent_request_json (pf_source p) (pf_expected p) (pf_mode p)
      (pf_revision p) (pf_authority_ref p) (pf_admit_revision p)"

lemma prepared_new_ok:
  assumes "prepared_new operation provider source expected mode revision authority accepted admit = Inr p"
    "known_mode mode" "expected \<le> u64_max" "is_i64 accepted"
  shows "prepared_ok p"
  using assms by (auto simp: prepared_new_def res_bind_Inr_iff first_error_ok prepared_ok_def is_ok_unit)

lemma apply_transition_cases:
  assumes "apply_transition p check s = Inr (r, s')"
  obtains "read_intent_receipt p s = Inr (Some r)" "s' = s"
  | current f where "read_intent_receipt p s = Inr None" "read_source_fence s (pf_provider_id p) (pf_source p) = Inr current"
    "pf_expected p = (case current of None \<Rightarrow> 0 | Some f \<Rightarrow> sf_revision f)" "int (Suc (pf_expected p)) \<le> i64_max"
    "pf_expected p < u64_max" "next_fence p current (Suc (pf_expected p)) = Inr f"
    "r = \<lparr>ir_operation_id = pf_operation_id p, ir_fence = f, ir_provider_erasure_verified = False\<rparr>"
    "fs_fences s' = upsert_fence \<lparr>fw_provider_id = pf_provider_id p, fw_source = pf_source p,
      fw_revision = Suc (pf_expected p), fw_fence = f\<rparr> (fs_fences s)"
    "fs_intents s' = fs_intents s @ [\<lparr>iw_provider_id = pf_provider_id p, iw_operation_id = pf_operation_id p,
      iw_request_json = pf_request_json p, iw_receipt = r\<rparr>]"
proof -
  note run = assms [unfolded apply_transition_def]
  obtain standing where st: "read_intent_receipt p s = Inr standing"
    using run by (elim res_bind_Inr_E) blast
  show thesis
  proof (cases standing)
    case (Some r')
    then show ?thesis using run st by (intro that(1)) (simp_all add: res_bind_Inr_iff)
  next
    case None
    note run = run [unfolded st None res_bind_simps option.case]
    obtain current where cur: "read_source_fence s (pf_provider_id p) (pf_source p) = Inr current"
      using run by (elim res_bind_Inr_E) blast
    note run = run [unfolded cur res_bind_simps]
    have cas: "(case current of None \<Rightarrow> 0 | Some f \<Rightarrow> sf_revision f) = pf_expected p"
      using run by (auto simp: res_bind_Inr_iff split: if_splits)
    note run = run [unfolded cas]
    have bound: "pf_expected p < u64_max" "int (Suc (pf_expected p)) \<le> i64_max"
      using run by (auto simp: res_bind_Inr_iff next_revision_def split: if_splits)
    then have "next_revision (pf_expected p) = Inr (Suc (pf_expected p))" by (simp add: next_revision_def)
    note run = run [unfolded this res_bind_simps]
    obtain f where f: "next_fence p current (Suc (pf_expected p)) = Inr f"
      using run by (auto simp: res_bind_Inr_iff)
    show ?thesis
      using run by (intro that(2) [OF _ cur cas [symmetric] bound(2,1) f])
        (auto simp: f st None res_bind_Inr_iff Let_def)
  qed
qed

lemma read_source_fence_some:
  assumes "read_source_fence s provider source = Inr (Some f)"
  shows "sf_provider_id f = provider" "sf_original_source_sha256 f = source" "known_mode (sf_mode f)"
    "label_ok (sf_authority_ref f)" "labels_ok (sf_deleted_source_revision f)" "labels_ok (sf_admitted_source_revision f)"
  using assms by (auto simp: read_source_fence_def Let_def res_bind_Inr_iff split: option.splits if_splits)

lemma next_fence_cases:
  assumes "next_fence p current n = Inr f"
  obtains f0 where "pf_admit_revision p" "current = Some f0" "sf_mode f0 = ''remove_influence''" "pf_revision p \<noteq> None"
    "f = f0\<lparr>sf_admitted_source_revision := pf_revision p, sf_revision := n,
      sf_authority_ref := pf_authority_ref p, sf_accepted_at := pf_accepted_at p\<rparr>"
  | "\<not> pf_admit_revision p" "f = \<lparr>sf_provider_id = pf_provider_id p, sf_original_source_sha256 = pf_source p,
      sf_revision = n, sf_mode = strengthened_mode (pf_mode p) (map_option sf_mode current),
      sf_deleted_source_revision = pf_revision p, sf_admitted_source_revision = None,
      sf_authority_ref = pf_authority_ref p, sf_accepted_at = pf_accepted_at p\<rparr>"
proof (cases "pf_admit_revision p")
  case True
  with assms that(1) show ?thesis by (simp add: next_fence_def split: option.splits if_splits)
next
  case False
  with assms that(2) show ?thesis by (simp add: next_fence_def)
qed

lemma strengthened_facts [simp]:
  "known_mode (strengthened_mode m previous)" "strengthened_mode ''hard_delete'' previous = ''hard_delete''"
  "strengthened_mode ''anonymize'' previous \<noteq> ''remove_influence''"
  by (simp_all add: known_mode_def strengthened_mode_def)

lemma next_fence_facts:
  assumes "prepared_ok p" "read_source_fence s (pf_provider_id p) (pf_source p) = Inr current"
    "next_fence p current n = Inr f" "int n \<le> i64_max"
  shows "fence_valid f \<and>
    receipt_binds p n \<lparr>ir_operation_id = pf_operation_id p, ir_fence = f, ir_provider_erasure_verified = False\<rparr> \<and>
    sf_revision f = n"
  using assms(3)
proof (cases rule: next_fence_cases)
  case (1 f0)
  note old = read_source_fence_some [OF assms(2) [unfolded 1(2)]]
  from assms(1,4) old show ?thesis
    by (simp add: 1 fence_valid_def prepared_ok_def receipt_binds_def)
next
  case 2
  from assms(1,4) show ?thesis
    by (simp add: 2 fence_valid_def prepared_ok_def receipt_binds_def labels_ok_def [of None])
qed

text \<open>A receipt that was returned can be read back.\<close>
lemma applied_receipt_read:
  assumes "prepared_ok p" "apply_transition p check s = Inr (r, s')"
  shows "read_intent_receipt p s' = Inr (Some r)"
  using assms(2)
proof (cases rule: apply_transition_cases)
  case (2 current f)
  have "find (\<lambda>w. iw_provider_id w = pf_provider_id p \<and> iw_operation_id w = pf_operation_id p) (fs_intents s) = None"
    using 2(1) by (auto simp: read_intent_receipt_def res_bind_Inr_iff Let_def split: option.splits if_splits)
  then have found: "find (\<lambda>w. iw_provider_id w = pf_provider_id p \<and> iw_operation_id w = pf_operation_id p) (fs_intents s') =
      Some \<lparr>iw_provider_id = pf_provider_id p, iw_operation_id = pf_operation_id p,
        iw_request_json = pf_request_json p, iw_receipt = r\<rparr>"
    by (simp add: 2(9) find_append)
  note facts = next_fence_facts [OF assms(1) 2(2,6,4)]
  have valid: "fence_valid (ir_fence r)" "label_ok (ir_operation_id r)" using facts assms(1) by (simp_all add: 2(7) prepared_ok_def)
  have "length (pf_request_json p) \<le> MAX_JSON_BYTES"
    using assms(1) intent_request_json_length by (simp add: prepared_ok_def)
  moreover have "next_revision (pf_expected p) = Inr (Suc (pf_expected p))" using 2(4,5) by (simp add: next_revision_def)
  moreover have "receipt_binds p (Suc (pf_expected p)) r" using facts by (simp add: 2(7))
  ultimately show ?thesis
    using intent_receipt_json_length [OF valid] valid(1)
    by (simp add: read_intent_receipt_def found Let_def fence_valid_def res_bind_Inr_iff)
qed simp

lemma apply_transition_prefix:
  assumes "apply_transition p check s = Inr (r, s')"
  shows "prefix (fs_intents s) (fs_intents s')"
  using assms by (cases rule: apply_transition_cases) simp_all

lemma find_prefix: "find P xs = Some x \<Longrightarrow> prefix xs ys \<Longrightarrow> find P ys = Some x"
  by (auto simp: prefix_def find_append)

lemma read_intent_receipt_prefix:
  assumes "read_intent_receipt p s = Inr (Some r)" "prefix (fs_intents s) (fs_intents s')"
  shows "read_intent_receipt p s' = Inr (Some r)"
proof -
  let ?P = "\<lambda>w. iw_provider_id w = pf_provider_id p \<and> iw_operation_id w = pf_operation_id p"
  obtain w where w: "find ?P (fs_intents s) = Some w"
    using assms(1) by (cases "find ?P (fs_intents s)") (simp_all add: read_intent_receipt_def)
  show ?thesis using assms(1) unfolding read_intent_receipt_def w find_prefix [OF w assms(2)] .
qed

subsection \<open>Sequences of operations\<close>

datatype fence_event = DeletionIntent deletion_intent | RevisionAdmission revision_admission
  | BoundedIntent intent_control deletion_intent

fun run_fence :: "fence_event \<Rightarrow> fence_store \<Rightarrow> fence_store" where
  "run_fence (DeletionIntent q) s = snd (record_provider_source_deletion_intent q s)"
| "run_fence (RevisionAdmission q) s = snd (admit_provider_source_revision q s)"
| "run_fence (BoundedIntent c q) s = snd (record_intent_bounded c q s)"

text \<open>Every operation leaves the store alone or applies one prepared transition.\<close>
lemma transition_cases:
  "snd (transition_provider_source_fence a b c d e f g h i s) = s \<or>
    (\<exists>p check r. apply_transition p check s = Inr (r, snd (transition_provider_source_fence a b c d e f g h i s)))"
proof (cases "prepared_new a b c d e f g h i")
  case (Inr p)
  then show ?thesis
    by (cases "apply_transition p (\<lambda>_. Inr ()) s")
      (auto simp: transition_provider_source_fence_def with_transaction_def)
qed (simp add: transition_provider_source_fence_def)

lemma commit_intent_ok: "commit_intent c p s = Inr (r, s') \<Longrightarrow> \<exists>check. apply_transition p check s = Inr (r, s')"
  unfolding commit_intent_def by (elim res_bind_Inr_E) (auto simp: res_bind_Inr_iff split: prod.splits)

lemma record_intent_bounded_cases:
  assumes "record_intent_bounded c q s = (res, s')"
  obtains e where "res = Inl e" "s' = s"
  | p check r where "res = Inr r" "prepared_deletion q = Inr p" "apply_transition p check s = Inr (r, s')"
proof -
  let ?pre = "res_bind (ic_check c 0) (\<lambda>_. res_bind (prepared_deletion q) (\<lambda>p.
      res_bind (ic_lock c) (\<lambda>_. res_bind (ic_check c 1) (\<lambda>_. Inr p))))"
  show thesis
  proof (cases ?pre)
    case (Inl e)
    then have "res = Inl e" "s' = s" using assms by (simp_all add: record_intent_bounded_def)
    then show ?thesis by (rule that(1))
  next
    case (Inr p)
    then have prep: "prepared_deletion q = Inr p" by (auto simp: res_bind_Inr_iff)
    show ?thesis
    proof (cases "res_bind (ic_busy_timeout c) (\<lambda>_. commit_intent c p s)")
      case (Inl e)
      have "\<exists>e'. res_bind (ic_check c 7) (\<lambda>_. with_busy_budget ''record_provider_source_deletion_intent''
          (ic_busy_timeout c) (ic_restore c) (Inl e)) = (Inl e' :: intent_receipt journal_result)"
        by (cases "ic_check c 7"; cases "ic_busy_timeout c"; cases "ic_restore c") (auto simp: with_busy_budget_def)
      then show ?thesis using assms Inl \<open>?pre = Inr p\<close> that(1) by (auto simp: record_intent_bounded_def)
    next
      case committed: (Inr x)
      obtain r s1 where x: "x = (r, s1)" by (cases x)
      then have "commit_intent c p s = Inr (r, s1)" using committed by (auto simp: res_bind_Inr_iff)
      moreover have "res = Inr r" "s1 = s'" using assms \<open>?pre = Inr p\<close> committed by (simp_all add: record_intent_bounded_def x)
      ultimately show ?thesis using commit_intent_ok that(2) prep by blast
    qed
  qed
qed

lemma run_fence_cases: "run_fence e s = s \<or> (\<exists>p check r. apply_transition p check s = Inr (r, run_fence e s))"
proof (cases e)
  case (BoundedIntent c q)
  show ?thesis
    using record_intent_bounded_cases [OF surjective_pairing, of c q s] unfolding BoundedIntent run_fence.simps by metis
qed (use transition_cases in \<open>simp_all add: record_provider_source_deletion_intent_def admit_provider_source_revision_def\<close>)

lemma run_fence_prefix: "prefix (fs_intents s) (fs_intents (fold run_fence es s))"
proof (induction es arbitrary: s)
  case (Cons e es)
  have "prefix (fs_intents s) (fs_intents (run_fence e s))"
    using run_fence_cases [of e s] apply_transition_prefix by (metis prefix_order.refl)
  with Cons.IH [of "run_fence e s"] show ?case by (simp add: prefix_order.trans)
qed simp

text \<open>C37. A retry of a deletion intent is answered by the receipt of the first call, whatever
  deletions, readmissions and bounded intents have moved the fence since, and changes nothing.
  The clock of the retry does not matter.\<close>
theorem fence_retry_same_receipt:
  assumes "record_provider_source_deletion_intent q s = (Inr r, s1)"
    "di_expected_fence_revision q \<le> u64_max" "is_i64 (di_accepted_at q)" "s2 = fold run_fence events s1"
  shows "record_provider_source_deletion_intent (q\<lparr>di_accepted_at := later\<rparr>) s2 = (Inr r, s2)"
proof -
  let ?mode = "case di_mode q of RemoveInfluence \<Rightarrow> ''remove_influence'' | HardDelete \<Rightarrow> ''hard_delete'' | Anonymize \<Rightarrow> ''anonymize''"
  obtain p where p: "prepared_new (di_operation_id q) (di_provider_id q) (di_original_source_sha256 q)
      (di_expected_fence_revision q) ?mode (di_source_revision q) (di_authority_ref q) (di_accepted_at q) False = Inr p"
    and run: "apply_transition p (\<lambda>_. Inr ()) s = Inr (r, s1)"
    using assms(1)
    by (auto simp: record_provider_source_deletion_intent_def transition_provider_source_fence_def with_transaction_ok
        split: sum.splits)
  have "known_mode ?mode" by (cases "di_mode q") (simp_all add: known_mode_def)
  then have "prepared_ok p" using prepared_new_ok [OF p] assms(2,3) by blast
  then have "read_intent_receipt p s2 = Inr (Some r)"
    using read_intent_receipt_prefix [OF applied_receipt_read [OF _ run] run_fence_prefix] assms(4) by blast
  moreover have "read_intent_receipt (p\<lparr>pf_accepted_at := later\<rparr>) s2 = read_intent_receipt p s2"
    by (simp add: read_intent_receipt_def receipt_binds_def split: option.split)
  ultimately have "apply_transition (p\<lparr>pf_accepted_at := later\<rparr>) (\<lambda>_. Inr ()) s2 = Inr (r, s2)"
    by (simp add: apply_transition_def)
  moreover have "prepared_new (di_operation_id q) (di_provider_id q) (di_original_source_sha256 q)
      (di_expected_fence_revision q) ?mode (di_source_revision q) (di_authority_ref q) later False =
      Inr (p\<lparr>pf_accepted_at := later\<rparr>)"
    using p by (auto simp: prepared_new_def res_bind_Inr_iff)
  ultimately show ?thesis
    by (simp add: record_provider_source_deletion_intent_def transition_provider_source_fence_def with_transaction_ok)
qed

text \<open>C39. A bounded deletion intent reports a failure only if it has changed nothing, whatever
  the clock, the token, the mutex and SQLite answer; when it reports a receipt the transition is
  committed and the receipt can be read back.\<close>
theorem bounded_intent_commit_truth:
  assumes "record_intent_bounded c q s = (res, s')" "di_expected_fence_revision q \<le> u64_max" "is_i64 (di_accepted_at q)"
  shows "case res of Inl e \<Rightarrow> s' = s
    | Inr r \<Rightarrow> \<exists>p. prepared_deletion q = Inr p \<and> read_intent_receipt p s' = Inr (Some r)"
  using assms(1)
proof (cases rule: record_intent_bounded_cases)
  case (2 p check r)
  have "known_mode (deletion_mode_as_wire (di_mode q))" by (cases "di_mode q") (simp_all add: known_mode_def)
  then have "prepared_ok p"
    using prepared_new_ok 2(2) assms(2,3) unfolding prepared_deletion_def by blast
  from applied_receipt_read [OF this 2(3)] 2(1,2) show ?thesis by simp
qed simp

subsection \<open>Fences only move forward\<close>

definition fence_at :: "fence_store \<Rightarrow> string \<Rightarrow> string \<Rightarrow> source_fence option" where
  "fence_at s provider source =
    map_option fw_fence (find (\<lambda>w. fw_provider_id w = provider \<and> fw_source w = source) (fs_fences s))"

definition mode_strength :: "source_fence \<Rightarrow> nat" where
  "mode_strength f = (if sf_mode f = ''hard_delete'' then 2 else if sf_mode f = ''anonymize'' then 1 else 0)"

definition fence_advances :: "source_fence \<Rightarrow> source_fence \<Rightarrow> bool" where
  "fence_advances f f' \<longleftrightarrow> (f' = f \<or> sf_revision f < sf_revision f') \<and> mode_strength f \<le> mode_strength f'"

lemma fence_advances_refl [simp]: "fence_advances f f"
  by (simp add: fence_advances_def)

lemma fence_advances_trans: "fence_advances f g \<Longrightarrow> fence_advances g h \<Longrightarrow> fence_advances f h"
  by (auto simp: fence_advances_def)

lemma fence_at_upsert:
  assumes "fs_fences s' = upsert_fence row (fs_fences s)"
  shows "fence_at s' provider source =
    (if fw_provider_id row = provider \<and> fw_source row = source then Some (fw_fence row) else fence_at s provider source)"
proof (cases "\<exists>w\<in>set (fs_fences s). fw_provider_id w = fw_provider_id row \<and> fw_source w = fw_source row")
  case True
  let ?P = "\<lambda>w. fw_provider_id w = fw_provider_id row \<and> fw_source w = fw_source row"
  let ?Q = "\<lambda>w. fw_provider_id w = provider \<and> fw_source w = source"
  have new: "fs_fences s' = update_where ?P (\<lambda>_. row) (fs_fences s)" using True by (simp add: assms upsert_fence_def)
  have upd: "find ?Q (fs_fences s') = map_option (\<lambda>w. if ?P w then row else w) (find ?Q (fs_fences s))"
    unfolding new by (rule find_update_where) auto
  show ?thesis
  proof (cases "find ?Q (fs_fences s)")
    case None
    then have "\<not> ?Q row" using True by (auto simp: find_None_iff)
    with None upd show ?thesis by (auto simp: fence_at_def)
  next
    case (Some w)
    then have "?Q w" using find_Some_mem [OF Some] by simp
    with Some upd show ?thesis by (auto simp: fence_at_def)
  qed
next
  case False
  then have "find (\<lambda>w. fw_provider_id w = fw_provider_id row \<and> fw_source w = fw_source row) (fs_fences s) = None"
    by (simp add: find_None_iff)
  moreover have "upsert_fence row (fs_fences s) = fs_fences s @ [row]" unfolding upsert_fence_def by (rule if_not_P [OF False])
  ultimately show ?thesis by (auto simp: fence_at_def assms find_append split: option.splits)
qed

lemma strengthened_strength:
  "mode_strength f \<le> mode_strength (g\<lparr>sf_mode := strengthened_mode m (Some (sf_mode f))\<rparr>)"
  by (simp add: mode_strength_def strengthened_mode_def)

lemma next_fence_strength:
  assumes "next_fence p (Some f) n = Inr f'"
  shows "mode_strength f \<le> mode_strength f'"
  using assms by (cases rule: next_fence_cases) (simp_all add: mode_strength_def strengthened_mode_def)

lemma apply_transition_advances:
  assumes "apply_transition p check s = Inr (r, s')" "fence_at s provider source = Some f"
  shows "\<exists>f'. fence_at s' provider source = Some f' \<and> fence_advances f f'"
  using assms(1)
proof (cases rule: apply_transition_cases)
  case 1
  then show ?thesis using assms(2) by simp
next
  case (2 current g)
  note at = fence_at_upsert [OF 2(8), of provider source]
  show ?thesis
  proof (cases "pf_provider_id p = provider \<and> pf_source p = source")
    case True
    have current: "current = Some f"
      using 2(2) assms(2) True
      by (auto simp: read_source_fence_def fence_at_def Let_def res_bind_Inr_iff split: option.splits if_splits)
    have "sf_revision g = Suc (pf_expected p)" using 2(6) by (cases rule: next_fence_cases) simp_all
    moreover have "mode_strength f \<le> mode_strength g" using next_fence_strength 2(6) current by simp
    ultimately show ?thesis using at True 2(3) current by (simp add: fence_advances_def)
  next
    case False
    then show ?thesis using at assms(2) by auto
  qed
qed

text \<open>C38. Over any sequence of deletion intents, readmissions and bounded intents the fence of a
  source stays, its revision grows whenever it changes, and its mode is never weakened: once a
  source was anonymized or hard-deleted, every revision of it stays blocked.\<close>
theorem fence_never_weakened:
  assumes "fence_at s provider source = Some f"
  shows "\<exists>f'. fence_at (fold run_fence events s) provider source = Some f' \<and>
    (f' = f \<or> sf_revision f < sf_revision f') \<and> mode_strength f \<le> mode_strength f' \<and>
    (sf_mode f \<in> {''anonymize'', ''hard_delete''} \<longrightarrow> blocks_revision f' revision)"
proof -
  have "\<exists>f'. fence_at (fold run_fence events s) provider source = Some f' \<and> fence_advances f f'"
    using assms
  proof (induction events arbitrary: s f)
    case (Cons e es)
    obtain g where g: "fence_at (run_fence e s) provider source = Some g" "fence_advances f g"
      using run_fence_cases [of e s] apply_transition_advances [OF _ Cons.prems] Cons.prems
      by (metis fence_advances_refl)
    from Cons.IH [OF g(1)] g(2) show ?case by (auto intro: fence_advances_trans)
  qed simp
  then obtain f' where f': "fence_at (fold run_fence events s) provider source = Some f'" "fence_advances f f'" by blast
  have "sf_mode f \<in> {''anonymize'', ''hard_delete''} \<longrightarrow> blocks_revision f' revision"
  proof
    assume "sf_mode f \<in> {''anonymize'', ''hard_delete''}"
    then have "0 < mode_strength f" by (auto simp: mode_strength_def)
    then have "0 < mode_strength f'" using f'(2) by (simp add: fence_advances_def)
    then show "blocks_revision f' revision" by (auto simp: mode_strength_def blocks_revision_def split: if_splits)
  qed
  with f' show ?thesis unfolding fence_advances_def by blast
qed

subsection \<open>Examples\<close>

definition sample_intent :: deletion_intent where
  "sample_intent = \<lparr>di_operation_id = ''op'', di_provider_id = ''ncm'', di_original_source_sha256 = sample_digest,
    di_expected_fence_revision = 0, di_mode = HardDelete, di_source_revision = None, di_authority_ref = ''auth'',
    di_accepted_at = 5\<rparr>"

definition sample_fence :: source_fence where
  "sample_fence = \<lparr>sf_provider_id = ''ncm'', sf_original_source_sha256 = sample_digest, sf_revision = 1,
    sf_mode = ''hard_delete'', sf_deleted_source_revision = None, sf_admitted_source_revision = None,
    sf_authority_ref = ''auth'', sf_accepted_at = 5\<rparr>"

definition sample_fences :: fence_store where
  "sample_fences = \<lparr>fs_fences = [\<lparr>fw_provider_id = ''ncm'', fw_source = sample_digest, fw_revision = 1,
    fw_fence = sample_fence\<rparr>], fs_intents = []\<rparr>"

lemma sample_labels: "validate_fence_label ''op'' f = Inr ()" "validate_fence_label ''ncm'' f = Inr ()"
  "validate_fence_label ''auth'' f = Inr ()"
proof -
  have "label_ok ''op''" "label_ok ''ncm''" "label_ok ''auth''" by code_simp+
  then show "validate_fence_label ''op'' f = Inr ()" "validate_fence_label ''ncm'' f = Inr ()"
    "validate_fence_label ''auth'' f = Inr ()" by simp_all
qed

lemma sample_sha256: "require_sha256 sample_digest f = Inr ()"
  by simp

lemma sample_intent_runs:
  "\<exists>r s1. record_provider_source_deletion_intent sample_intent \<lparr>fs_fences = [], fs_intents = []\<rparr> = (Inr r, s1)"
  by (simp add: record_provider_source_deletion_intent_def transition_provider_source_fence_def sample_intent_def
      prepared_new_def sample_labels sample_sha256 with_transaction_def apply_transition_def read_intent_receipt_def
      read_source_fence_def next_revision_def u64_max_def i64_max_def next_fence_def Let_def)

theorem fence_retry_same_receipt_witness:
  "\<exists>r s1 s2. record_provider_source_deletion_intent sample_intent \<lparr>fs_fences = [], fs_intents = []\<rparr> = (Inr r, s1) \<and>
    s2 = run_fence (DeletionIntent (sample_intent\<lparr>di_operation_id := ''other'', di_expected_fence_revision := 1\<rparr>)) s1 \<and>
    record_provider_source_deletion_intent (sample_intent\<lparr>di_accepted_at := 9\<rparr>) s2 = (Inr r, s2)"
proof -
  obtain r s1 where run: "record_provider_source_deletion_intent sample_intent \<lparr>fs_fences = [], fs_intents = []\<rparr> = (Inr r, s1)"
    using sample_intent_runs by blast
  let ?e = "DeletionIntent (sample_intent\<lparr>di_operation_id := ''other'', di_expected_fence_revision := 1\<rparr>)"
  have "record_provider_source_deletion_intent (sample_intent\<lparr>di_accepted_at := 9\<rparr>) (run_fence ?e s1) = (Inr r, run_fence ?e s1)"
    by (rule fence_retry_same_receipt [OF run, of _ "[?e]"])
      (simp_all add: sample_intent_def is_i64_def i64_min_def i64_max_def)
  with run show ?thesis by blast
qed

theorem bounded_intent_commit_truth_witness:
  "snd (record_intent_bounded \<lparr>ic_check = (\<lambda>i. if i = 6 then Inl (OperationCancelled ''intent'') else Inr ()), ic_lock = Inr (),
      ic_busy_timeout = Inr (), ic_begin = Inr (), ic_commit = Inr (), ic_restore = Inr ()\<rparr> sample_intent sample_fences) =
    sample_fences"
proof -
  let ?run = "record_intent_bounded \<lparr>ic_check = (\<lambda>i. if i = 6 then Inl (OperationCancelled ''intent'') else Inr ()),
    ic_lock = Inr (), ic_busy_timeout = Inr (), ic_begin = Inr (), ic_commit = Inr (), ic_restore = Inr ()\<rparr>
    sample_intent sample_fences"
  have "case fst ?run of Inl e \<Rightarrow> snd ?run = sample_fences
      | Inr r \<Rightarrow> \<exists>p. prepared_deletion sample_intent = Inr p \<and> read_intent_receipt p (snd ?run) = Inr (Some r)"
    by (rule bounded_intent_commit_truth [OF surjective_pairing])
      (simp_all add: sample_intent_def is_i64_def i64_min_def i64_max_def)
  moreover have "\<exists>e. fst ?run = Inl e"
    by (simp add: record_intent_bounded_def commit_intent_def with_busy_budget_def res_bind_def split: sum.splits)
  ultimately show ?thesis by auto
qed

theorem fence_never_weakened_witness:
  "\<exists>f'. fence_at (fold run_fence [DeletionIntent sample_intent] sample_fences) ''ncm'' sample_digest = Some f' \<and>
    blocks_revision f' (Some ''rev'')"
proof -
  have "fence_at sample_fences ''ncm'' sample_digest = Some sample_fence" by (simp add: fence_at_def sample_fences_def)
  from fence_never_weakened [OF this, of "[DeletionIntent sample_intent]" "Some ''rev''"] show ?thesis
    by (auto simp: sample_fence_def)
qed

end
