(* ===== verification/Journal_Append.thy ===== *)
theory Journal_Append
  imports Journal_Store
begin

text \<open>
  Admission (\<^verbatim>\<open>sqlite/append.rs\<close>): appending an admitted observation, recording a withheld or a
  non-message source event, and reading the replay position and the queue pressure.  The
  read-only part of an append is \<^verbatim>\<open>append_precheck\<close>, the writing part \<^verbatim>\<open>append_rows\<close>.  The wall
  clock of the port methods that take none is an argument.
\<close>

subsection \<open>Queue pressure\<close>

record queue_pressure =
  qp_queue_items :: nat
  qp_queue_bytes :: nat
  qp_oldest_admitted_at :: "micros option"
  qp_max_queue_items :: nat
  qp_max_queue_bytes :: nat

definition would_exceed :: "queue_pressure \<Rightarrow> nat \<Rightarrow> bool" where
  "would_exceed p additional \<longleftrightarrow> qp_max_queue_items p \<le> qp_queue_items p \<or>
    qp_max_queue_bytes p < sat_add_u64 (qp_queue_bytes p) additional"

definition lane_of :: "provider_target \<Rightarrow> lane" where
  "lane_of t = (pt_provider_id t, pt_registration_revision t)"

definition lane_validate :: "lane \<Rightarrow> unit journal_result" where
  "lane_validate l = (if snd l = 0 then Inl (ValueOutOfRange ''registration_revision'') else Inr ())"

text \<open>The join of the delivery table with the journal on the idempotency key.\<close>
definition joined :: "journal_store \<Rightarrow> (delivery_row \<times> journal_row) list" where
  "joined s = concat (map (\<lambda>d. case find_journal_key s (d_idempotency_key d) of
      None \<Rightarrow> [] | Some j \<Rightarrow> [(d, j)]) (st_delivery s))"

definition queued :: "lane \<Rightarrow> delivery_row \<Rightarrow> bool" where
  "queued l d \<longleftrightarrow> d_lane d = l \<and> d_state d \<in> {Pending, Leased, delivery_state.EffectUnknown}"

definition queued_bytes :: "lane \<Rightarrow> delivery_row list \<Rightarrow> nat" where
  "queued_bytes l ds = sum_list (map d_queue_bytes (filter (queued l) ds))"

definition read_pressure :: "journal_store \<Rightarrow> lane \<Rightarrow> retention_policy \<Rightarrow> queue_pressure journal_result" where
  "read_pressure s l policy =
    res_bind (sql_i64 (snd l) ''registration_revision'') (\<lambda>_.
    let rows = filter (\<lambda>(d, j). queued l d) (joined s);
        bytes = sum_list (map (d_queue_bytes \<circ> fst) rows)
    in if i64_max < int bytes then Inl (Storage ''integer overflow'')
       else Inr \<lparr>qp_queue_items = length rows, qp_queue_bytes = bytes,
         qp_oldest_admitted_at =
           (if rows = [] then None else Some (Min (set (map (j_admitted_at \<circ> snd) rows)))),
         qp_max_queue_items = rp_max_queue_items policy,
         qp_max_queue_bytes = rp_max_queue_bytes policy\<rparr>)"

definition lane_pressure :: "journal_store \<Rightarrow> lane \<Rightarrow> retention_policy \<Rightarrow> queue_pressure journal_result" where
  "lane_pressure s l policy = res_bind (lane_validate l) (\<lambda>_. read_pressure s l policy)"

subsection \<open>Cursors\<close>

definition upsert_cursor :: "cursor_row \<Rightarrow> cursor_row list \<Rightarrow> cursor_row list" where
  "upsert_cursor x rows =
    (if \<exists>c\<in>set rows. rc_stream c = rc_stream x then
       update_where (\<lambda>c. rc_stream c = rc_stream x) (\<lambda>c.
         if rc_last_admitted_sequence c \<le> rc_last_admitted_sequence x then x
         else c\<lparr>rc_updated_at := rc_updated_at x\<rparr>) rows
     else rows @ [x])"

definition upsert_withheld_cursor :: "cursor_row \<Rightarrow> cursor_row list \<Rightarrow> cursor_row list" where
  "upsert_withheld_cursor x rows =
    (if \<exists>c\<in>set rows. rc_stream c = rc_stream x then
       update_where (\<lambda>c. rc_stream c = rc_stream x \<and>
         rc_last_admitted_sequence c < rc_last_admitted_sequence x) (\<lambda>c. x) rows
     else rows @ [x])"

definition upsert_target_cursor :: "target_cursor_row \<Rightarrow> target_cursor_row list \<Rightarrow> target_cursor_row list" where
  "upsert_target_cursor x rows =
    (if \<exists>c\<in>set rows. tc_lane c = tc_lane x \<and> tc_stream c = tc_stream x then
       update_where (\<lambda>c. tc_lane c = tc_lane x \<and> tc_stream c = tc_stream x \<and>
         tc_last_admitted_sequence c \<le> tc_last_admitted_sequence x) (\<lambda>c. x) rows
     else rows @ [x])"

subsection \<open>Append\<close>

datatype append_outcome =
    Appended string nat
  | DuplicateIdempotencyKey string delivery_state
  | DuplicateSourceEvent string string
  | SourceSequenceConflict string nat
  | RejectedSourceSequenceRegression nat
  | RejectedWithheldSource nat
  | RejectedDeadlineExpired micros
  | RejectedCapacity nat nat

definition ao_stream_columns :: "sha \<Rightarrow> admitted_observation \<Rightarrow> stream_columns" where
  "ao_stream_columns sha a = (authority_as_wire (sr_source_authority (ao_source a)),
    exact_scope_sha256 sha (ao_exact_scope a), sr_source_stream (ao_source a))"

definition non_message_at :: "journal_store \<Rightarrow> stream_columns \<Rightarrow> nat \<Rightarrow> bool" where
  "non_message_at s stream seq \<longleftrightarrow>
    (\<exists>r\<in>set (st_non_message s). nm_stream r = stream \<and> nm_source_sequence r = seq)"

definition withheld_at :: "journal_store \<Rightarrow> stream_columns \<Rightarrow> nat \<Rightarrow> bool" where
  "withheld_at s stream seq \<longleftrightarrow> (\<exists>w\<in>set (st_withheld s). w_stream w = stream \<and> w_sequence w = seq)"

definition journalled_at :: "journal_store \<Rightarrow> stream_columns \<Rightarrow> nat \<Rightarrow> bool" where
  "journalled_at s stream seq \<longleftrightarrow> (\<exists>j\<in>set (st_journal s). j_stream j = stream \<and> j_sequence j = seq)"

definition reject_non_message :: "journal_store \<Rightarrow> stream_columns \<Rightarrow> nat \<Rightarrow> unit journal_result" where
  "reject_non_message s stream seq =
    (if non_message_at s stream seq then Inl (SourceCheckpointConflict seq) else Inr ())"

definition select_by_key :: "journal_store \<Rightarrow> string \<Rightarrow> (string \<times> string \<times> delivery_state) option" where
  "select_by_key s key = (case find_journal_key s key of None \<Rightarrow> None
    | Some j \<Rightarrow> (case find_delivery_key s key of None \<Rightarrow> None
      | Some d \<Rightarrow> Some (j_observation_id j, j_payload_sha256 j, d_state d)))"

definition select_target_cursor :: "journal_store \<Rightarrow> lane \<Rightarrow> stream_columns \<Rightarrow> target_cursor_row option" where
  "select_target_cursor s l stream =
    find (\<lambda>c. tc_lane c = l \<and> tc_stream c = stream) (st_target_cursors s)"

definition is_regression :: "target_cursor_row \<Rightarrow> settlement_receipt \<Rightarrow> bool" where
  "is_regression c src \<longleftrightarrow>
    (let same_event = tc_last_source_event_id c = sr_source_event_id src \<and>
           tc_last_source_event_revision c = sr_source_event_revision src
     in sr_source_sequence src < tc_last_admitted_sequence c \<or>
        sr_source_sequence src = tc_last_admitted_sequence c \<and> \<not> same_event)"

definition append_capacity ::
  "sha \<Rightarrow> retention_policy \<Rightarrow> admitted_observation \<Rightarrow> journal_store \<Rightarrow> append_outcome option journal_result" where
  "append_capacity sha policy a s =
    res_bind (read_pressure s (lane_of (ao_target a)) policy) (\<lambda>p.
    Inr (if would_exceed p (ao_queue_bytes a) then Some (RejectedCapacity (qp_queue_items p) (qp_queue_bytes p))
         else None))"

definition append_source_checks ::
  "sha \<Rightarrow> retention_policy \<Rightarrow> admitted_observation \<Rightarrow> journal_store \<Rightarrow> append_outcome option journal_result" where
  "append_source_checks sha policy a s =
    (let stream = ao_stream_columns sha a; l = lane_of (ao_target a); src = ao_source a;
         seq = sr_source_sequence src
     in case find (\<lambda>j. j_source_index j = (l, stream, seq)) (st_journal s) of
       Some j \<Rightarrow>
         if sr_source_event_id (j_source j) = sr_source_event_id src \<and>
            sr_source_event_revision (j_source j) = sr_source_event_revision src
         then res_bind (observation_id_parse (j_observation_id j)) (\<lambda>obs.
           res_bind (parse_digest ''idempotency_key'' (j_idempotency_key j)) (\<lambda>key.
           Inr (Some (DuplicateSourceEvent obs key))))
         else Inr (Some (SourceSequenceConflict (sr_source_event_id (j_source j))
           (sr_source_event_revision (j_source j))))
     | None \<Rightarrow>
         if withheld_at s stream seq then Inr (Some (RejectedWithheldSource seq))
         else case select_target_cursor s l stream of
           Some c \<Rightarrow> if is_regression c src
             then Inr (Some (RejectedSourceSequenceRegression (tc_last_admitted_sequence c)))
             else append_capacity sha policy a s
         | None \<Rightarrow> append_capacity sha policy a s)"

definition append_precheck ::
  "sha \<Rightarrow> retention_policy \<Rightarrow> admitted_observation \<Rightarrow> micros \<Rightarrow> journal_store \<Rightarrow>
    append_outcome option journal_result" where
  "append_precheck sha policy a now s =
    res_bind (admitted_validate sha a) (\<lambda>_.
    if ao_deadline a \<le> now then Inr (Some (RejectedDeadlineExpired (ao_deadline a)))
    else
      res_bind (sql_i64 (sr_source_sequence (ao_source a)) ''source_sequence'') (\<lambda>seq.
      res_bind (sql_i64 (pt_registration_revision (ao_target a)) ''registration_revision'') (\<lambda>_.
      res_bind (reject_non_message s (ao_stream_columns sha a) seq) (\<lambda>_.
      case select_by_key s (ao_idempotency_key a) of
        Some (obs, payload, state) \<Rightarrow>
          if payload \<noteq> sha256 (ao_payload a) then Inl (Corrupt JOURNAL ''payload_sha256'')
          else res_bind (observation_id_parse obs) (\<lambda>obs. Inr (Some (DuplicateIdempotencyKey obs state)))
      | None \<Rightarrow> append_source_checks sha policy a s))))"

definition journal_row_of :: "sha \<Rightarrow> admitted_observation \<Rightarrow> journal_row" where
  "journal_row_of sha a =
    \<lparr>j_idempotency_key = ao_idempotency_key a, j_observation_id = ao_observation_id a,
     j_exact_scope_sha256 = exact_scope_sha256 sha (ao_exact_scope a), j_target = ao_target a,
     j_source = ao_source a, j_exact_scope = ao_exact_scope a,
     j_observation_kind = ao_observation_kind a, j_payload_contract = contract_id (ao_payload a),
     j_payload_sha256 = sha256 (ao_payload a), j_payload_bytes = Some (payload_bytes (ao_payload a)),
     j_payload_byte_len = length (payload_bytes (ao_payload a)),
     j_extensions_digest = ao_extensions_digest a, j_extensions = encode_extensions (ao_extensions a),
     j_provenance_origin = ao_provenance_origin a, j_provenance_sha256 = ao_provenance_sha256 a,
     j_privacy = ao_privacy a, j_occurred_at = ao_occurred_at a, j_admitted_at = ao_admitted_at a,
     j_deadline = ao_deadline a, j_request_id = ao_request_id a,
     j_envelope_sha256 = ao_envelope_sha256 a, j_sanitization = Some (ao_sanitization a),
     j_content_forgotten_at = None\<rparr>"

definition delivery_row_of :: "sha \<Rightarrow> admitted_observation \<Rightarrow> micros \<Rightarrow> delivery_row" where
  "delivery_row_of sha a now =
    \<lparr>d_idempotency_key = ao_idempotency_key a, d_observation_id = ao_observation_id a,
     d_provider_id = pt_provider_id (ao_target a),
     d_registration_revision = pt_registration_revision (ao_target a),
     d_last_provider_instance_id = None, d_state = Pending, d_attempt_number = 0,
     d_next_attempt_at = ao_admitted_at a, d_lease_owner = None, d_lease_id = None,
     d_lease_expires_at = None, d_last_outcome = None, d_last_committed_effect = None,
     d_last_receipt_id = None, d_source_sequence = sr_source_sequence (ao_source a),
     d_exact_scope_sha256 = exact_scope_sha256 sha (ao_exact_scope a),
     d_queue_bytes = max (ao_queue_bytes a) 1, d_updated_at = now\<rparr>"

definition settled_cursor ::
  "stream_columns \<Rightarrow> settlement_receipt \<Rightarrow> replay_disposition \<Rightarrow> micros \<Rightarrow> cursor_row" where
  "settled_cursor stream src verdict now =
    \<lparr>rc_stream = stream, rc_last_admitted_sequence = sr_source_sequence src,
     rc_last_source_event_id = sr_source_event_id src,
     rc_last_source_event_revision = decimal (sr_source_event_revision src),
     rc_last_settlement_proof_sha256 = Some (sr_settlement_proof_sha256 src),
     rc_last_disposition = verdict, rc_updated_at = now\<rparr>"

text \<open>\<^verbatim>\<open>INSERT OR IGNORE\<close> skips a row that breaks a key, a unique index or a CHECK.\<close>
definition journal_conflict :: "journal_store \<Rightarrow> journal_row \<Rightarrow> bool" where
  "journal_conflict s row \<longleftrightarrow> \<not> content_ok row \<or>
    (\<exists>j\<in>set (st_journal s). j_idempotency_key j = j_idempotency_key row \<or>
      j_observation_id j = j_observation_id row \<or> j_source_index j = j_source_index row)"

definition insert_delivery :: "delivery_row \<Rightarrow> delivery_row list \<Rightarrow> delivery_row list" where
  "insert_delivery row rows =
    (if \<exists>d\<in>set rows. d_idempotency_key d = d_idempotency_key row \<or>
          d_observation_id d = d_observation_id row
     then rows else rows @ [row])"

definition append_rows :: "sha \<Rightarrow> admitted_observation \<Rightarrow> micros \<Rightarrow> append_outcome tx" where
  "append_rows sha a now s =
    (let src = ao_source a; row = journal_row_of sha a in
     res_bind (sql_i64 (sr_source_event_revision src) ''source_event_revision'') (\<lambda>revision.
     res_bind (sql_i64 (j_payload_byte_len row) ''payload_byte_len'') (\<lambda>_.
     if journal_conflict s row then
       (case find_journal_observation s (ao_observation_id a) of
          Some holder \<Rightarrow> Inl (InvalidObservationId (''observation id '' @ ao_observation_id a @
            '' is already held by idempotency key '' @ j_idempotency_key holder))
        | None \<Rightarrow> Inl (Corrupt JOURNAL ''idempotency_key''))
     else res_bind (sql_i64 (max (ao_queue_bytes a) 1) ''queue_bytes'') (\<lambda>_.
       Inr (Appended (ao_observation_id a) (sr_source_sequence src),
         s\<lparr>st_journal := st_journal s @ [row],
           st_delivery := insert_delivery (delivery_row_of sha a now) (st_delivery s),
           st_cursors := upsert_cursor (settled_cursor (ao_stream_columns sha a) src Admitted now)
             (st_cursors s),
           st_target_cursors := upsert_target_cursor
             \<lparr>tc_lane = lane_of (ao_target a), tc_stream = ao_stream_columns sha a,
              tc_last_admitted_sequence = sr_source_sequence src,
              tc_last_source_event_id = sr_source_event_id src,
              tc_last_source_event_revision = revision, tc_updated_at = now\<rparr>
             (st_target_cursors s)\<rparr>)))))"

definition append_admitted_in_transaction ::
  "sha \<Rightarrow> retention_policy \<Rightarrow> admitted_observation \<Rightarrow> micros \<Rightarrow> append_outcome tx" where
  "append_admitted_in_transaction sha policy a now s =
    res_bind (append_precheck sha policy a now s) (\<lambda>stop.
    case stop of Some outcome \<Rightarrow> Inr (outcome, s) | None \<Rightarrow> append_rows sha a now s)"

definition append_admitted_at ::
  "sha \<Rightarrow> retention_policy \<Rightarrow> admitted_observation \<Rightarrow> micros \<Rightarrow> journal_store \<Rightarrow>
    append_outcome journal_result \<times> journal_store" where
  "append_admitted_at sha policy a now =
    with_transaction (append_admitted_in_transaction sha policy a now)"

definition append_admitted ::
  "sha \<Rightarrow> retention_policy \<Rightarrow> admitted_observation \<Rightarrow> journal_store \<Rightarrow>
    append_outcome journal_result \<times> journal_store" where
  "append_admitted sha policy a = append_admitted_at sha policy a (ao_admitted_at a)"

subsection \<open>Withheld and non-message events\<close>

definition withheld_key :: "withheld_row \<Rightarrow> stream_columns \<times> nat \<times> string" where
  "withheld_key w = (w_stream w, w_sequence w, wa_receipt_id (w_admission w))"

definition insert_withheld :: "withheld_row \<Rightarrow> withheld_row list \<Rightarrow> withheld_row list" where
  "insert_withheld x rows = (if \<exists>w\<in>set rows. withheld_key w = withheld_key x then rows else rows @ [x])"

definition record_withheld_in_transaction :: "withheld_admission \<Rightarrow> micros \<Rightarrow> unit tx" where
  "record_withheld_in_transaction w now s =
    (let row = \<lparr>w_admission = w, w_withheld_at = now\<rparr> in
     res_bind (reject_non_message s (w_stream row) (w_sequence row)) (\<lambda>_.
     Inr ((), s\<lparr>st_withheld := insert_withheld row (st_withheld s),
       st_cursors := upsert_withheld_cursor
         \<lparr>rc_stream = w_stream row, rc_last_admitted_sequence = w_sequence row,
          rc_last_source_event_id = wa_source_event_id w,
          rc_last_source_event_revision = wa_source_event_revision w,
          rc_last_settlement_proof_sha256 = None, rc_last_disposition = Withheld,
          rc_updated_at = now\<rparr> (st_cursors s)\<rparr>)))"

definition record_withheld_at ::
  "sha \<Rightarrow> withheld_admission \<Rightarrow> micros \<Rightarrow> journal_store \<Rightarrow> unit journal_result \<times> journal_store" where
  "record_withheld_at sha w now s =
    (case first_error [withheld_validate sha w,
        res_bind (sql_i64 (wa_source_sequence w) ''source_sequence'') (\<lambda>_. Inr ())] of
      Inl e \<Rightarrow> (Inl e, s)
    | Inr _ \<Rightarrow> with_transaction (record_withheld_in_transaction w now) s)"

definition stream_columns_of :: "stream_key \<Rightarrow> stream_columns" where
  "stream_columns_of k = (authority_as_wire (sk_source_authority k), sk_exact_scope_sha256 k,
    sk_source_stream k)"

definition select_cursor :: "journal_store \<Rightarrow> stream_columns \<Rightarrow> cursor_row option" where
  "select_cursor s stream = find (\<lambda>c. rc_stream c = stream) (st_cursors s)"

definition select_non_message :: "journal_store \<Rightarrow> stream_columns \<Rightarrow> nat \<Rightarrow> non_message_row option" where
  "select_non_message s stream seq =
    find (\<lambda>r. nm_stream r = stream \<and> nm_source_sequence r = seq) (st_non_message s)"

definition non_message_row_of :: "stream_columns \<Rightarrow> settlement_receipt \<Rightarrow> non_message_row" where
  "non_message_row_of stream src =
    \<lparr>nm_stream = stream, nm_source_sequence = sr_source_sequence src,
     nm_source_event_id = sr_source_event_id src,
     nm_source_event_revision = decimal (sr_source_event_revision src),
     nm_settlement_proof_sha256 = sr_settlement_proof_sha256 src\<rparr>"

definition record_non_message_in_transaction ::
  "stream_columns \<Rightarrow> settlement_receipt \<Rightarrow> micros \<Rightarrow> unit tx" where
  "record_non_message_in_transaction stream src now s =
    (let seq = sr_source_sequence src; revision = decimal (sr_source_event_revision src);
         conflict = Inl (SourceCheckpointConflict seq)
     in if journalled_at s stream seq \<or> withheld_at s stream seq then conflict
     else case select_non_message s stream seq of
       Some r \<Rightarrow>
         if nm_source_event_id r = sr_source_event_id src \<and> nm_source_event_revision r = revision \<and>
            nm_settlement_proof_sha256 r = sr_settlement_proof_sha256 src
         then Inr ((), s) else conflict
     | None \<Rightarrow>
         if (case select_cursor s stream of None \<Rightarrow> False | Some c \<Rightarrow> seq \<le> rc_last_admitted_sequence c)
         then conflict
         else Inr ((), s\<lparr>
           st_non_message := st_non_message s @ [non_message_row_of stream src],
           st_cursors := upsert_cursor (settled_cursor stream src NonMessage now) (st_cursors s)\<rparr>))"

definition record_non_message ::
  "stream_key \<Rightarrow> settlement_receipt \<Rightarrow> micros \<Rightarrow> journal_store \<Rightarrow> unit journal_result \<times> journal_store" where
  "record_non_message k src now s =
    (case first_error [stream_key_validate k, settlement_receipt_validate src,
        if sk_source_authority k \<noteq> sr_source_authority src \<or> sk_source_stream k \<noteq> sr_source_stream src
          then Inl (UnsettledSource ''source_stream'') else Inr (),
        res_bind (sql_i64 (sr_source_sequence src) ''source_sequence'') (\<lambda>_. Inr ())] of
      Inl e \<Rightarrow> (Inl e, s)
    | Inr _ \<Rightarrow> with_transaction (record_non_message_in_transaction (stream_columns_of k) src now) s)"

subsection \<open>Reading the replay position\<close>

text \<open>The durable decisions at one position: event identity, revision text, settlement proof.\<close>
definition replay_evidence ::
  "journal_store \<Rightarrow> stream_columns \<Rightarrow> nat \<Rightarrow> (string \<times> string \<times> string option) list" where
  "replay_evidence s stream seq =
    map (\<lambda>j. (sr_source_event_id (j_source j), decimal (sr_source_event_revision (j_source j)), None))
      (filter (\<lambda>j. j_stream j = stream \<and> j_sequence j = seq) (st_journal s)) @
    map (\<lambda>w. (wa_source_event_id (w_admission w), wa_source_event_revision (w_admission w), None))
      (filter (\<lambda>w. w_stream w = stream \<and> w_sequence w = seq) (st_withheld s)) @
    map (\<lambda>r. (nm_source_event_id r, nm_source_event_revision r, Some (nm_settlement_proof_sha256 r)))
      (filter (\<lambda>r. nm_stream r = stream \<and> nm_source_sequence r = seq) (st_non_message s)) @
    map (\<lambda>c. (rc_last_source_event_id c, rc_last_source_event_revision c, rc_last_settlement_proof_sha256 c))
      (filter (\<lambda>c. rc_stream c = stream \<and> rc_last_admitted_sequence c = seq) (st_cursors s))"

fun check_evidence ::
  "nat \<Rightarrow> string \<Rightarrow> string \<Rightarrow> (string \<times> string \<times> string option) list \<Rightarrow> unit journal_result" where
  "check_evidence seq event revision [] = Inr ()"
| "check_evidence seq event revision ((e, r, proof) # rest) =
    res_bind (case proof of None \<Rightarrow> Inr () | Some p \<Rightarrow> require_sha256 p ''settlement_proof_sha256'') (\<lambda>_.
    if e \<noteq> event \<or> r \<noteq> revision then Inl (SourceCheckpointConflict seq)
    else check_evidence seq event revision rest)"

definition validate_replay_identity ::
  "journal_store \<Rightarrow> stream_key \<Rightarrow> nat \<Rightarrow> string \<Rightarrow> nat \<Rightarrow> unit journal_result" where
  "validate_replay_identity s k seq event revision =
    res_bind (stream_key_validate k) (\<lambda>_.
    res_bind (sql_i64 seq ''source_sequence'') (\<lambda>_.
    let rows = replay_evidence s (stream_columns_of k) seq in
    res_bind (check_evidence seq event (decimal revision) rows) (\<lambda>_.
    if rows = [] then Inl (SourceCheckpointConflict seq) else Inr ())))"

text \<open>\<^verbatim>\<open>str::parse::<u64>\<close>: an optional plus sign, then decimal digits within range.\<close>
fun digits_value :: "nat \<Rightarrow> string \<Rightarrow> nat option" where
  "digits_value acc [] = Some acc"
| "digits_value acc (c # cs) =
    (if is_ascii_digit c \<and> acc * 10 + (of_char c - 48) \<le> u64_max
     then digits_value (acc * 10 + (of_char c - 48)) cs else None)"

definition parse_u64 :: "string \<Rightarrow> nat option" where
  "parse_u64 t = (let digits = (case t of CHR ''+'' # cs \<Rightarrow> cs | _ \<Rightarrow> t)
    in if digits = [] then None else digits_value 0 digits)"

definition checkpoint_corrupt :: "cursor_row \<Rightarrow> bool" where
  "checkpoint_corrupt c \<longleftrightarrow> rc_last_disposition c = NonMessage \<and>
    (rc_last_source_event_id c = [] \<or> parse_u64 (rc_last_source_event_revision c) = None \<or>
     \<not> (case rc_last_settlement_proof_sha256 c of None \<Rightarrow> False | Some p \<Rightarrow> is_sha256 p))"

definition replay_cursor :: "journal_store \<Rightarrow> stream_key \<Rightarrow> cursor_row option journal_result" where
  "replay_cursor s k =
    res_bind (stream_key_validate k) (\<lambda>_.
    case select_cursor s (stream_columns_of k) of
      None \<Rightarrow> Inr None
    | Some c \<Rightarrow> if checkpoint_corrupt c then Inl (Corrupt REPLAY_CURSOR ''non_message_checkpoint'')
        else Inr (Some c))"

definition maximum_replay_sequence ::
  "journal_store \<Rightarrow> source_authority \<Rightarrow> string \<Rightarrow> nat option journal_result" where
  "maximum_replay_sequence s auth stream =
    (let rows = filter (\<lambda>c. fst (rc_stream c) = authority_as_wire auth \<and>
           snd (snd (rc_stream c)) = stream) (st_cursors s)
     in if \<exists>c\<in>set rows. checkpoint_corrupt c
        then Inl (Corrupt REPLAY_CURSOR ''non_message_checkpoint'')
        else Inr (if rows = [] then None else Some (Max (set (map rc_last_admitted_sequence rows)))))"

subsection \<open>Joins and pressure\<close>

definition journal_of :: "journal_store \<Rightarrow> delivery_row \<Rightarrow> journal_row" where
  "journal_of s d = the (find_journal_key s (d_idempotency_key d))"

lemma journal_of_belongs:
  assumes "store_ok s" "d \<in> set (st_delivery s)"
  shows "belongs_to (journal_of s d) d" "journal_of s d \<in> set (st_journal s)"
  using store_ok_journal_of [OF assms] by (auto simp: journal_of_def)

lemma joined_map:
  assumes "store_ok s"
  shows "joined s = map (\<lambda>d. (d, journal_of s d)) (st_delivery s)"
proof -
  have "map (\<lambda>d. case find_journal_key s (d_idempotency_key d) of None \<Rightarrow> [] | Some j \<Rightarrow> [(d, j)]) (st_delivery s)
      = map (\<lambda>d. [(d, journal_of s d)]) (st_delivery s)"
    using store_ok_journal_of [OF assms] by (fastforce simp: journal_of_def)
  then show ?thesis unfolding joined_def by (simp only: concat_map_singleton)
qed

lemma set_joined:
  "store_ok s \<Longrightarrow> (d, j) \<in> set (joined s) \<longleftrightarrow> d \<in> set (st_delivery s) \<and> j = journal_of s d"
  by (auto simp: joined_map)

lemma read_pressure_ok:
  assumes "store_ok s" "read_pressure s l policy = Inr p"
  shows "qp_queue_items p = count_where (queued l) (st_delivery s)"
    "qp_queue_bytes p = queued_bytes l (st_delivery s)"
    "int (queued_bytes l (st_delivery s)) \<le> i64_max"
    "qp_max_queue_items p = rp_max_queue_items policy" "qp_max_queue_bytes p = rp_max_queue_bytes policy"
proof -
  have rows: "map fst (filter (\<lambda>(d, j). queued l d) (joined s)) = filter (queued l) (st_delivery s)"
    by (simp add: joined_map [OF assms(1)] filter_map comp_def)
  have len: "length (filter (\<lambda>(d, j). queued l d) (joined s)) = count_where (queued l) (st_delivery s)"
    using arg_cong [OF rows, of length] by (simp add: count_where_def)
  have bytes: "sum_list (map (d_queue_bytes \<circ> fst) (filter (\<lambda>(d, j). queued l d) (joined s)))
      = queued_bytes l (st_delivery s)"
    using arg_cong [OF rows, of "\<lambda>ds. sum_list (map d_queue_bytes ds)"]
    by (simp add: queued_bytes_def comp_def)
  show "qp_queue_items p = count_where (queued l) (st_delivery s)"
    "qp_queue_bytes p = queued_bytes l (st_delivery s)"
    "int (queued_bytes l (st_delivery s)) \<le> i64_max"
    "qp_max_queue_items p = rp_max_queue_items policy" "qp_max_queue_bytes p = rp_max_queue_bytes policy"
    using assms(2)
    by (auto simp: read_pressure_def res_bind_Inr_iff Let_def len bytes split: if_splits)
qed

subsection \<open>What an append writes\<close>

lemma sql_i64_ok: "sql_i64 v f = Inr w \<longleftrightarrow> w = v \<and> int v \<le> i64_max"
  by (auto simp: sql_i64_def)

lemma append_stopped_or_rows:
  assumes "append_admitted_in_transaction sha policy a now s = Inr (out, s')"
  shows "append_precheck sha policy a now s = Inr (Some out) \<and> s' = s \<or>
    append_precheck sha policy a now s = Inr None \<and> append_rows sha a now s = Inr (out, s')"
  using assms by (auto simp: append_admitted_in_transaction_def res_bind_Inr_iff split: option.splits)

lemma append_precheck_not_appended: "append_precheck sha policy a now s \<noteq> Inr (Some (Appended x n))"
  by (auto simp: append_precheck_def append_source_checks_def append_capacity_def res_bind_Inr_iff
      Let_def split: if_splits option.splits)

lemma delivery_absent:
  assumes "store_ok s" "\<not> journal_conflict s row" "d \<in> set (st_delivery s)"
  shows "d_idempotency_key d \<noteq> j_idempotency_key row" "d_observation_id d \<noteq> j_observation_id row"
  using journal_of_belongs [OF assms(1,3)] assms(2) by (auto simp: journal_conflict_def belongs_to_def)

lemma append_rows_effect:
  assumes "store_ok s" "append_rows sha a now s = Inr (out, s')"
  shows "out = Appended (ao_observation_id a) (sr_source_sequence (ao_source a))"
    "\<not> journal_conflict s (journal_row_of sha a)"
    "st_journal s' = st_journal s @ [journal_row_of sha a]"
    "st_delivery s' = st_delivery s @ [delivery_row_of sha a now]"
    "int (ao_queue_bytes a) \<le> i64_max"
proof -
  have eq: "insert_delivery (delivery_row_of sha a now) (st_delivery s)
      = st_delivery s @ [delivery_row_of sha a now]" if "\<not> journal_conflict s (journal_row_of sha a)"
    using delivery_absent [OF assms(1) that]
    by (auto simp: insert_delivery_def delivery_row_of_def journal_row_of_def)
  show "out = Appended (ao_observation_id a) (sr_source_sequence (ao_source a))"
    "\<not> journal_conflict s (journal_row_of sha a)"
    "st_journal s' = st_journal s @ [journal_row_of sha a]"
    "st_delivery s' = st_delivery s @ [delivery_row_of sha a now]"
    "int (ao_queue_bytes a) \<le> i64_max"
    using assms(2) eq
    by (auto simp: append_rows_def Let_def res_bind_Inr_iff sql_i64_ok split: if_splits option.splits)
qed

lemma append_rows_frame:
  assumes "append_rows sha a now s = Inr (out, s')"
  shows "st_receipts s' = st_receipts s" "st_refusals s' = st_refusals s" "st_orphans s' = st_orphans s"
    "st_non_message s' = st_non_message s" "st_withheld s' = st_withheld s"
    "st_recovery s' = st_recovery s"
  using assms by (auto simp: append_rows_def Let_def res_bind_Inr_iff split: if_splits option.splits)

lemma upsert_cursor_streams:
  "distinct (map rc_stream rows) \<Longrightarrow> distinct (map rc_stream (upsert_cursor x rows))"
  "distinct (map rc_stream rows) \<Longrightarrow> distinct (map rc_stream (upsert_withheld_cursor x rows))"
proof -
  have "map rc_stream (update_where (\<lambda>c. rc_stream c = rc_stream x) (\<lambda>c.
      if rc_last_admitted_sequence c \<le> rc_last_admitted_sequence x then x
      else c\<lparr>rc_updated_at := rc_updated_at x\<rparr>) rows) = map rc_stream rows"
    "map rc_stream (update_where (\<lambda>c. rc_stream c = rc_stream x \<and>
      rc_last_admitted_sequence c < rc_last_admitted_sequence x) (\<lambda>c. x) rows) = map rc_stream rows"
    by (auto simp: update_where_def)
  then show "distinct (map rc_stream rows) \<Longrightarrow> distinct (map rc_stream (upsert_cursor x rows))"
    "distinct (map rc_stream rows) \<Longrightarrow> distinct (map rc_stream (upsert_withheld_cursor x rows))"
    by (auto simp: upsert_cursor_def upsert_withheld_cursor_def)
qed

lemma upsert_target_cursor_keys:
  assumes "distinct (map (\<lambda>c. (tc_lane c, tc_stream c)) rows)"
  shows "distinct (map (\<lambda>c. (tc_lane c, tc_stream c)) (upsert_target_cursor x rows))"
proof -
  have "map (\<lambda>c. (tc_lane c, tc_stream c)) (update_where (\<lambda>c. tc_lane c = tc_lane x \<and> tc_stream c = tc_stream x \<and>
      tc_last_admitted_sequence c \<le> tc_last_admitted_sequence x) (\<lambda>c. x) rows)
      = map (\<lambda>c. (tc_lane c, tc_stream c)) rows"
    by (auto simp: update_where_def)
  with assms show ?thesis by (auto simp: upsert_target_cursor_def)
qed

lemma append_rows_cursors:
  assumes "append_rows sha a now s = Inr (out, s')"
  shows "\<exists>x y. st_cursors s' = upsert_cursor x (st_cursors s) \<and>
    st_target_cursors s' = upsert_target_cursor y (st_target_cursors s)"
  using assms by (auto simp: append_rows_def Let_def res_bind_Inr_iff split: if_splits option.splits)

lemma new_rows_ok:
  "belongs_to (journal_row_of sha a) (delivery_row_of sha a now)"
  "delivery_ok (delivery_row_of sha a now)" "fresh_delivery (delivery_row_of sha a now)"
  "j_stream (journal_row_of sha a) = ao_stream_columns sha a"
  "j_sequence (journal_row_of sha a) = sr_source_sequence (ao_source a)"
  "j_lane (journal_row_of sha a) = lane_of (ao_target a)"
  by (simp_all add: belongs_to_def delivery_ok_def fresh_delivery_def journal_row_of_def
      delivery_row_of_def d_lane_def j_lane_def j_sequence_def j_stream_def ao_stream_columns_def
      lane_of_def)

lemma append_rows_store_ok:
  assumes "store_ok s" "append_rows sha a now s = Inr (out, s')"
  shows "store_ok s'"
proof -
  note eff = append_rows_effect [OF assms]
  obtain x y where cur: "st_cursors s' = upsert_cursor x (st_cursors s)"
    "st_target_cursors s' = upsert_target_cursor y (st_target_cursors s)"
    using append_rows_cursors [OF assms(2)] by blast
  have "content_ok (journal_row_of sha a)" using eff(2) by (simp add: journal_conflict_def)
  with assms(1) eff(2) show ?thesis
    unfolding store_ok_def eff(3,4) append_rows_frame [OF assms(2)] cur
    by (auto simp: journal_conflict_def new_rows_ok intro!: list_all2_appendI upsert_cursor_streams upsert_target_cursor_keys)
qed

lemma append_keeps_store_ok:
  "store_ok s \<Longrightarrow> store_ok (snd (append_admitted_at sha policy a now s))"
  unfolding append_admitted_at_def
  by (rule with_transaction_keeps) (auto dest: append_stopped_or_rows append_rows_store_ok)

lemma append_grows:
  assumes "store_ok s"
  shows "grows (st_delivery s) (st_delivery (snd (append_admitted_at sha policy a now s)))"
  unfolding append_admitted_at_def
proof (rule with_transaction_keeps [where P = "\<lambda>s'. grows (st_delivery s) (st_delivery s')"])
  fix out s'
  assume run: "append_admitted_in_transaction sha policy a now s = Inr (out, s')"
  have "grows (st_delivery s) (st_delivery s @ [delivery_row_of sha a now])"
    unfolding grows_def
    by (intro exI [of _ "st_delivery s"] exI [of _ "[delivery_row_of sha a now]"])
      (simp add: list_all2_refl new_rows_ok)
  then show "grows (st_delivery s) (st_delivery s')"
    using append_stopped_or_rows [OF run] append_rows_effect(4) [OF assms] by auto
qed simp

subsection \<open>Bounded queue\<close>

lemma admitted_queue_bytes_pos:
  assumes "admitted_validate sha a = Inr ()"
  shows "0 < ao_queue_bytes a"
  using admitted_validateD(1) [OF assms]
  by (auto simp: canonical_payload_validate_def ao_queue_bytes_def sat_add_u64_def u64_max_def
      first_error_ok split: if_splits)

lemma append_precheck_None:
  assumes "append_precheck sha policy a now s = Inr None"
  shows "admitted_validate sha a = Inr ()" "now < ao_deadline a"
    "\<not> non_message_at s (ao_stream_columns sha a) (sr_source_sequence (ao_source a))"
    "\<not> withheld_at s (ao_stream_columns sha a) (sr_source_sequence (ao_source a))"
    "\<exists>p. read_pressure s (lane_of (ao_target a)) policy = Inr p \<and> \<not> would_exceed p (ao_queue_bytes a)"
    "\<And>c. select_target_cursor s (lane_of (ao_target a)) (ao_stream_columns sha a) = Some c \<Longrightarrow>
      tc_last_admitted_sequence c \<le> sr_source_sequence (ao_source a)"
  using assms
  by (auto simp: append_precheck_def append_source_checks_def append_capacity_def res_bind_Inr_iff
      Let_def reject_non_message_def sql_i64_ok is_regression_def split: if_splits option.splits)

text \<open>C18. The delivery queue of a provider registration is bounded: whenever an append is
  accepted, the rows of that registration that are not yet terminal, the new one included,
  number at most the policy's item limit and weigh at most its byte limit.\<close>
theorem append_within_capacity:
  assumes "store_ok s" "append_admitted_at sha policy a now s = (Inr (Appended obs seq), s')"
  shows "count_where (queued (lane_of (ao_target a))) (st_delivery s') \<le> rp_max_queue_items policy \<and>
    queued_bytes (lane_of (ao_target a)) (st_delivery s') \<le> rp_max_queue_bytes policy"
proof -
  let ?l = "lane_of (ao_target a)"
  have run: "append_admitted_in_transaction sha policy a now s = Inr (Appended obs seq, s')"
    using assms(2) by (simp add: append_admitted_at_def with_transaction_ok)
  have pre: "append_precheck sha policy a now s = Inr None" and rows: "append_rows sha a now s = Inr (Appended obs seq, s')"
    using append_stopped_or_rows [OF run] append_precheck_not_appended by blast+
  obtain p where p: "read_pressure s ?l policy = Inr p" "\<not> would_exceed p (ao_queue_bytes a)"
    using append_precheck_None(5) [OF pre] by blast
  note eff = append_rows_effect [OF assms(1) rows] and press = read_pressure_ok [OF assms(1) p(1)]
  have pos: "0 < ao_queue_bytes a" by (rule admitted_queue_bytes_pos [OF append_precheck_None(1) [OF pre]])
  have q: "queued ?l (delivery_row_of sha a now)"
    by (simp add: queued_def delivery_row_of_def d_lane_def lane_of_def)
  have "count_where (queued ?l) (st_delivery s') = qp_queue_items p + 1"
    "queued_bytes ?l (st_delivery s') = qp_queue_bytes p + ao_queue_bytes a"
    using q pos by (simp_all add: eff(4) press(1,2) count_where_def queued_bytes_def delivery_row_of_def)
  moreover have "sat_add_u64 (qp_queue_bytes p) (ao_queue_bytes a) = qp_queue_bytes p + ao_queue_bytes a"
    using press(2,3) eff(5) by (simp add: sat_add_u64_def i64_max_def u64_max_def)
  ultimately show ?thesis
    using p(2) press(4,5) by (simp add: would_exceed_def)
qed

text \<open>Admission is idempotent: once an observation is appended, presenting it again at any
  moment before its deadline reports the row already present, still pending under the same
  observation id, and writes nothing.\<close>
theorem append_idempotent:
  assumes "store_ok s" "append_admitted_at sha policy a now s = (Inr (Appended obs seq), s')"
    and "observation_id_parse (ao_observation_id a) = Inr (ao_observation_id a)"
    and "now' < ao_deadline a"
  shows "append_admitted_at sha policy a now' s' = (Inr (DuplicateIdempotencyKey obs Pending), s')"
proof -
  have run: "append_admitted_in_transaction sha policy a now s = Inr (Appended obs seq, s')"
    using assms(2) by (simp add: append_admitted_at_def with_transaction_ok)
  have pre: "append_precheck sha policy a now s = Inr None" and rows: "append_rows sha a now s = Inr (Appended obs seq, s')"
    using append_stopped_or_rows [OF run] append_precheck_not_appended by blast+
  note eff = append_rows_effect [OF assms(1) rows] and none = append_precheck_None [OF pre]
  have ok: "store_ok s'" by (rule append_rows_store_ok [OF assms(1) rows])
  have "find_journal_key s' (ao_idempotency_key a) = Some (journal_row_of sha a)"
    using find_distinct_key [of j_idempotency_key "st_journal s'" "journal_row_of sha a"] ok eff(3)
    by (simp add: find_journal_key_def store_ok_def journal_row_of_def)
  moreover have "find_delivery_key s' (ao_idempotency_key a) = Some (delivery_row_of sha a now)"
    using find_distinct_key [of d_idempotency_key "st_delivery s'" "delivery_row_of sha a now"]
      store_ok_delivery_keys [OF ok] eff(4)
    by (simp add: find_delivery_key_def delivery_row_of_def)
  ultimately have "select_by_key s' (ao_idempotency_key a)
      = Some (ao_observation_id a, sha256 (ao_payload a), Pending)"
    by (simp add: select_by_key_def journal_row_of_def delivery_row_of_def)
  moreover have "obs = ao_observation_id a" using eff(1) by simp
  moreover have "\<not> non_message_at s' (ao_stream_columns sha a) (sr_source_sequence (ao_source a))"
    using none(3) append_rows_frame(4) [OF rows] by (simp add: non_message_at_def)
  moreover have "int (sr_source_sequence (ao_source a)) \<le> i64_max" "int (pt_registration_revision (ao_target a)) \<le> i64_max"
    using pre none(2) by (auto simp: append_precheck_def res_bind_Inr_iff sql_i64_ok split: if_splits)
  ultimately show ?thesis
    using none(1) assms(3,4)
    by (simp add: append_admitted_at_def with_transaction_ok append_admitted_in_transaction_def
        append_precheck_def sql_i64_def reject_non_message_def)
qed

definition sample_store :: journal_store where
  "sample_store = snd (append_admitted_at zero_sha sample_policy (sample_admitted 1 ''a'') 1 empty_store)"

lemma sample_append:
  "append_admitted_at zero_sha sample_policy (sample_admitted 1 ''a'') 1 empty_store =
    (Inr (Appended (ao_observation_id (sample_admitted 1 ''a'')) 1), sample_store)"
proof -
  have "admitted_validate zero_sha (sample_admitted 1 ''a'') = Inr ()"
    by (rule sample_admitted_valid) (simp_all add: MAX_PAYLOAD_BYTES_def decimal.simps)
  then have "append_precheck zero_sha sample_policy (sample_admitted 1 ''a'') 1 empty_store = Inr None"
    by (simp add: append_precheck_def append_source_checks_def append_capacity_def select_by_key_def
        find_journal_key_def reject_non_message_def non_message_at_def withheld_at_def
        select_target_cursor_def read_pressure_def joined_def empty_store_def sql_i64_def i64_max_def
        would_exceed_def sample_policy_def sat_add_u64_def ao_queue_bytes_def u64_max_def
        sample_admitted_def sample_source_def lane_of_def Let_def)
  moreover have "\<exists>out s'. append_rows zero_sha (sample_admitted 1 ''a'') 1 empty_store = Inr (out, s')"
    by (simp add: append_rows_def journal_conflict_def content_ok_def journal_row_of_def
        empty_store_def sql_i64_def i64_max_def ao_queue_bytes_def sat_add_u64_def u64_max_def
        sample_admitted_def sample_source_def Let_def)
  moreover have "sr_source_sequence (ao_source (sample_admitted 1 ''a'')) = 1"
    by (simp add: sample_admitted_def sample_source_def)
  ultimately show ?thesis
    using append_rows_effect(1) [OF empty_store_ok, of zero_sha "sample_admitted 1 ''a''" 1]
    by (auto simp: sample_store_def append_admitted_at_def append_admitted_in_transaction_def
        with_transaction_def)
qed

lemma sample_observation_id:
  "observation_id_parse (ao_observation_id (sample_admitted 1 ''a'')) = Inr (ao_observation_id (sample_admitted 1 ''a''))"
  by (simp add: sample_admitted_def decimal.simps observation_id_parse_def is_lower_hex_def
      is_ascii_digit_def)

lemma sample_store_rows:
  "store_ok sample_store"
  "st_journal sample_store = [journal_row_of zero_sha (sample_admitted 1 ''a'')]"
  "st_delivery sample_store = [delivery_row_of zero_sha (sample_admitted 1 ''a'') 1]"
  "st_receipts sample_store = []" "st_refusals sample_store = []" "st_orphans sample_store = []"
  "st_recovery sample_store = []"
proof -
  have run: "append_admitted_in_transaction zero_sha sample_policy (sample_admitted 1 ''a'') 1 empty_store =
      Inr (Appended (ao_observation_id (sample_admitted 1 ''a'')) 1, sample_store)"
    using sample_append by (simp add: append_admitted_at_def with_transaction_ok)
  show "store_ok sample_store"
    using append_keeps_store_ok [OF empty_store_ok, of zero_sha sample_policy "sample_admitted 1 ''a''" 1] sample_append
    by simp
  have rows: "append_rows zero_sha (sample_admitted 1 ''a'') 1 empty_store =
      Inr (Appended (ao_observation_id (sample_admitted 1 ''a'')) 1, sample_store)"
    using append_stopped_or_rows [OF run] append_precheck_not_appended by blast
  show "st_journal sample_store = [journal_row_of zero_sha (sample_admitted 1 ''a'')]"
    "st_delivery sample_store = [delivery_row_of zero_sha (sample_admitted 1 ''a'') 1]"
    using append_rows_effect(3,4) [OF empty_store_ok rows] by (simp_all add: empty_store_def)
  show "st_receipts sample_store = []" "st_refusals sample_store = []" "st_orphans sample_store = []"
    "st_recovery sample_store = []"
    using append_rows_frame [OF rows] by (simp_all add: empty_store_def)
qed

theorem append_within_capacity_witness:
  "count_where (queued (lane_of (ao_target (sample_admitted 1 ''a'')))) (st_delivery sample_store)
      \<le> rp_max_queue_items sample_policy \<and>
    queued_bytes (lane_of (ao_target (sample_admitted 1 ''a''))) (st_delivery sample_store)
      \<le> rp_max_queue_bytes sample_policy"
  by (rule append_within_capacity [OF empty_store_ok sample_append])

theorem append_idempotent_witness:
  "append_admitted_at zero_sha sample_policy (sample_admitted 1 ''a'') 5 sample_store =
    (Inr (DuplicateIdempotencyKey (ao_observation_id (sample_admitted 1 ''a'')) Pending), sample_store)"
  by (rule append_idempotent [OF empty_store_ok sample_append sample_observation_id])
    (simp add: sample_admitted_def)

end
