(* ===== verification/Journal_Watermark.thy ===== *)
theory Journal_Watermark
  imports Journal_Append
begin

text \<open>
  The acknowledged watermark of the recovery record (\<^verbatim>\<open>sqlite/recovery.rs\<close>): how far one
  registration has acknowledged a stream without a gap.  The watermark is advanced inside the
  transaction of an acknowledging receipt and of a recovery assessment, one bounded page at a
  time.  It is shown to be monotone and to be backed by an acknowledging receipt for every row
  it passes.
\<close>

definition ACKNOWLEDGED_GAP_SCAN_ROWS :: nat where
  "ACKNOWLEDGED_GAP_SCAN_ROWS = 8"

definition acknowledging :: "observation_outcome \<Rightarrow> bool" where
  "acknowledging x \<longleftrightarrow> x \<in> {Applied, DuplicateAcknowledged, PartialEffect}"

definition acknowledged_at :: "journal_store \<Rightarrow> string \<Rightarrow> micros option" where
  "acknowledged_at s obs =
    (let times = map dr_finished_at (filter (\<lambda>r. dr_observation_id r = obs \<and> acknowledging (dr_outcome r))
       (st_receipts s))
     in if times = [] then None else Some (Max (set times)))"

definition recovery_row_at :: "journal_store \<Rightarrow> lane \<Rightarrow> stream_columns \<Rightarrow> recovery_row option" where
  "recovery_row_at s l stream = find (\<lambda>r. rv_lane r = l \<and> rv_stream r = stream) (st_recovery s)"

definition watermark :: "journal_store \<Rightarrow> lane \<Rightarrow> stream_columns \<Rightarrow> nat option" where
  "watermark s l stream = Option.bind (recovery_row_at s l stream) rv_acknowledged_sequence"

definition after_watermark :: "nat option \<Rightarrow> nat \<Rightarrow> bool" where
  "after_watermark current n = (case current of None \<Rightarrow> True | Some c \<Rightarrow> c < n)"

definition acknowledged_suffix :: "journal_store \<Rightarrow> lane \<Rightarrow> stream_columns \<Rightarrow> journal_row list" where
  "acknowledged_suffix s l stream =
    takeWhile (\<lambda>j. acknowledged_at s (j_observation_id j) \<noteq> None)
      (select_limit (\<lambda>j. j_lane j = l \<and> j_stream j = stream \<and> after_watermark (watermark s l stream) (j_sequence j))
        j_sequence ACKNOWLEDGED_GAP_SCAN_ROWS (st_journal s))"

definition fresh_recovery_row :: "lane \<Rightarrow> stream_columns \<Rightarrow> micros \<Rightarrow> recovery_row" where
  "fresh_recovery_row l stream now =
    \<lparr>rv_lane = l, rv_stream = stream, rv_acknowledged_sequence = None,
     rv_acknowledged_observation_id = None, rv_acknowledged_at = None,
     rv_implementation_identity_sha256 = None, rv_state_schema_version = None,
     rv_state_generation = None, rv_replay_position_retained = None,
     rv_automatic_repair_attempts = 0, rv_last_defect = None, rv_last_assessment_id = None,
     rv_updated_at = now\<rparr>"

definition acknowledge_row :: "nat \<Rightarrow> string \<Rightarrow> micros \<Rightarrow> recovery_row \<Rightarrow> recovery_row" where
  "acknowledge_row seq obs now r =
    r\<lparr>rv_acknowledged_sequence := Some seq, rv_acknowledged_observation_id := Some obs,
      rv_acknowledged_at := Some now, rv_updated_at := now\<rparr>"

definition advance_acknowledged ::
  "lane \<Rightarrow> stream_columns \<Rightarrow> nat \<Rightarrow> string \<Rightarrow> micros \<Rightarrow> recovery_row list \<Rightarrow> recovery_row list" where
  "advance_acknowledged l stream seq obs now rows =
    (if \<exists>r\<in>set rows. rv_lane r = l \<and> rv_stream r = stream then
       update_where (\<lambda>r. rv_lane r = l \<and> rv_stream r = stream \<and>
         after_watermark (rv_acknowledged_sequence r) seq) (acknowledge_row seq obs now) rows
     else rows @ [acknowledge_row seq obs now (fresh_recovery_row l stream now)])"

definition advance_acknowledged_watermark :: "lane \<Rightarrow> stream_columns \<Rightarrow> journal_store \<Rightarrow> journal_store" where
  "advance_acknowledged_watermark l stream s =
    (let page = acknowledged_suffix s l stream in
     if page = [] then s
     else case acknowledged_at s (j_observation_id (last page)) of
       None \<Rightarrow> s
     | Some finished \<Rightarrow> s\<lparr>st_recovery := advance_acknowledged l stream (j_sequence (last page))
         (j_observation_id (last page)) finished (st_recovery s)\<rparr>)"

text \<open>The record apart from the watermark and the instants: what recovery assessments read and
  write.\<close>
definition repair_part :: "recovery_row \<Rightarrow> recovery_row" where
  "repair_part r = r\<lparr>rv_acknowledged_sequence := None, rv_acknowledged_observation_id := None,
    rv_acknowledged_at := None, rv_updated_at := 0\<rparr>"

definition repair_record :: "journal_store \<Rightarrow> lane \<Rightarrow> stream_columns \<Rightarrow> recovery_row" where
  "repair_record s l stream = repair_part (case recovery_row_at s l stream of
    None \<Rightarrow> fresh_recovery_row l stream 0 | Some r \<Rightarrow> r)"

subsection \<open>Monotonicity\<close>

definition at_least :: "nat option \<Rightarrow> nat option \<Rightarrow> bool" where
  "at_least old new = (case old of None \<Rightarrow> True | Some a \<Rightarrow> (case new of None \<Rightarrow> False | Some b \<Rightarrow> a \<le> b))"

lemma at_least_refl [simp]: "at_least x x"
  by (cases x) (simp_all add: at_least_def)

lemma at_least_trans: "at_least a b \<Longrightarrow> at_least b c \<Longrightarrow> at_least a c"
  by (auto simp: at_least_def split: option.splits)

lemma advance_watermark_frame:
  "st_journal (advance_acknowledged_watermark l stream s) = st_journal s"
  "st_delivery (advance_acknowledged_watermark l stream s) = st_delivery s"
  "st_receipts (advance_acknowledged_watermark l stream s) = st_receipts s"
  "st_refusals (advance_acknowledged_watermark l stream s) = st_refusals s"
  "st_orphans (advance_acknowledged_watermark l stream s) = st_orphans s"
  "st_non_message (advance_acknowledged_watermark l stream s) = st_non_message s"
  "st_cursors (advance_acknowledged_watermark l stream s) = st_cursors s"
  "st_target_cursors (advance_acknowledged_watermark l stream s) = st_target_cursors s"
  "st_withheld (advance_acknowledged_watermark l stream s) = st_withheld s"
  by (simp_all add: advance_acknowledged_watermark_def Let_def split: option.splits)

lemma acknowledge_row_key [simp]:
  "rv_lane (acknowledge_row seq obs now r) = rv_lane r" "rv_stream (acknowledge_row seq obs now r) = rv_stream r"
  "rv_acknowledged_sequence (acknowledge_row seq obs now r) = Some seq"
  by (simp_all add: acknowledge_row_def)

lemma advance_acknowledged_watermark_value:
  "watermark (s\<lparr>st_recovery := advance_acknowledged l stream seq obs now (st_recovery s)\<rparr>) l' stream' =
    (if l' = l \<and> stream' = stream \<and> after_watermark (watermark s l stream) seq then Some seq
     else watermark s l' stream')"
proof (cases "\<exists>r\<in>set (st_recovery s). rv_lane r = l \<and> rv_stream r = stream")
  case True
  then obtain r where r: "find (\<lambda>r. rv_lane r = l \<and> rv_stream r = stream) (st_recovery s) = Some r"
    by (cases "find (\<lambda>r. rv_lane r = l \<and> rv_stream r = stream) (st_recovery s)") (auto simp: find_None_iff)
  show ?thesis
  proof (cases "l' = l \<and> stream' = stream")
    case same: True
    with True r find_Some_mem [OF r] show ?thesis
      by (simp add: watermark_def recovery_row_at_def advance_acknowledged_def find_update_where)
  next
    case False
    then show ?thesis
      using True
      by (cases "find (\<lambda>r. rv_lane r = l' \<and> rv_stream r = stream') (st_recovery s)")
        (auto simp: watermark_def recovery_row_at_def advance_acknowledged_def find_update_where
          dest: find_Some_mem)
  qed
next
  case False
  then have "find (\<lambda>r. rv_lane r = l \<and> rv_stream r = stream) (st_recovery s) = None"
    by (auto simp: find_None_iff)
  with False show ?thesis
    by (auto simp: watermark_def recovery_row_at_def advance_acknowledged_def find_append
        fresh_recovery_row_def after_watermark_def split: option.splits)
qed

lemma watermark_after:
  "watermark (advance_acknowledged_watermark l stream s) l' stream' =
    (if l' = l \<and> stream' = stream \<and> acknowledged_suffix s l stream \<noteq> []
     then Some (j_sequence (last (acknowledged_suffix s l stream))) else watermark s l' stream')"
proof (cases "acknowledged_suffix s l stream = []")
  case False
  let ?j = "last (acknowledged_suffix s l stream)"
  have mem: "?j \<in> set (acknowledged_suffix s l stream)" using False by simp
  then have acked: "acknowledged_at s (j_observation_id ?j) \<noteq> None"
    unfolding acknowledged_suffix_def using set_takeWhileD by fastforce
  have "?j \<in> set (select_limit (\<lambda>j. j_lane j = l \<and> j_stream j = stream \<and>
      after_watermark (watermark s l stream) (j_sequence j)) j_sequence ACKNOWLEDGED_GAP_SCAN_ROWS (st_journal s))"
    using mem unfolding acknowledged_suffix_def by (meson set_takeWhileD)
  then have "after_watermark (watermark s l stream) (j_sequence ?j)"
    using select_limit_subset by fastforce
  with acked False show ?thesis
    by (auto simp: advance_acknowledged_watermark_def Let_def advance_acknowledged_watermark_value)
qed (simp add: advance_acknowledged_watermark_def)

lemma watermark_monotone: "at_least (watermark s l' stream') (watermark (advance_acknowledged_watermark l stream s) l' stream')"
proof (cases "l' = l \<and> stream' = stream \<and> acknowledged_suffix s l stream \<noteq> []")
  case True
  then have "last (acknowledged_suffix s l stream) \<in> set (acknowledged_suffix s l stream)" by simp
  then have "after_watermark (watermark s l stream) (j_sequence (last (acknowledged_suffix s l stream)))"
    unfolding acknowledged_suffix_def
    by (auto dest!: set_takeWhileD simp: select_limit_def dest: in_set_takeD)
  with True show ?thesis
    by (auto simp: watermark_after at_least_def after_watermark_def split: option.splits)
next
  case False
  show ?thesis unfolding watermark_after by (simp only: False if_False at_least_refl)
qed

lemma repair_part_acknowledge [simp]: "repair_part (acknowledge_row seq obs now r) = repair_part r"
  by (simp add: repair_part_def acknowledge_row_def)

lemma advance_keeps_repair [simp]:
  "repair_record (advance_acknowledged_watermark l stream s) l' stream' = repair_record s l' stream'"
proof -
  have "repair_record (s\<lparr>st_recovery := advance_acknowledged l stream seq obs now (st_recovery s)\<rparr>) l' stream' =
      repair_record s l' stream'" for seq obs now
  proof (cases "find (\<lambda>r. rv_lane r = l' \<and> rv_stream r = stream') (st_recovery s)")
    case None
    then have "\<forall>r\<in>set (st_recovery s). rv_lane r = l' \<longrightarrow> rv_stream r \<noteq> stream'" by (auto simp: find_None_iff)
    with None show ?thesis
      by (auto simp: repair_record_def recovery_row_at_def advance_acknowledged_def find_update_where find_append
          fresh_recovery_row_def repair_part_def acknowledge_row_def)
  qed (auto simp: repair_record_def recovery_row_at_def advance_acknowledged_def find_update_where find_append)
  then show ?thesis
    by (auto simp: advance_acknowledged_watermark_def Let_def split: option.splits)
qed

text \<open>A bounded page in sequence order, cut at the first row without an acknowledging receipt,
  has no unacknowledged row below its last position.\<close>
lemma sorted_prefix_complete:
  assumes "sorted_wrt (<) (map (key :: 'a \<Rightarrow> nat) xs)" "takeWhile P (take n xs) \<noteq> []" "x \<in> set xs"
    "key x \<le> key (last (takeWhile P (take n xs)))"
  shows "P x"
  using assms
proof (induction xs arbitrary: n)
  case (Cons y ys)
  then obtain m where m: "n = Suc m" "P y" by (cases n) (auto split: if_splits)
  show ?case
  proof (cases "x = y")
    case False
    then have x: "x \<in> set ys" "key y < key x" using Cons.prems(1,3) by auto
    then have "takeWhile P (take m ys) \<noteq> []" using Cons.prems(4) m by (auto split: if_splits)
    with Cons.IH [of m] Cons.prems x m show ?thesis by auto
  qed (use m in simp)
qed simp

text \<open>Every row of the stream at or below the advanced watermark, and above the previous one,
  carries an acknowledging receipt.\<close>
lemma acknowledged_suffix_complete:
  assumes "store_ok s" "acknowledged_suffix s l stream \<noteq> []" "j \<in> set (st_journal s)" "j_lane j = l"
    "j_stream j = stream" "after_watermark (watermark s l stream) (j_sequence j)"
    "j_sequence j \<le> j_sequence (last (acknowledged_suffix s l stream))"
  shows "acknowledged_at s (j_observation_id j) \<noteq> None"
proof -
  let ?P = "\<lambda>j. j_lane j = l \<and> j_stream j = stream \<and> after_watermark (watermark s l stream) (j_sequence j)"
  let ?xs = "sort_key j_sequence (filter ?P (st_journal s))"
  have "inj_on j_source_index (set (st_journal s))"
    using assms(1) by (simp add: store_ok_def distinct_map)
  then have "inj_on j_sequence (set (filter ?P (st_journal s)))"
    by (auto simp: inj_on_def j_source_index_def)
  moreover have "distinct (st_journal s)" using assms(1) by (simp add: store_ok_def distinct_map)
  ultimately have "distinct (map j_sequence ?xs)" by (simp add: distinct_map)
  then have "sorted_wrt (<) (map j_sequence ?xs)"
    by (simp add: strict_sorted_iff)
  then show ?thesis
    using sorted_prefix_complete [of j_sequence ?xs "\<lambda>j. acknowledged_at s (j_observation_id j) \<noteq> None"
        ACKNOWLEDGED_GAP_SCAN_ROWS j] assms
    by (simp add: acknowledged_suffix_def select_limit_def)
qed

lemma advance_watermark_store_ok:
  assumes "store_ok s"
  shows "store_ok (advance_acknowledged_watermark l stream s)"
proof -
  have "map (\<lambda>r. (rv_lane r, rv_stream r)) (update_where P (acknowledge_row seq obs now) rows) =
      map (\<lambda>r. (rv_lane r, rv_stream r)) rows" for P seq obs now rows
    by (rule map_update_where) simp
  then have "distinct (map (\<lambda>r. (rv_lane r, rv_stream r)) (advance_acknowledged l stream seq obs now (st_recovery s)))"
    for seq obs now
    using assms by (auto simp: advance_acknowledged_def store_ok_def fresh_recovery_row_def)
  with assms show ?thesis
    by (auto simp: advance_acknowledged_watermark_def Let_def store_ok_def split: option.splits)
qed

text \<open>C27. The acknowledged watermark is sound and monotone: advancing it never lowers any
  watermark, and every journalled row of that registration and stream between the old and the
  new position has a receipt in which the provider acknowledged an effect.\<close>
theorem watermark_sound:
  assumes "store_ok s" "s' = advance_acknowledged_watermark l stream s"
  shows "at_least (watermark s l' stream') (watermark s' l' stream') \<and>
    (\<forall>j\<in>set (st_journal s). j_lane j = l \<and> j_stream j = stream \<and>
      after_watermark (watermark s l stream) (j_sequence j) \<and>
      at_least (Some (j_sequence j)) (watermark s' l stream) \<longrightarrow>
      (\<exists>r\<in>set (st_receipts s). dr_observation_id r = j_observation_id j \<and> acknowledging (dr_outcome r)))"
proof (intro conjI ballI impI)
  show "at_least (watermark s l' stream') (watermark s' l' stream')"
    unfolding assms(2) by (rule watermark_monotone)
  fix j assume j: "j \<in> set (st_journal s)" "j_lane j = l \<and> j_stream j = stream \<and>
      after_watermark (watermark s l stream) (j_sequence j) \<and> at_least (Some (j_sequence j)) (watermark s' l stream)"
  have "acknowledged_suffix s l stream \<noteq> []"
    using j(2) unfolding assms(2) watermark_after
    by (auto simp: at_least_def after_watermark_def split: if_splits option.splits)
  moreover from this have "j_sequence j \<le> j_sequence (last (acknowledged_suffix s l stream))"
    using j(2) unfolding assms(2) watermark_after by (simp add: at_least_def)
  ultimately have "acknowledged_at s (j_observation_id j) \<noteq> None"
    using acknowledged_suffix_complete [OF assms(1)] j by blast
  then show "\<exists>r\<in>set (st_receipts s). dr_observation_id r = j_observation_id j \<and> acknowledging (dr_outcome r)"
    by (auto simp: acknowledged_at_def Let_def filter_empty_conv split: if_splits)
qed

definition sample_delivery_receipt :: "nat \<Rightarrow> observation_outcome \<Rightarrow> delivery_receipt" where
  "sample_delivery_receipt attempt outcome = (let a = sample_admitted 1 ''a'' in
    \<lparr>dr_receipt_id = receipt_id_derive zero_sha (ao_observation_id a) attempt,
     dr_observation_id = ao_observation_id a, dr_idempotency_key = ao_idempotency_key a,
     dr_payload_sha256 = sample_digest, dr_extensions_digest = sample_digest,
     dr_provider_id = ''provider'', dr_provider_instance_id = Some ''instance'',
     dr_registration_revision = 1, dr_state_generation_before = None,
     dr_state_generation_after = None, dr_attempt_number = attempt, dr_outcome = outcome,
     dr_committed_effect = UnknownEffect, dr_provider_effect_summary = default_effect_summary,
     dr_provider_receipt_digest = None, dr_started_at = 5, dr_finished_at = 7, dr_warnings = []\<rparr>)"

definition sample_acknowledged :: journal_store where
  "sample_acknowledged = sample_store\<lparr>st_receipts := [sample_delivery_receipt 1 Applied]\<rparr>"

theorem watermark_sound_witness:
  "watermark (advance_acknowledged_watermark (''provider'', 1) (''host_session'', exact_scope_sha256 zero_sha sample_scope, ''stream'')
      sample_acknowledged) (''provider'', 1) (''host_session'', exact_scope_sha256 zero_sha sample_scope, ''stream'') = Some 1 \<and>
    (\<exists>r\<in>set (st_receipts sample_acknowledged).
      dr_observation_id r = ao_observation_id (sample_admitted 1 ''a'') \<and> acknowledging (dr_outcome r))"
proof -
  let ?l = "(''provider'', 1)" and ?st = "(''host_session'', exact_scope_sha256 zero_sha sample_scope, ''stream'')"
  let ?j = "journal_row_of zero_sha (sample_admitted 1 ''a'')"
  have ok: "store_ok sample_acknowledged"
    using sample_store_rows(1) by (simp add: store_ok_def sample_acknowledged_def)
  have j: "?j \<in> set (st_journal sample_acknowledged)" "j_lane ?j = ?l" "j_stream ?j = ?st" "j_sequence ?j = 1"
    "j_observation_id ?j = ao_observation_id (sample_admitted 1 ''a'')"
    by (simp_all add: sample_acknowledged_def sample_store_rows journal_row_of_def j_lane_def j_stream_def
        j_sequence_def sample_admitted_def sample_source_def)
  have none: "watermark sample_acknowledged ?l ?st = None"
    by (simp add: watermark_def recovery_row_at_def sample_acknowledged_def sample_store_rows)
  have "acknowledged_suffix sample_acknowledged ?l ?st = [?j]"
    using j(2-5) none
    by (simp add: acknowledged_suffix_def select_limit_def after_watermark_def sample_acknowledged_def
        sample_store_rows acknowledged_at_def sample_delivery_receipt_def acknowledging_def
        ACKNOWLEDGED_GAP_SCAN_ROWS_def Let_def)
  then have after: "watermark (advance_acknowledged_watermark ?l ?st sample_acknowledged) ?l ?st = Some 1"
    using j(4) by (simp add: watermark_after)
  have "\<exists>r\<in>set (st_receipts sample_acknowledged). dr_observation_id r = j_observation_id ?j \<and> acknowledging (dr_outcome r)"
    using watermark_sound [OF ok refl, of ?l ?st ?l ?st, THEN conjunct2, rule_format, OF j(1)] j(2-4) none after
    by (simp add: at_least_def after_watermark_def)
  with after show ?thesis unfolding j(5) by blast
qed

end
