(* ===== verification/Journal_Dispatch.thy ===== *)
theory Journal_Dispatch
  imports Journal_Watermark
begin

text \<open>
  Delivery (\<^verbatim>\<open>sqlite/dispatch.rs\<close>, with the row decoders of \<^verbatim>\<open>sqlite/row.rs\<close>): leasing a batch,
  recording what an attempt did, releasing a lease and reaping lapsed leases.  Every operation
  is the body of one transaction over the tables.
\<close>

subsection \<open>Decoding a leased row\<close>

definition decode_sanitization ::
  "sha \<Rightarrow> sanitization_binding option \<Rightarrow> string \<Rightarrow> string \<Rightarrow> sanitization_binding journal_result" where
  "decode_sanitization sha binding payload_sha ext_digest = (case binding of
      None \<Rightarrow> Inl (Corrupt JOURNAL ''sanitization_receipt_id'')
    | Some b \<Rightarrow> (case sanitization_binding_validate sha b payload_sha ext_digest of
        Inl _ \<Rightarrow> Inl (Corrupt JOURNAL ''sanitization_receipt_json'')
      | Inr _ \<Rightarrow> Inr b))"

definition check_provider_id :: "string \<Rightarrow> unit journal_result" where
  "check_provider_id p = lift_api (case provider_id_new p of Inl e \<Rightarrow> Inl (InvalidProviderId e) | Inr _ \<Rightarrow> Inr ())"

definition decode_scope :: "sha \<Rightarrow> journal_row \<Rightarrow> unit journal_result" where
  "decode_scope sha j = first_error
    [lift_api (exact_scope_validate (j_exact_scope j)),
     if exact_scope_sha256 sha (j_exact_scope j) \<noteq> j_exact_scope_sha256 j
       then Inl (Corrupt JOURNAL ''exact_scope_json'') else Inr (),
     (case settlement_receipt_validate (j_source j) of
        Inl _ \<Rightarrow> Inl (Corrupt JOURNAL ''settlement_receipt_json'') | Inr _ \<Rightarrow> Inr ())]"

definition decode_leased ::
  "sha \<Rightarrow> journal_row \<Rightarrow> delivery_row \<Rightarrow> string \<Rightarrow> string \<Rightarrow> micros \<Rightarrow> micros \<Rightarrow> leased_observation journal_result" where
  "decode_leased sha j d claiming_instance lease_owner leased_at expires_at =
    (let target = (j_target j)\<lparr>pt_provider_instance_id := claiming_instance\<rparr> in
     res_bind (parse_digest ''idempotency_key'' (j_idempotency_key j)) (\<lambda>key.
     res_bind (observation_id_parse (j_observation_id j)) (\<lambda>obs.
     res_bind (first_error [check_provider_id (pt_provider_id target), provider_target_validate target,
       lift_api (require_versioned_id (j_observation_kind j)),
       lift_api (require_versioned_id (j_payload_contract j))]) (\<lambda>_.
     case j_payload_bytes j of None \<Rightarrow> Inl (Corrupt JOURNAL ''payload_bytes'')
     | Some bytes \<Rightarrow>
     (let payload = \<lparr>contract_id = j_payload_contract j, payload_bytes = bytes, sha256 = j_payload_sha256 j\<rparr> in
     res_bind (lift_api (canonical_payload_validate sha payload)) (\<lambda>_.
     res_bind (decode_extensions sha (j_extensions j)) (\<lambda>exts.
     res_bind (forget_source_key_new (pv_forget_source_key (j_privacy j))) (\<lambda>_.
     res_bind (decode_sanitization sha (j_sanitization j) (j_payload_sha256 j) (j_extensions_digest j)) (\<lambda>binding.
     res_bind (read_u32 (d_attempt_number d) ''attempt_number'') (\<lambda>stored.
     res_bind (decode_scope sha j) (\<lambda>_.
     let attempt = sat_add_u32 stored 1 in
     Inr \<lparr>lo_lease_id = lease_id_derive sha key lease_owner leased_at attempt,
       lo_lease_expires_at = expires_at, lo_observation_id = obs, lo_idempotency_key = key,
       lo_target = target, lo_exact_scope = j_exact_scope j,
       lo_exact_scope_sha256 = j_exact_scope_sha256 j, lo_observation_kind = j_observation_kind j,
       lo_payload = payload, lo_extensions = exts, lo_extensions_digest = j_extensions_digest j,
       lo_privacy = j_privacy j, lo_provenance_origin = j_provenance_origin j,
       lo_sanitization = binding, lo_attempt_number = attempt, lo_deadline = j_deadline j,
       lo_source_sequence = j_sequence j\<rparr>)))))))))))"

subsection \<open>Receipts\<close>

definition insert_receipt_row :: "delivery_receipt \<Rightarrow> journal_store \<Rightarrow> journal_store option" where
  "insert_receipt_row r s =
    (if \<exists>x\<in>set (st_receipts s). receipt_slot x = receipt_slot r \<or> dr_receipt_id x = dr_receipt_id r
     then None else Some (s\<lparr>st_receipts := st_receipts s @ [r\<lparr>dr_warnings := []\<rparr>]\<rparr>))"

definition decode_receipt :: "sha \<Rightarrow> delivery_receipt \<Rightarrow> delivery_receipt journal_result" where
  "decode_receipt sha r =
    res_bind (observation_id_parse (dr_observation_id r)) (\<lambda>_.
    res_bind (read_u32 (dr_attempt_number r) ''attempt_number'') (\<lambda>_.
    res_bind (parse_digest ''receipt_id'' (dr_receipt_id r)) (\<lambda>_.
    res_bind (parse_digest ''idempotency_key'' (dr_idempotency_key r)) (\<lambda>_.
    res_bind (check_provider_id (dr_provider_id r)) (\<lambda>_. validated sha r)))))"

definition read_receipt :: "sha \<Rightarrow> journal_store \<Rightarrow> string \<Rightarrow> nat \<Rightarrow> delivery_receipt journal_result" where
  "read_receipt sha s obs attempt = (case find (\<lambda>r. receipt_slot r = (obs, attempt)) (st_receipts s) of
      None \<Rightarrow> Inl (Corrupt RECEIPT ''attempt_number'')
    | Some r \<Rightarrow> decode_receipt sha r)"

definition highest_receipt_attempt :: "journal_store \<Rightarrow> string \<Rightarrow> nat" where
  "highest_receipt_attempt s obs =
    foldr max (map dr_attempt_number (filter (\<lambda>r. dr_observation_id r = obs) (st_receipts s))) 0"

definition read_journal_row :: "journal_store \<Rightarrow> string \<Rightarrow> journal_row journal_result" where
  "read_journal_row s obs = (case find_journal_observation s obs of
      None \<Rightarrow> Inl (UnknownObservation obs) | Some j \<Rightarrow> Inr j)"

definition read_delivery_state :: "journal_store \<Rightarrow> string \<Rightarrow> delivery_state journal_result" where
  "read_delivery_state s obs = (case find_delivery_observation s obs of
      None \<Rightarrow> Inl (UnknownObservation obs) | Some d \<Rightarrow> Inr (d_state d))"

subsection \<open>Terminating a delivery without a provider\<close>

record expire_request =
  er_observation_id :: string
  er_idempotency_key :: string
  er_attempt_number :: nat
  er_current_state :: delivery_state
  er_next_state :: delivery_state
  er_outcome :: observation_outcome
  er_reason :: string
  er_now :: micros

definition terminal_receipt :: "sha \<Rightarrow> expire_request \<Rightarrow> journal_row \<Rightarrow> nat \<Rightarrow> delivery_receipt" where
  "terminal_receipt sha q j attempt =
    \<lparr>dr_receipt_id = receipt_id_derive sha (er_observation_id q) attempt,
     dr_observation_id = er_observation_id q, dr_idempotency_key = er_idempotency_key q,
     dr_payload_sha256 = j_payload_sha256 j, dr_extensions_digest = j_extensions_digest j,
     dr_provider_id = pt_provider_id (j_target j), dr_provider_instance_id = None,
     dr_registration_revision = pt_registration_revision (j_target j),
     dr_state_generation_before = None, dr_state_generation_after = None,
     dr_attempt_number = attempt, dr_outcome = er_outcome q, dr_committed_effect = NoEffect,
     dr_provider_effect_summary = default_effect_summary\<lparr>es_no_effect_reason := Some (er_reason q)\<rparr>,
     dr_provider_receipt_digest = None, dr_started_at = er_now q, dr_finished_at = er_now q,
     dr_warnings = []\<rparr>"

definition terminalize_row :: "sha \<Rightarrow> expire_request \<Rightarrow> nat \<Rightarrow> delivery_row \<Rightarrow> delivery_row" where
  "terminalize_row sha q attempt d =
    d\<lparr>d_state := er_next_state q, d_attempt_number := attempt, d_last_outcome := Some (er_outcome q),
      d_last_committed_effect := Some NoEffect,
      d_last_receipt_id := Some (receipt_id_derive sha (er_observation_id q) attempt),
      d_lease_owner := None, d_lease_id := None, d_lease_expires_at := None, d_updated_at := er_now q\<rparr>"

definition expire_delivery :: "sha \<Rightarrow> expire_request \<Rightarrow> unit tx" where
  "expire_delivery sha q s =
    (let hit = (\<lambda>d. d_idempotency_key d = er_idempotency_key q \<and> d_state d = er_current_state q) in
     if \<not> can_transition_to (er_current_state q) (er_next_state q) then Inl (Corrupt DELIVERY ''state'')
     else res_bind (observation_id_parse (er_observation_id q)) (\<lambda>_.
     res_bind (read_journal_row s (er_observation_id q)) (\<lambda>j.
     res_bind (read_u32 (highest_receipt_attempt s (er_observation_id q)) ''attempt_number'') (\<lambda>highest.
     let attempt = sat_add_u32 (max (er_attempt_number q) highest) 1 in
     case insert_receipt_row (terminal_receipt sha q j attempt) s of
       None \<Rightarrow> Inl (Corrupt RECEIPT ''attempt_number'')
     | Some s1 \<Rightarrow>
         if count_where hit (st_delivery s1) \<noteq> 1 then Inl (Corrupt DELIVERY ''state'')
         else Inr ((), s1\<lparr>st_delivery := update_where hit (terminalize_row sha q attempt) (st_delivery s1)\<rparr>)))))"

definition expire_request_of ::
  "delivery_row \<Rightarrow> delivery_state \<Rightarrow> observation_outcome \<Rightarrow> string \<Rightarrow> micros \<Rightarrow> expire_request" where
  "expire_request_of d next_state outcome reason now =
    \<lparr>er_observation_id = d_observation_id d, er_idempotency_key = d_idempotency_key d,
     er_attempt_number = d_attempt_number d, er_current_state = d_state d, er_next_state = next_state,
     er_outcome = outcome, er_reason = reason, er_now = now\<rparr>"

text \<open>The rows are selected before any of them is terminated.\<close>
fun terminalize_each ::
  "sha \<Rightarrow> delivery_state \<Rightarrow> observation_outcome \<Rightarrow> string \<Rightarrow> micros \<Rightarrow> delivery_row list \<Rightarrow> nat tx" where
  "terminalize_each sha next_state outcome reason now [] s = Inr (0, s)"
| "terminalize_each sha next_state outcome reason now (d # ds) s =
    res_bind (expire_delivery sha (expire_request_of d next_state outcome reason now) s) (\<lambda>(_, s1).
    res_bind (terminalize_each sha next_state outcome reason now ds s1) (\<lambda>(n, s2).
    Inr (sat_add_u32 n 1, s2)))"

fun check_attempts :: "delivery_row list \<Rightarrow> unit journal_result" where
  "check_attempts [] = Inr ()"
| "check_attempts (d # ds) =
    res_bind (read_u32 (d_attempt_number d) ''attempt_number'') (\<lambda>_. check_attempts ds)"

definition terminalize_deliveries ::
  "sha \<Rightarrow> delivery_row list \<Rightarrow> delivery_state \<Rightarrow> observation_outcome \<Rightarrow> string \<Rightarrow> micros \<Rightarrow> nat tx" where
  "terminalize_deliveries sha selected next_state outcome reason now s =
    res_bind (check_attempts selected) (\<lambda>_. terminalize_each sha next_state outcome reason now selected s)"

subsection \<open>Settling a delivery from a receipt\<close>

record settlement =
  sm_state :: delivery_state
  sm_next_attempt_at :: micros
  sm_advanced :: bool

definition settle_row :: "delivery_receipt \<Rightarrow> delivery_state \<Rightarrow> micros \<Rightarrow> delivery_row \<Rightarrow> delivery_row" where
  "settle_row r state next_at d =
    d\<lparr>d_state := state, d_next_attempt_at := next_at, d_last_outcome := Some (dr_outcome r),
      d_last_committed_effect := Some (dr_committed_effect r), d_last_receipt_id := Some (dr_receipt_id r),
      d_last_provider_instance_id := dr_provider_instance_id r, d_lease_owner := None, d_lease_id := None,
      d_lease_expires_at := None, d_updated_at := dr_finished_at r\<rparr>"

definition settle_hit :: "delivery_receipt \<Rightarrow> delivery_row \<Rightarrow> bool" where
  "settle_hit r d \<longleftrightarrow> d_observation_id d = dr_observation_id r \<and> d_state d = Leased \<and>
    d_attempt_number d = dr_attempt_number r"

definition settle_delivery ::
  "delivery_receipt \<Rightarrow> retention_policy \<Rightarrow> journal_store \<Rightarrow> settlement \<times> journal_store" where
  "settle_delivery r policy s =
    (let retryable = is_retryable (dr_outcome r);
         exhausted = retryable \<and> rp_max_attempts policy \<le> dr_attempt_number r;
         state = (if exhausted then Exhausted else implied_state (dr_outcome r));
         next_at = (if exhausted \<or> \<not> retryable then dr_finished_at r
           else sat_add_i64 (dr_finished_at r) (next_attempt_delay policy (dr_attempt_number r)))
     in (\<lparr>sm_state = state, sm_next_attempt_at = next_at,
          sm_advanced = (count_where (settle_hit r) (st_delivery s) = 1)\<rparr>,
         s\<lparr>st_delivery := update_where (settle_hit r) (settle_row r state next_at) (st_delivery s)\<rparr>))"

definition advance_watermark_for :: "journal_row \<Rightarrow> delivery_receipt \<Rightarrow> journal_store \<Rightarrow> journal_store" where
  "advance_watermark_for j r s =
    (if implied_state (dr_outcome r) \<in> {Acknowledged, delivery_state.DuplicateAcknowledged}
     then advance_acknowledged_watermark (j_lane j) (j_stream j) s else s)"

subsection \<open>Leasing a batch\<close>

definition lr_lane :: "lease_request \<Rightarrow> lane" where
  "lr_lane q = (lr_provider_id q, lr_registration_revision q)"

definition queue_order :: "delivery_row \<Rightarrow> nat \<times> string" where
  "queue_order d = (d_source_sequence d, d_idempotency_key d)"

definition select_past_deadline :: "journal_store \<Rightarrow> lease_request \<Rightarrow> delivery_row list" where
  "select_past_deadline s q = map fst (select_limit
    (\<lambda>(d, j). d_lane d = lr_lane q \<and> is_deliverable (d_state d) \<and> j_deadline j \<le> lr_now q)
    (\<lambda>(d, j). queue_order d) (lr_max_items q) (joined s))"

definition select_attempts_exhausted ::
  "journal_store \<Rightarrow> lease_request \<Rightarrow> retention_policy \<Rightarrow> delivery_row list" where
  "select_attempts_exhausted s q policy = select_limit
    (\<lambda>d. d_lane d = lr_lane q \<and> is_deliverable (d_state d) \<and> rp_max_attempts policy \<le> d_attempt_number d)
    queue_order (lr_max_items q) (st_delivery s)"

definition scan_limit :: "lease_request \<Rightarrow> retention_policy \<Rightarrow> nat" where
  "scan_limit q policy = (let n = max (rp_max_queue_items policy) (lr_max_items q)
    in if int n \<le> i64_max then n else nat i64_max)"

definition lease_ready :: "lease_request \<Rightarrow> delivery_row \<times> journal_row \<Rightarrow> bool" where
  "lease_ready q = (\<lambda>(d, j). d_lane d = lr_lane q \<and> is_deliverable (d_state d) \<and>
    d_next_attempt_at d \<le> lr_now q \<and> lr_now q < j_deadline j \<and> j_payload_bytes j \<noteq> None \<and>
    (case lr_exact_scope_sha256 q of None \<Rightarrow> True | Some scope \<Rightarrow> d_exact_scope_sha256 d = scope))"

definition select_ready ::
  "journal_store \<Rightarrow> lease_request \<Rightarrow> retention_policy \<Rightarrow> (delivery_row \<times> journal_row) list" where
  "select_ready s q policy =
    select_limit (lease_ready q) (\<lambda>(d, j). queue_order d) (scan_limit q policy) (joined s)"

definition leased_queue_bytes :: "leased_observation \<Rightarrow> nat" where
  "leased_queue_bytes l = sat_add_u64 (length (payload_bytes (lo_payload l)))
    (sum_list (map (\<lambda>x. length (ext_canonical_payload x)) (lo_extensions l)))"

type_synonym candidate = "leased_observation \<times> delivery_state \<times> nat"

fun pack_batch ::
  "sha \<Rightarrow> lease_request \<Rightarrow> (delivery_row \<times> journal_row) list \<Rightarrow> candidate list \<Rightarrow> nat \<Rightarrow> candidate list journal_result" where
  "pack_batch sha q [] picked leased_bytes = Inr picked"
| "pack_batch sha q ((d, j) # rest) picked leased_bytes =
    (if lr_max_items q \<le> length picked then Inr picked
     else res_bind (decode_leased sha j d (lr_provider_instance_id q) (lr_lease_owner q) (lr_now q)
         (sat_add_i64 (lr_now q) (lr_lease_duration q))) (\<lambda>item.
       let consumed = lo_attempt_number item - 1; weight = leased_queue_bytes item;
           candidate = (item, d_state d, consumed)
       in if picked = [] \<and> lr_max_bytes q < weight then Inr [candidate]
          else if lr_max_bytes q < sat_add_u64 leased_bytes weight then pack_batch sha q rest picked leased_bytes
          else pack_batch sha q rest (picked @ [candidate]) (sat_add_u64 leased_bytes weight)))"

definition claim_hit :: "candidate \<Rightarrow> delivery_row \<Rightarrow> bool" where
  "claim_hit = (\<lambda>(item, previous, consumed) d. d_idempotency_key d = lo_idempotency_key item \<and>
    d_state d = previous \<and> d_attempt_number d = consumed)"

definition claim_row :: "lease_request \<Rightarrow> leased_observation \<Rightarrow> delivery_row \<Rightarrow> delivery_row" where
  "claim_row q item d =
    d\<lparr>d_state := Leased, d_lease_id := Some (lo_lease_id item), d_lease_owner := Some (lr_lease_owner q),
      d_lease_expires_at := Some (lo_lease_expires_at item), d_attempt_number := d_attempt_number d + 1,
      d_last_provider_instance_id := Some (lr_provider_instance_id q), d_updated_at := lr_now q\<rparr>"

fun claim_each :: "lease_request \<Rightarrow> candidate list \<Rightarrow> delivery_row list \<Rightarrow> leased_observation list \<times> delivery_row list" where
  "claim_each q [] ds = ([], ds)"
| "claim_each q (c # cs) ds =
    (let (leased, ds') = claim_each q cs (update_where (claim_hit c) (claim_row q (fst c)) ds)
     in (if count_where (claim_hit c) ds = 1 then fst c # leased else leased, ds'))"

definition lease_pending_in_transaction ::
  "sha \<Rightarrow> retention_policy \<Rightarrow> lease_request \<Rightarrow> leased_observation list tx" where
  "lease_pending_in_transaction sha policy q s =
    res_bind (terminalize_deliveries sha (select_past_deadline s q) Expired DeadlineExceeded
      ''observation_deadline_elapsed'' (lr_now q) s) (\<lambda>(_, s1).
    res_bind (terminalize_deliveries sha (select_attempts_exhausted s1 q policy) Exhausted ProviderUnavailable
      ''max_delivery_attempts_consumed'' (lr_now q) s1) (\<lambda>(_, s2).
    res_bind (pack_batch sha q (select_ready s2 q policy) [] 0) (\<lambda>picked.
    let (leased, ds) = claim_each q picked (st_delivery s2) in Inr (leased, s2\<lparr>st_delivery := ds\<rparr>))))"

definition lease_pending ::
  "sha \<Rightarrow> retention_policy \<Rightarrow> lease_request \<Rightarrow> journal_store \<Rightarrow>
    leased_observation list journal_result \<times> journal_store" where
  "lease_pending sha policy q s =
    (case first_error [lease_request_validate q,
        res_bind (sql_i64 (lr_registration_revision q) ''registration_revision'') (\<lambda>_. Inr ())] of
      Inl e \<Rightarrow> (Inl e, s)
    | Inr _ \<Rightarrow> with_transaction (lease_pending_in_transaction sha policy q) s)"

subsection \<open>Recording an attempt\<close>

definition optional_sql :: "nat option \<Rightarrow> string \<Rightarrow> unit journal_result" where
  "optional_sql v field = (case v of None \<Rightarrow> Inr () | Some n \<Rightarrow> res_bind (sql_i64 n field) (\<lambda>_. Inr ()))"

text \<open>A receipt has to describe the content and the registration that were journalled.\<close>
definition receipt_matches_journal :: "journal_row \<Rightarrow> delivery_receipt \<Rightarrow> unit journal_result" where
  "receipt_matches_journal j r = first_error
    [if j_payload_sha256 j \<noteq> dr_payload_sha256 r then Inl (ReceiptDigestMismatch ''payload_sha256'') else Inr (),
     if j_extensions_digest j \<noteq> dr_extensions_digest r then Inl (ReceiptDigestMismatch ''extensions_digest'')
       else Inr (),
     if pt_provider_id (j_target j) \<noteq> dr_provider_id r then Inl (ReceiptDigestMismatch ''provider_id'') else Inr (),
     res_bind (sql_i64 (dr_registration_revision r) ''registration_revision'') (\<lambda>revision.
       if pt_registration_revision (j_target j) \<noteq> revision
       then Inl (ReceiptDigestMismatch ''registration_revision'') else Inr ())]"

definition record_attempt_in_transaction ::
  "sha \<Rightarrow> retention_policy \<Rightarrow> delivery_receipt \<Rightarrow> attempt_outcome tx" where
  "record_attempt_in_transaction sha policy r s =
    res_bind (read_journal_row s (dr_observation_id r)) (\<lambda>j.
    res_bind (first_error [receipt_matches_journal j r,
      optional_sql (dr_state_generation_before r) ''state_generation_before'',
      optional_sql (dr_state_generation_after r) ''state_generation_after'']) (\<lambda>_.
    case insert_receipt_row r s of
      None \<Rightarrow>
        res_bind (read_receipt sha s (dr_observation_id r) (dr_attempt_number r)) (\<lambda>standing.
        let (settled, s1) = settle_delivery standing policy s in
        res_bind (if sm_advanced settled then Inr (sm_state settled)
          else read_delivery_state s1 (dr_observation_id r)) (\<lambda>state.
        Inr (DuplicateReceipt state, advance_watermark_for j standing s1)))
    | Some s1 \<Rightarrow>
        let (settled, s2) = settle_delivery r policy (advance_watermark_for j r s1) in
        if \<not> sm_advanced settled then Inr (LeaseLost (dr_receipt_id r), s2)
        else Inr (Recorded (sm_state settled)
          (if is_terminal (sm_state settled) then None else Some (sm_next_attempt_at settled)), s2)))"

definition record_attempt ::
  "sha \<Rightarrow> retention_policy \<Rightarrow> delivery_receipt \<Rightarrow> journal_store \<Rightarrow> attempt_outcome journal_result \<times> journal_store" where
  "record_attempt sha policy r s = (case receipt_validate sha r of
      Inl e \<Rightarrow> (Inl e, s)
    | Inr _ \<Rightarrow> with_transaction (record_attempt_in_transaction sha policy r) s)"

definition validate_unsettled_attempt_receipt :: "sha \<Rightarrow> delivery_receipt \<Rightarrow> unit journal_result" where
  "validate_unsettled_attempt_receipt sha r =
    res_bind (receipt_validate sha r) (\<lambda>_.
    if dr_outcome r \<notin> {Cancelled, EffectUnknown} \<or> dr_committed_effect r \<noteq> UnknownEffect \<or>
       dr_provider_instance_id r = None \<or> dr_state_generation_before r \<noteq> None \<or>
       dr_state_generation_after r \<noteq> None \<or> dr_provider_receipt_digest r \<noteq> None \<or>
       dr_provider_effect_summary r \<noteq> default_effect_summary \<or> dr_warnings r \<noteq> []
    then Inl (Corrupt RECEIPT ''unsettled_attempt_evidence'') else Inr ())"

definition unsettled_hit :: "delivery_receipt \<Rightarrow> string \<Rightarrow> delivery_row \<Rightarrow> bool" where
  "unsettled_hit r lease d \<longleftrightarrow> d_observation_id d = dr_observation_id r \<and>
    d_idempotency_key d = dr_idempotency_key r \<and> d_state d = Leased \<and> d_lease_id d = Some lease \<and>
    d_attempt_number d = dr_attempt_number r \<and> dr_provider_instance_id r \<noteq> None \<and>
    d_last_provider_instance_id d = dr_provider_instance_id r"

definition record_unsettled_attempt_in_transaction ::
  "delivery_receipt \<Rightarrow> string \<Rightarrow> micros \<Rightarrow> attempt_outcome tx" where
  "record_unsettled_attempt_in_transaction r lease retry_after s =
    res_bind (read_journal_row s (dr_observation_id r)) (\<lambda>j.
    res_bind (receipt_matches_journal j r) (\<lambda>_.
    if map_option d_idempotency_key (find_delivery_observation s (dr_observation_id r))
         \<noteq> Some (dr_idempotency_key r)
    then Inl (ReceiptDigestMismatch ''idempotency_key'')
    else
      let s1 = s\<lparr>st_delivery := update_where (unsettled_hit r lease) (settle_row r Pending retry_after)
            (st_delivery s)\<rparr>
      in if count_where (unsettled_hit r lease) (st_delivery s) \<noteq> 1 then Inr (LeaseLost (dr_receipt_id r), s1)
         else case insert_receipt_row r s1 of
           None \<Rightarrow> Inl (Corrupt RECEIPT ''attempt_number'')
         | Some s2 \<Rightarrow> Inr (Recorded Pending (Some retry_after), s2)))"

definition record_unsettled_attempt ::
  "sha \<Rightarrow> delivery_receipt \<Rightarrow> string \<Rightarrow> micros \<Rightarrow> journal_store \<Rightarrow> attempt_outcome journal_result \<times> journal_store" where
  "record_unsettled_attempt sha r lease retry_after s = (case validate_unsettled_attempt_receipt sha r of
      Inl e \<Rightarrow> (Inl e, s)
    | Inr _ \<Rightarrow> with_transaction (record_unsettled_attempt_in_transaction r lease retry_after) s)"

subsection \<open>Refused terminals\<close>

definition validate_attempt_refusal_binding :: "attempt_refusal \<Rightarrow> journal_store \<Rightarrow> unit journal_result" where
  "validate_attempt_refusal_binding x s =
    (case find_delivery_observation s (ar_observation_id x) of
      None \<Rightarrow> Inl (UnknownObservation (ar_observation_id x))
    | Some d \<Rightarrow>
        res_bind (sql_i64 (ar_registration_revision x) ''registration_revision'') (\<lambda>revision.
        first_error (map (\<lambda>(matches, field).
            if matches then Inr () else Inl (AttemptRefusalBindingMismatch field))
          [(d_idempotency_key d = ar_idempotency_key x, ''idempotency_key''),
           (d_provider_id d = ar_provider_id x, ''provider_id''),
           (d_registration_revision d = revision, ''registration_revision''),
           (d_exact_scope_sha256 d = ar_exact_scope_sha256 x, ''exact_scope_sha256''),
           (d_attempt_number d = ar_attempt_number x, ''attempt_number''),
           (d_last_provider_instance_id d = Some (ar_provider_instance_id x), ''provider_instance_id'')])))"

definition insert_attempt_refusal :: "attempt_refusal \<Rightarrow> attempt_refusal_outcome tx" where
  "insert_attempt_refusal x s =
    res_bind (validate_attempt_refusal_binding x s) (\<lambda>_.
    if \<exists>y\<in>set (st_refusals s). refusal_slot y = refusal_slot x then Inr (RefusalAlreadyRecorded, s)
    else Inr (RefusalRecorded, s\<lparr>st_refusals := st_refusals s @ [x]\<rparr>))"

definition record_attempt_refusal ::
  "attempt_refusal \<Rightarrow> journal_store \<Rightarrow> attempt_refusal_outcome journal_result \<times> journal_store" where
  "record_attempt_refusal x s =
    (case first_error [refusal_validate x,
        res_bind (sql_i64 (ar_registration_revision x) ''registration_revision'') (\<lambda>_. Inr ())] of
      Inl e \<Rightarrow> (Inl e, s)
    | Inr _ \<Rightarrow> with_transaction (insert_attempt_refusal x) s)"

definition refusal_pairs_receipt :: "attempt_refusal \<Rightarrow> delivery_receipt \<Rightarrow> unit journal_result" where
  "refusal_pairs_receipt x r = first_error (map (\<lambda>(matches, field).
      if matches then Inr () else Inl (AttemptRefusalBindingMismatch field))
    [(ar_observation_id x = dr_observation_id r, ''observation_id''),
     (ar_idempotency_key x = dr_idempotency_key r, ''idempotency_key''),
     (ar_provider_id x = dr_provider_id r, ''provider_id''),
     (ar_registration_revision x = dr_registration_revision r, ''registration_revision''),
     (Some (ar_provider_instance_id x) = dr_provider_instance_id r, ''provider_instance_id''),
     (ar_attempt_number x = dr_attempt_number r, ''attempt_number'')])"

definition record_refused_terminal_in_transaction ::
  "attempt_refusal \<Rightarrow> delivery_receipt \<Rightarrow> string \<Rightarrow> micros \<Rightarrow> (attempt_refusal_outcome \<times> attempt_outcome) tx" where
  "record_refused_terminal_in_transaction x r lease retry_after s =
    res_bind (validate_attempt_refusal_binding x s) (\<lambda>_.
    res_bind (record_unsettled_attempt_in_transaction r lease retry_after s) (\<lambda>(outcome, s1).
    case outcome of
      LeaseLost _ \<Rightarrow> Inr ((RefusalLeaseLost, outcome), s1)
    | _ \<Rightarrow> res_bind (insert_attempt_refusal x s1) (\<lambda>(refusal, s2). Inr ((refusal, outcome), s2))))"

definition record_refused_terminal_attempt ::
  "sha \<Rightarrow> attempt_refusal \<Rightarrow> delivery_receipt \<Rightarrow> string \<Rightarrow> micros \<Rightarrow> journal_store \<Rightarrow>
    (attempt_refusal_outcome \<times> attempt_outcome) journal_result \<times> journal_store" where
  "record_refused_terminal_attempt sha x r lease retry_after s =
    (case first_error [refusal_validate x, validate_unsettled_attempt_receipt sha r,
        if dr_outcome r \<noteq> EffectUnknown then Inl (Corrupt RECEIPT ''unsettled_attempt_evidence'') else Inr (),
        refusal_pairs_receipt x r,
        res_bind (sql_i64 (ar_registration_revision x) ''registration_revision'') (\<lambda>_. Inr ())] of
      Inl e \<Rightarrow> (Inl e, s)
    | Inr _ \<Rightarrow> with_transaction (record_refused_terminal_in_transaction x r lease retry_after) s)"

subsection \<open>Releasing and reaping leases\<close>

definition to_pending :: "micros \<Rightarrow> delivery_row \<Rightarrow> delivery_row" where
  "to_pending now d = d\<lparr>d_state := Pending, d_lease_id := None, d_lease_owner := None,
    d_lease_expires_at := None, d_updated_at := now\<rparr>"

definition release_hit :: "string \<Rightarrow> delivery_row \<Rightarrow> bool" where
  "release_hit lease d \<longleftrightarrow> d_lease_id d = Some lease \<and> d_state d = Leased"

definition release_lease_in_transaction :: "string \<Rightarrow> micros \<Rightarrow> unit tx" where
  "release_lease_in_transaction lease retry_after s =
    (if count_where (release_hit lease) (st_delivery s) = 0 then Inl (UnknownLease lease)
     else Inr ((), s\<lparr>st_delivery := update_where (release_hit lease)
       (\<lambda>d. (to_pending retry_after d)\<lparr>d_next_attempt_at := retry_after\<rparr>) (st_delivery s)\<rparr>))"

definition release_lease ::
  "string \<Rightarrow> micros \<Rightarrow> journal_store \<Rightarrow> unit journal_result \<times> journal_store" where
  "release_lease lease retry_after = with_transaction (release_lease_in_transaction lease retry_after)"

definition lease_lapsed :: "micros \<Rightarrow> delivery_row \<Rightarrow> bool" where
  "lease_lapsed now d \<longleftrightarrow> d_state d = Leased \<and>
    (case d_lease_expires_at d of None \<Rightarrow> False | Some e \<Rightarrow> e \<le> now)"

record expired_lease =
  el_idempotency_key :: string
  el_observation_id :: string
  el_provider_id :: string
  el_provider_instance_id :: "string option"
  el_registration_revision :: nat
  el_exact_scope_sha256 :: string
  el_attempt_number :: nat
  el_lease_id :: string
  el_lease_owner :: string
  el_payload_sha256 :: string
  el_lease_expires_at :: micros

definition decode_expired_lease :: "delivery_row \<times> journal_row \<Rightarrow> expired_lease journal_result" where
  "decode_expired_lease = (\<lambda>(d, j).
    res_bind (parse_digest ''idempotency_key'' (d_idempotency_key d)) (\<lambda>key.
    res_bind (observation_id_parse (d_observation_id d)) (\<lambda>obs.
    res_bind (read_u32 (d_attempt_number d) ''attempt_number'') (\<lambda>attempt.
    case (d_lease_id d, d_lease_owner d, d_lease_expires_at d) of
      (Some lease, Some owner, Some expires) \<Rightarrow>
        res_bind (parse_digest ''lease_id'' lease) (\<lambda>lease.
        Inr \<lparr>el_idempotency_key = key, el_observation_id = obs, el_provider_id = d_provider_id d,
          el_provider_instance_id = d_last_provider_instance_id d,
          el_registration_revision = d_registration_revision d,
          el_exact_scope_sha256 = d_exact_scope_sha256 d, el_attempt_number = attempt,
          el_lease_id = lease, el_lease_owner = owner, el_payload_sha256 = j_payload_sha256 j,
          el_lease_expires_at = expires\<rparr>)
    | _ \<Rightarrow> Inl (Storage ''InvalidColumnType'')))))"

fun decode_each :: "('a \<Rightarrow> 'b journal_result) \<Rightarrow> 'a list \<Rightarrow> 'b list journal_result" where
  "decode_each f [] = Inr []"
| "decode_each f (x # xs) = res_bind (f x) (\<lambda>y. res_bind (decode_each f xs) (\<lambda>ys. Inr (y # ys)))"

definition expiry_order :: "delivery_row \<Rightarrow> micros \<times> string" where
  "expiry_order d = ((case d_lease_expires_at d of None \<Rightarrow> 0 | Some e \<Rightarrow> e), d_idempotency_key d)"

definition select_expired_leases :: "journal_store \<Rightarrow> micros \<Rightarrow> nat \<Rightarrow> expired_lease list journal_result" where
  "select_expired_leases s now budget = decode_each decode_expired_lease
    (select_limit (\<lambda>(d, j). lease_lapsed now d) (\<lambda>(d, j). expiry_order d) budget (joined s))"

definition attempt_answered :: "journal_store \<Rightarrow> string \<Rightarrow> nat \<Rightarrow> bool" where
  "attempt_answered s obs attempt \<longleftrightarrow>
    (\<exists>r\<in>set (st_receipts s). receipt_slot r = (obs, attempt)) \<or>
    (\<exists>x\<in>set (st_refusals s). refusal_slot x = (obs, attempt))"

definition orphan_of :: "retention_policy \<Rightarrow> micros \<Rightarrow> expired_lease \<Rightarrow> attempt_orphan" where
  "orphan_of policy now l =
    \<lparr>or_observation_id = el_observation_id l, or_attempt_number = el_attempt_number l,
     or_idempotency_key = el_idempotency_key l, or_provider_id = el_provider_id l,
     or_provider_instance_id = el_provider_instance_id l,
     or_registration_revision = el_registration_revision l,
     or_exact_scope_sha256 = el_exact_scope_sha256 l, or_lease_id = el_lease_id l,
     or_lease_owner = el_lease_owner l, or_payload_sha256 = el_payload_sha256 l,
     or_cause = LeaseExpiredWithoutAnswer,
     or_recovery = (if rp_max_attempts policy \<le> el_attempt_number l then AttemptsExhausted
       else RedeliveryScheduled),
     or_lease_expired_at = el_lease_expires_at l, or_recorded_at = now\<rparr>"

definition insert_attempt_orphan :: "attempt_orphan \<Rightarrow> unit tx" where
  "insert_attempt_orphan x s =
    (if \<exists>y\<in>set (st_orphans s). orphan_slot y = orphan_slot x
     then Inl (Storage ''UNIQUE constraint failed'')
     else Inr ((), s\<lparr>st_orphans := st_orphans s @ [x]\<rparr>))"

definition reclaim_hit :: "expired_lease \<Rightarrow> delivery_row \<Rightarrow> bool" where
  "reclaim_hit l d \<longleftrightarrow> d_idempotency_key d = el_idempotency_key l \<and> d_state d = Leased"

fun reap_each :: "retention_policy \<Rightarrow> micros \<Rightarrow> expired_lease list \<Rightarrow> nat \<Rightarrow> nat tx" where
  "reap_each policy now [] reaped s = Inr (reaped, s)"
| "reap_each policy now (l # ls) reaped s =
    (if count_where (reclaim_hit l) (st_delivery s) = 0 then reap_each policy now ls reaped s
     else
       let s1 = s\<lparr>st_delivery := update_where (reclaim_hit l) (to_pending now) (st_delivery s)\<rparr>;
           n = sat_add_u32 reaped 1
       in if attempt_answered s1 (el_observation_id l) (el_attempt_number l)
          then reap_each policy now ls n s1
          else res_bind (orphan_validate (orphan_of policy now l)) (\<lambda>_.
            res_bind (insert_attempt_orphan (orphan_of policy now l) s1) (\<lambda>(_, s2).
            reap_each policy now ls n s2)))"

definition reap_in_transaction :: "retention_policy \<Rightarrow> micros \<Rightarrow> nat \<Rightarrow> nat tx" where
  "reap_in_transaction policy now budget s =
    res_bind (select_expired_leases s now budget) (\<lambda>ls. reap_each policy now ls 0 s)"

definition reap_expired_leases ::
  "retention_policy \<Rightarrow> micros \<Rightarrow> nat \<Rightarrow> journal_store \<Rightarrow> nat journal_result \<times> journal_store" where
  "reap_expired_leases policy now budget = with_transaction (reap_in_transaction policy now budget)"

subsection \<open>Reading evidence back\<close>

definition receipts_for :: "sha \<Rightarrow> journal_store \<Rightarrow> string \<Rightarrow> delivery_receipt list journal_result" where
  "receipts_for sha s obs = decode_each (decode_receipt sha)
    (sort_key dr_attempt_number (filter (\<lambda>r. dr_observation_id r = obs) (st_receipts s)))"

definition attempt_refusals_for :: "journal_store \<Rightarrow> string \<Rightarrow> attempt_refusal list journal_result" where
  "attempt_refusals_for s obs = decode_each
    (\<lambda>x. res_bind (observation_id_parse (ar_observation_id x)) (\<lambda>_.
      res_bind (read_u32 (ar_attempt_number x) ''attempt_number'') (\<lambda>_.
      res_bind (parse_digest ''idempotency_key'' (ar_idempotency_key x)) (\<lambda>_.
      res_bind (refusal_validate x) (\<lambda>_. Inr x)))))
    (sort_key ar_attempt_number (filter (\<lambda>x. ar_observation_id x = obs) (st_refusals s)))"

definition attempt_orphans_for :: "journal_store \<Rightarrow> string \<Rightarrow> attempt_orphan list journal_result" where
  "attempt_orphans_for s obs = decode_each
    (\<lambda>x. res_bind (observation_id_parse (or_observation_id x)) (\<lambda>_.
      res_bind (read_u32 (or_attempt_number x) ''attempt_number'') (\<lambda>_.
      res_bind (parse_digest ''idempotency_key'' (or_idempotency_key x)) (\<lambda>_.
      res_bind (parse_digest ''lease_id'' (or_lease_id x)) (\<lambda>_.
      res_bind (orphan_validate x) (\<lambda>_. Inr x))))))
    (sort_key or_attempt_number (filter (\<lambda>x. or_observation_id x = obs) (st_orphans s)))"

definition decode_admitted :: "sha \<Rightarrow> journal_row \<Rightarrow> delivery_row \<Rightarrow> admitted_observation journal_result" where
  "decode_admitted sha j d =
    res_bind (decode_leased sha j d (pt_provider_instance_id (j_target j)) ''admission-read'' 0 1) (\<lambda>l.
    let a = \<lparr>ao_observation_id = lo_observation_id l, ao_idempotency_key = lo_idempotency_key l,
      ao_target = lo_target l, ao_exact_scope = lo_exact_scope l, ao_source = j_source j,
      ao_observation_kind = lo_observation_kind l, ao_payload = lo_payload l,
      ao_extensions = lo_extensions l, ao_extensions_digest = lo_extensions_digest l,
      ao_provenance_origin = lo_provenance_origin l, ao_provenance_sha256 = j_provenance_sha256 j,
      ao_privacy = lo_privacy l, ao_sanitization = lo_sanitization l, ao_occurred_at = j_occurred_at j,
      ao_admitted_at = j_admitted_at j, ao_deadline = lo_deadline l, ao_request_id = j_request_id j,
      ao_envelope_sha256 = j_envelope_sha256 j\<rparr>
    in res_bind (admitted_validate sha a) (\<lambda>_. Inr a))"

definition read_admitted_observation_by_idempotency ::
  "sha \<Rightarrow> journal_store \<Rightarrow> string \<Rightarrow> admitted_observation option journal_result" where
  "read_admitted_observation_by_idempotency sha s key =
    res_bind (parse_digest ''idempotency_key'' key) (\<lambda>key.
    case find (\<lambda>(d, j). j_idempotency_key j = key \<and> j_payload_bytes j \<noteq> None) (joined s) of
      None \<Rightarrow> Inr None
    | Some (d, j) \<Rightarrow> res_bind (decode_admitted sha j d) (\<lambda>a. Inr (Some a)))"

end
