(* ===== verification/Journal_Delivery.thy ===== *)
theory Journal_Delivery
  imports Journal_Dispatch "HOL-Library.Sublist"
begin

text \<open>
  What the delivery operations promise.  Each transaction is a \<^verbatim>\<open>delivery_step\<close>: it keeps the
  store constraints, moves every delivery row along the delivery state machine, hands back no
  attempt number, only appends receipts, refusals and orphan records, leaves the admission
  tables alone, lowers no watermark and changes no other part of a recovery record.  The interface
  \<^verbatim>\<open>journal_operations\<close> of \<^verbatim>\<open>Journal_Operations\<close> carries this to any interleaving of the
  operations.
\<close>

subsection \<open>The delivery contract\<close>

definition same_admissions :: "journal_store \<Rightarrow> journal_store \<Rightarrow> bool" where
  "same_admissions s s' \<longleftrightarrow> st_journal s' = st_journal s \<and> st_non_message s' = st_non_message s \<and>
    st_cursors s' = st_cursors s \<and> st_target_cursors s' = st_target_cursors s \<and>
    st_withheld s' = st_withheld s"

definition evidence_grows :: "journal_store \<Rightarrow> journal_store \<Rightarrow> bool" where
  "evidence_grows s s' \<longleftrightarrow> prefix (st_receipts s) (st_receipts s') \<and>
    prefix (st_refusals s) (st_refusals s') \<and> prefix (st_orphans s) (st_orphans s')"

definition watermarks_kept :: "journal_store \<Rightarrow> journal_store \<Rightarrow> bool" where
  "watermarks_kept s s' \<longleftrightarrow> (\<forall>l stream. at_least (watermark s l stream) (watermark s' l stream) \<and>
    repair_record s' l stream = repair_record s l stream)"

definition delivery_step :: "journal_store \<Rightarrow> journal_store \<Rightarrow> bool" where
  "delivery_step s s' \<longleftrightarrow> store_ok s' \<and> same_admissions s s' \<and> evidence_grows s s' \<and>
    list_all2 evolves (st_delivery s) (st_delivery s') \<and> watermarks_kept s s'"

lemma list_all2_memD:
  assumes "list_all2 P xs ys" "x \<in> set xs"
  shows "\<exists>y\<in>set ys. P x y"
  using assms by (induction rule: list_all2_induct) auto

lemma list_all2_memD2:
  assumes "list_all2 P xs ys" "y \<in> set ys"
  shows "\<exists>x\<in>set xs. P x y"
  using assms by (induction rule: list_all2_induct) auto

lemma same_admissions_trans: "same_admissions a b \<Longrightarrow> same_admissions b c \<Longrightarrow> same_admissions a c"
  by (simp add: same_admissions_def)

lemma evidence_grows_trans: "evidence_grows a b \<Longrightarrow> evidence_grows b c \<Longrightarrow> evidence_grows a c"
  unfolding evidence_grows_def by (meson prefix_order.trans)

lemma watermarks_kept_trans: "watermarks_kept a b \<Longrightarrow> watermarks_kept b c \<Longrightarrow> watermarks_kept a c"
  unfolding watermarks_kept_def by (metis at_least_trans)

lemma delivery_step_refl: "store_ok s \<Longrightarrow> delivery_step s s"
  by (simp add: delivery_step_def same_admissions_def evidence_grows_def watermarks_kept_def list_all2_refl)

lemma transaction_step:
  assumes "store_ok s" "\<And>x s'. f s = Inr (x, s') \<Longrightarrow> delivery_step s s'"
  shows "delivery_step s (snd (with_transaction f s))"
  by (rule with_transaction_keeps [where P = "delivery_step s"]) (use assms delivery_step_refl in auto)

lemma guarded_transaction_step:
  assumes "store_ok s" "\<And>x s'. f s = Inr (x, s') \<Longrightarrow> delivery_step s s'"
  shows "delivery_step s (snd (case check of Inl e \<Rightarrow> (Inl e, s) | Inr _ \<Rightarrow> with_transaction f s))"
  by (cases check) (simp_all add: transaction_step [OF assms] delivery_step_refl [OF assms(1)])

lemma watermark_frame [simp]:
  "watermark (s\<lparr>st_delivery := x1\<rparr>) l stream = watermark s l stream"
  "watermark (s\<lparr>st_receipts := x2\<rparr>) l stream = watermark s l stream"
  "watermark (s\<lparr>st_refusals := x3\<rparr>) l stream = watermark s l stream"
  "watermark (s\<lparr>st_orphans := x4\<rparr>) l stream = watermark s l stream"
  by (simp_all add: watermark_def recovery_row_at_def)

lemma repair_frame [simp]:
  "repair_record (s\<lparr>st_delivery := x1\<rparr>) l stream = repair_record s l stream"
  "repair_record (s\<lparr>st_receipts := x2\<rparr>) l stream = repair_record s l stream"
  "repair_record (s\<lparr>st_refusals := x3\<rparr>) l stream = repair_record s l stream"
  "repair_record (s\<lparr>st_orphans := x4\<rparr>) l stream = repair_record s l stream"
  by (simp_all add: repair_record_def recovery_row_at_def)

subsection \<open>Inserting receipts\<close>

lemma insert_receipt_row_Some:
  assumes "insert_receipt_row r s = Some s'"
  shows "s' = s\<lparr>st_receipts := st_receipts s @ [r\<lparr>dr_warnings := []\<rparr>]\<rparr>"
    "\<And>x. x \<in> set (st_receipts s) \<Longrightarrow> receipt_slot x \<noteq> receipt_slot r"
  using assms by (auto simp: insert_receipt_row_def split: if_splits)

lemma receipt_slot_warnings [simp]: "receipt_slot (r\<lparr>dr_warnings := w\<rparr>) = receipt_slot r"
  by (simp add: receipt_slot_def)

lemma insert_receipt_store_ok:
  assumes "store_ok s" "insert_receipt_row r s = Some s'"
  shows "store_ok s'"
proof -
  have "receipt_slot r \<notin> receipt_slot ` set (st_receipts s)"
    using insert_receipt_row_Some(2) [OF assms(2)] by fastforce
  with assms(1) show ?thesis
    by (auto simp: store_ok_def insert_receipt_row_Some(1) [OF assms(2)])
qed

subsection \<open>Terminating deliveries\<close>

lemma sat_add_u32_bounds: "n \<le> u32_max \<Longrightarrow> n \<le> sat_add_u32 n 1 \<and> sat_add_u32 n m \<le> u32_max"
  by (auto simp: sat_add_u32_def)

lemma update_where_unique:
  assumes "distinct (map k rows)" "d \<in> set rows" "P d" "\<And>r. P r \<Longrightarrow> k r = k d"
  shows "update_where P f rows = update_where (\<lambda>r. r = d) f rows"
proof -
  have "P r \<longleftrightarrow> r = d" if "r \<in> set rows" for r
    using assms that by (metis distinct_map inj_on_def)
  then show ?thesis by (auto simp: update_where_def)
qed

lemma count_where_pos: "0 < count_where P rows \<longleftrightarrow> (\<exists>r\<in>set rows. P r)"
  by (auto simp: count_where_def filter_empty_conv)

lemma count_where_distinct_key:
  assumes "distinct (map k rows)" "\<And>r r'. P r \<Longrightarrow> P r' \<Longrightarrow> k r = k r'"
  shows "count_where P rows \<le> 1"
  using assms(1)
proof (induction rows)
  case (Cons x xs)
  show ?case
  proof (cases "P x")
    case True
    have "\<not> P r" if r: "r \<in> set xs" for r
    proof
      assume "P r"
      then have "k r = k x" using assms(2) True by blast
      with imageI [OF r, of k] Cons.prems show False by simp
    qed
    then have "filter P xs = []" by (simp add: filter_empty_conv)
    with True show ?thesis by (simp add: count_where_def)
  qed (use Cons in \<open>simp add: count_where_def\<close>)
qed (simp add: count_where_def)

lemma expire_delivery_effect:
  assumes ok: "store_ok s" and d: "d \<in> set (st_delivery s)"
    and run: "expire_delivery sha (expire_request_of d st out why now) s = Inr (u, s')"
  shows "can_transition_to (d_state d) st"
    "\<exists>attempt r. d_attempt_number d \<le> attempt \<and> attempt \<le> u32_max \<and>
      insert_receipt_row r s = Some (s\<lparr>st_receipts := st_receipts s @ [r]\<rparr>) \<and>
      s' = s\<lparr>st_receipts := st_receipts s @ [r],
        st_delivery := update_where (\<lambda>x. x = d)
          (terminalize_row sha (expire_request_of d st out why now) attempt) (st_delivery s)\<rparr>"
proof -
  let ?q = "expire_request_of d st out why now"
  let ?hit = "\<lambda>x. d_idempotency_key x = er_idempotency_key ?q \<and> d_state x = er_current_state ?q"
  have hit: "update_where ?hit f (st_delivery s) = update_where (\<lambda>x. x = d) f (st_delivery s)" for f
    by (rule update_where_unique [OF conjunct1 [OF store_ok_delivery_keys [OF ok]] d])
      (simp_all add: expire_request_of_def)
  have le: "d_attempt_number d \<le> u32_max"
    using store_ok_delivery_ok [OF ok d] by (simp add: delivery_ok_def)
  show "can_transition_to (d_state d) st"
    using run by (auto simp: expire_delivery_def expire_request_of_def Let_def split: if_splits)
  obtain j highest s1 where ins: "highest \<le> u32_max"
    "insert_receipt_row (terminal_receipt sha ?q j (sat_add_u32 (max (d_attempt_number d) highest) 1)) s = Some s1"
    "s' = s1\<lparr>st_delivery := update_where ?hit
      (terminalize_row sha ?q (sat_add_u32 (max (d_attempt_number d) highest) 1)) (st_delivery s1)\<rparr>"
    using run
    by (auto simp: expire_delivery_def Let_def res_bind_Inr_iff read_u32_def expire_request_of_def
        split: if_splits option.splits)
  define a where "a = sat_add_u32 (max (d_attempt_number d) highest) 1"
  define r where "r = terminal_receipt sha ?q j a"
  have bounds: "d_attempt_number d \<le> a" "a \<le> u32_max"
    using sat_add_u32_bounds [of "max (d_attempt_number d) highest" 1] le ins(1) by (auto simp: a_def)
  have "r\<lparr>dr_warnings := []\<rparr> = r"
    by (simp add: r_def terminal_receipt_def)
  then have s1: "s1 = s\<lparr>st_receipts := st_receipts s @ [r]\<rparr>"
    using insert_receipt_row_Some(1) [OF ins(2)] unfolding r_def a_def by simp
  then have same: "st_delivery s1 = st_delivery s" by simp
  have new_rows: "s' = s1\<lparr>st_delivery := update_where (\<lambda>x. x = d) (terminalize_row sha ?q a) (st_delivery s)\<rparr>"
    using ins(3) same unfolding a_def [symmetric] by (simp only: hit)
  have "insert_receipt_row r s = Some (s\<lparr>st_receipts := st_receipts s @ [r]\<rparr>)"
    using ins(2) unfolding a_def [symmetric] r_def [symmetric] s1 .
  then show "\<exists>attempt r. d_attempt_number d \<le> attempt \<and> attempt \<le> u32_max \<and>
      insert_receipt_row r s = Some (s\<lparr>st_receipts := st_receipts s @ [r]\<rparr>) \<and>
      s' = s\<lparr>st_receipts := st_receipts s @ [r],
        st_delivery := update_where (\<lambda>x. x = d) (terminalize_row sha ?q attempt) (st_delivery s)\<rparr>"
    using bounds new_rows unfolding s1 by (intro exI [of _ a] exI [of _ r] conjI)
qed

lemma terminalize_row_facts [simp]:
  "d_state (terminalize_row sha (expire_request_of d st out why now) a x) = st"
  "d_attempt_number (terminalize_row sha q a x) = a" "d_lease_id (terminalize_row sha q a x) = None"
  "same_identity x (terminalize_row sha q a x)" "d_queue_bytes (terminalize_row sha q a x) = d_queue_bytes x"
  by (simp_all add: terminalize_row_def expire_request_of_def same_identity_def)

lemma expire_delivery_step:
  assumes ok: "store_ok s" and d: "d \<in> set (st_delivery s)"
    and run: "expire_delivery sha (expire_request_of d st out why now) s = Inr (u, s')" and st: "st \<noteq> Leased"
  shows "delivery_step s s'"
    "\<And>x. x \<in> set (st_delivery s) \<Longrightarrow> x \<noteq> d \<Longrightarrow> x \<in> set (st_delivery s')"
    "is_deliverable (d_state d) \<Longrightarrow> \<not> is_deliverable st \<Longrightarrow> list_all2 leaves_queue (st_delivery s) (st_delivery s')"
proof -
  let ?q = "expire_request_of d st out why now"
  obtain attempt r where eff: "d_attempt_number d \<le> attempt" "attempt \<le> u32_max"
    "insert_receipt_row r s = Some (s\<lparr>st_receipts := st_receipts s @ [r]\<rparr>)"
    "s' = s\<lparr>st_receipts := st_receipts s @ [r],
      st_delivery := update_where (\<lambda>x. x = d) (terminalize_row sha ?q attempt) (st_delivery s)\<rparr>"
    using expire_delivery_effect(2) [OF ok d run] by blast
  note legal = expire_delivery_effect(1) [OF ok d run]
  have ev: "evolves d (terminalize_row sha ?q attempt d)"
    using eff(1) legal by (simp add: evolves_def)
  then have rows: "list_all2 evolves (st_delivery s) (st_delivery s')"
    by (auto simp: eff(4) intro!: list_all2_update_where)
  have "list_all delivery_ok (st_delivery s')"
    using ok eff(2) st by (auto simp: eff(4) store_ok_def delivery_ok_def intro!: list_all_update_where)
  then have "store_ok s'"
    using store_ok_update_delivery [OF insert_receipt_store_ok [OF ok eff(3)]] rows by (simp add: eff(4))
  with rows show "delivery_step s s'"
    by (simp add: delivery_step_def eff(4) same_admissions_def evidence_grows_def watermarks_kept_def)
  show "\<And>x. x \<in> set (st_delivery s) \<Longrightarrow> x \<noteq> d \<Longrightarrow> x \<in> set (st_delivery s')"
    by (simp add: eff(4) set_update_where)
  show "is_deliverable (d_state d) \<Longrightarrow> \<not> is_deliverable st \<Longrightarrow> list_all2 leaves_queue (st_delivery s) (st_delivery s')"
    using ev by (auto simp: eff(4) leaves_queue_def intro!: list_all2_update_where)
qed

text \<open>A delivery step that only takes rows out of the queue; such steps compose.\<close>
definition queue_step :: "journal_store \<Rightarrow> journal_store \<Rightarrow> bool" where
  "queue_step s s' \<longleftrightarrow> delivery_step s s' \<and> list_all2 leaves_queue (st_delivery s) (st_delivery s')"

lemma queue_step_refl: "store_ok s \<Longrightarrow> queue_step s s"
  by (simp add: queue_step_def delivery_step_refl list_all2_refl)

lemma queue_step_trans:
  assumes "queue_step a b" "queue_step b c"
  shows "queue_step a c"
proof -
  have lq: "list_all2 leaves_queue (st_delivery a) (st_delivery c)"
    using assms list_all2_leaves_queue_trans unfolding queue_step_def by blast
  then have "list_all2 evolves (st_delivery a) (st_delivery c)"
    by (rule list_all2_mono) (rule leaves_queue_evolves)
  with lq assms show ?thesis
    unfolding queue_step_def delivery_step_def
    by (blast intro: same_admissions_trans evidence_grows_trans watermarks_kept_trans)
qed

lemma terminalize_each_step:
  assumes "store_ok s" "distinct ds" "set ds \<subseteq> {d \<in> set (st_delivery s). is_deliverable (d_state d)}"
    "\<not> is_deliverable st" "st \<noteq> Leased" "terminalize_each sha st out why now ds s = Inr (n, s')"
  shows "queue_step s s'"
  using assms
proof (induction ds arbitrary: s n)
  case (Cons d ds)
  from Cons.prems(6) obtain u s1 m where run:
    "expire_delivery sha (expire_request_of d st out why now) s = Inr (u, s1)"
    "terminalize_each sha st out why now ds s1 = Inr (m, s')"
    by (auto simp: res_bind_Inr_iff)
  note step = expire_delivery_step [OF Cons.prems(1) _ run(1) Cons.prems(5)]
  have first: "queue_step s s1"
    using step Cons.prems(3,4) by (auto simp: queue_step_def)
  moreover have "set ds \<subseteq> {d \<in> set (st_delivery s1). is_deliverable (d_state d)}"
    using step(2) Cons.prems(2,3) by auto
  ultimately have "queue_step s1 s'"
    using Cons.IH [OF _ _ _ Cons.prems(4,5) run(2)] Cons.prems(2)
    by (simp add: queue_step_def delivery_step_def)
  with first show ?case by (rule queue_step_trans)
qed (simp add: queue_step_refl)

lemma distinct_select_limit: "distinct rows \<Longrightarrow> distinct (select_limit P key n rows)"
  by (simp add: select_limit_def)

lemma store_ok_distinct_delivery: "store_ok s \<Longrightarrow> distinct (st_delivery s)"
  using store_ok_delivery_keys by (auto simp: distinct_map)

lemma distinct_joined: "store_ok s \<Longrightarrow> distinct (joined s)"
  by (simp add: joined_map distinct_map store_ok_distinct_delivery inj_on_def)

lemma select_limit_mem: "x \<in> set (select_limit P key n rows) \<Longrightarrow> x \<in> set rows \<and> P x"
  using select_limit_subset [of P key n rows] by auto

lemma select_joined_mem:
  assumes "store_ok s" "x \<in> set (select_limit P key n (joined s))"
  shows "fst x \<in> set (st_delivery s)" "snd x = journal_of s (fst x)" "P x"
  using select_limit_mem [OF assms(2)] set_joined [OF assms(1), of "fst x" "snd x"] by auto

lemma distinct_map_fst_joined:
  assumes "store_ok s"
  shows "distinct (map fst (select_limit P key n (joined s)))"
proof -
  have "inj_on fst (set (select_limit P key n (joined s)))"
  proof (rule inj_onI)
    fix x y assume "x \<in> set (select_limit P key n (joined s))" "y \<in> set (select_limit P key n (joined s))"
      "fst x = fst y"
    then show "x = y" using select_joined_mem(2) [OF assms] by (metis prod_eqI)
  qed
  with distinct_select_limit [OF distinct_joined [OF assms]] show ?thesis
    by (simp add: distinct_map)
qed

lemma select_past_deadline_rows:
  assumes "store_ok s"
  shows "distinct (select_past_deadline s q)"
    "set (select_past_deadline s q) \<subseteq> {d \<in> set (st_delivery s). is_deliverable (d_state d)}"
proof -
  show "distinct (select_past_deadline s q)"
    unfolding select_past_deadline_def by (rule distinct_map_fst_joined [OF assms])
  show "set (select_past_deadline s q) \<subseteq> {d \<in> set (st_delivery s). is_deliverable (d_state d)}"
    unfolding select_past_deadline_def by (auto dest: select_joined_mem(1,3) [OF assms])
qed

lemma select_attempts_exhausted_rows:
  assumes "store_ok s"
  shows "distinct (select_attempts_exhausted s q policy)"
    "set (select_attempts_exhausted s q policy) \<subseteq> {d \<in> set (st_delivery s). is_deliverable (d_state d)}"
proof -
  show "distinct (select_attempts_exhausted s q policy)"
    unfolding select_attempts_exhausted_def
    by (rule distinct_select_limit [OF store_ok_distinct_delivery [OF assms]])
  show "set (select_attempts_exhausted s q policy) \<subseteq> {d \<in> set (st_delivery s). is_deliverable (d_state d)}"
    unfolding select_attempts_exhausted_def by (auto dest: select_limit_mem)
qed

lemma terminalize_deliveries_step:
  assumes "store_ok s" "distinct ds" "set ds \<subseteq> {d \<in> set (st_delivery s). is_deliverable (d_state d)}"
    "\<not> is_deliverable st" "st \<noteq> Leased" "terminalize_deliveries sha ds st out why now s = Inr (n, s')"
  shows "queue_step s s'"
  using terminalize_each_step [OF assms(1-5)] assms(6)
  by (auto simp: terminalize_deliveries_def res_bind_Inr_iff)

end
