(* ===== verification/Journal_Decode.thy ===== *)
theory Journal_Decode
  imports Journal_Delivery
begin

text \<open>
  Reading rows back (\<^verbatim>\<open>sqlite/row.rs\<close>): what the strict decoder of a leased row returns, that it
  accepts every row an append wrote, and that an admission read back by its idempotency key is
  the admission that was appended.
\<close>

subsection \<open>What a decoded row holds\<close>

lemma parse_digest_same: "parse_digest field v = Inr w \<Longrightarrow> w = v"
  by (auto simp: parse_digest_def res_bind_Inr_iff)

lemma observation_id_parse_same: "observation_id_parse v = Inr w \<Longrightarrow> w = v"
  by (auto simp: observation_id_parse_def res_bind_Inr_iff split: if_splits)

lemma read_u32_same: "read_u32 v field = Inr w \<longleftrightarrow> w = v \<and> v \<le> u32_max"
  by (auto simp: read_u32_def)

lemma decode_leased_facts:
  assumes "decode_leased sha j d inst owner at lapse = Inr item"
  shows "lo_idempotency_key item = j_idempotency_key j" "lo_observation_id item = j_observation_id j"
    "lo_attempt_number item = sat_add_u32 (d_attempt_number d) 1" "lo_lease_expires_at item = lapse"
    "lo_deadline item = j_deadline j" "d_attempt_number d \<le> u32_max"
    "lo_lease_id item = lease_id_derive sha (j_idempotency_key j) owner at (sat_add_u32 (d_attempt_number d) 1)"
    "lo_extensions_digest item = j_extensions_digest j" "lo_payload item =
      \<lparr>contract_id = j_payload_contract j, payload_bytes = the (j_payload_bytes j), sha256 = j_payload_sha256 j\<rparr>"
  using assms
  by (auto simp: decode_leased_def Let_def res_bind_Inr_iff read_u32_same split: option.splits
      dest!: parse_digest_same observation_id_parse_same)

subsection \<open>Decoding an appended row\<close>

text \<open>What the types of the fields of an admission guarantee: its identifiers were built by
  their checked constructors.\<close>
definition admitted_typed :: "admitted_observation \<Rightarrow> bool" where
  "admitted_typed a \<longleftrightarrow> is_sha256 (ao_idempotency_key a) \<and>
    observation_id_parse (ao_observation_id a) = Inr (ao_observation_id a) \<and>
    provider_id_new (pt_provider_id (ao_target a)) = Inr () \<and>
    require_versioned_id (ao_observation_kind a) = Inr ()"

definition leased_of ::
  "sha \<Rightarrow> admitted_observation \<Rightarrow> string \<Rightarrow> string \<Rightarrow> string \<Rightarrow> micros \<Rightarrow> micros \<Rightarrow> nat \<Rightarrow> leased_observation" where
  "leased_of sha a key inst owner at lapse attempt =
    \<lparr>lo_lease_id = lease_id_derive sha key owner at attempt, lo_lease_expires_at = lapse,
     lo_observation_id = ao_observation_id a, lo_idempotency_key = key,
     lo_target = (ao_target a)\<lparr>pt_provider_instance_id := inst\<rparr>, lo_exact_scope = ao_exact_scope a,
     lo_exact_scope_sha256 = exact_scope_sha256 sha (ao_exact_scope a),
     lo_observation_kind = ao_observation_kind a, lo_payload = ao_payload a,
     lo_extensions = ao_extensions a, lo_extensions_digest = ao_extensions_digest a,
     lo_privacy = ao_privacy a, lo_provenance_origin = ao_provenance_origin a,
     lo_sanitization = ao_sanitization a, lo_attempt_number = attempt, lo_deadline = ao_deadline a,
     lo_source_sequence = sr_source_sequence (ao_source a)\<rparr>"

lemma boundary_scan_valid:
  "extension_boundary_scan sha n total_bytes xs = Inr m \<Longrightarrow> list_all (\<lambda>x. opaque_extension_validate sha x = Inr ()) xs"
  by (induction sha n total_bytes xs rule: extension_boundary_scan.induct)
    (auto simp: res_bind_Inr_iff split: if_splits)

lemma admitted_parts:
  assumes "admitted_validate sha a = Inr ()"
  shows "list_all (\<lambda>x. opaque_extension_validate sha x = Inr ()) (ao_extensions a)"
    "exact_scope_validate (ao_exact_scope a) = Inr ()" "provider_target_validate (ao_target a) = Inr ()"
    "privacy_validate (ao_privacy a) = Inr ()"
  using assms
  by (auto simp: admitted_validate_def res_bind_Inr_iff first_error_ok is_ok_unit validate_extension_boundary_def
      observation_extensions_digest_def split: if_splits option.splits dest: boundary_scan_valid)

lemma decode_appended:
  assumes valid: "admitted_validate sha a = Inr ()" and typed: "admitted_typed a" and key: "is_sha256 key"
    and inst: "inst \<noteq> []" "length inst \<le> SOURCE_EVENT_ID_MAX_BYTES" and stored: "d_attempt_number d \<le> u32_max"
  shows "decode_leased sha ((journal_row_of sha a)\<lparr>j_idempotency_key := key\<rparr>) d inst owner at lapse =
    Inr (leased_of sha a key inst owner at lapse (sat_add_u32 (d_attempt_number d) 1))"
proof -
  note parts = admitted_parts [OF valid] and facts = admitted_validateD [OF valid]
  have "require_versioned_id (contract_id (ao_payload a)) = Inr ()"
    using facts(1) by (simp add: canonical_payload_validate_def first_error_ok is_ok_unit)
  moreover have "provider_target_validate ((ao_target a)\<lparr>pt_provider_instance_id := inst\<rparr>) = Inr ()"
    using parts(3) inst by (simp add: provider_target_validate_def first_error_ok)
  moreover have "decode_extensions sha (encode_extensions (ao_extensions a)) = Inr (ao_extensions a)"
    using into_from_extensions [OF parts(1)] by (simp add: decode_extensions_def encode_extensions_def)
  moreover have "forget_source_key_new (pv_forget_source_key (ao_privacy a)) = Inr (pv_forget_source_key (ao_privacy a))"
    using parts(4) by (simp add: forget_source_key_new_def privacy_validate_def res_bind_Inr_iff)
  moreover have "parse_digest ''idempotency_key'' key = Inr key"
    using key by (simp add: parse_digest_def res_bind_Inr_iff)
  moreover obtain c b h where "ao_payload a = \<lparr>contract_id = c, payload_bytes = b, sha256 = h\<rparr>"
    by (cases "ao_payload a")
  ultimately show ?thesis
    using typed stored parts(2) facts(1-4)
    by (simp add: decode_leased_def journal_row_of_def leased_of_def admitted_typed_def
        check_provider_id_def decode_sanitization_def read_u32_def decode_scope_def lift_api_def Let_def
        j_sequence_def)
qed

lemma decode_admitted_appended:
  assumes "admitted_validate sha a = Inr ()" "admitted_typed a" "d_attempt_number d \<le> u32_max"
  shows "decode_admitted sha (journal_row_of sha a) d = Inr a"
proof -
  let ?key = "ao_idempotency_key a" and ?inst = "pt_provider_instance_id (ao_target a)"
  have key: "is_sha256 ?key" using assms(2) by (simp add: admitted_typed_def)
  have inst: "?inst \<noteq> []" "length ?inst \<le> SOURCE_EVENT_ID_MAX_BYTES"
    using admitted_parts(3) [OF assms(1)] by (simp_all add: provider_target_validate_def first_error_ok)
  have row: "(journal_row_of sha a)\<lparr>j_idempotency_key := ?key\<rparr> = journal_row_of sha a"
    by (simp add: journal_row_of_def)
  have target: "(ao_target a)\<lparr>pt_provider_instance_id := ?inst\<rparr> = ao_target a" by (cases "ao_target a") simp
  show ?thesis
    using decode_appended [OF assms(1,2) key inst assms(3), of "''admission-read''" 0 1] assms(1) target
    by (cases a) (simp add: decode_admitted_def row leased_of_def journal_row_of_def Let_def)
qed


lemma sample_typed: "admitted_typed (sample_admitted 1 ''a'')"
  using sample_observation_id
  by (simp add: admitted_typed_def sample_admitted_def require_versioned_id_def capability_id_new_def
      valid_segmented_ascii_def is_ascii_lowercase_def is_ascii_digit_def provider_id_new_def)


end
