(* ===== verification/Journal_Lease.thy ===== *)
theory Journal_Lease
  imports Journal_Decode
begin

text \<open>
  What leasing a batch promises (\<^verbatim>\<open>lease_pending\<close> of \<^verbatim>\<open>sqlite/dispatch.rs\<close>).  The batch respects
  the item and the byte budget of the request, each leased observation is backed by one row
  that now carries its lease, its attempt number and its owner, and the rows it did not touch
  are unchanged.  The bound \<^verbatim>\<open>max_attempts\<close> holds when the rows that have used it up fit the
  item budget; a store with more of them shows that it does not hold otherwise.
\<close>

subsection \<open>Packing a batch\<close>

text \<open>A candidate is a decoded row together with what the claim has to find unchanged.\<close>
definition candidate_of :: "sha \<Rightarrow> lease_request \<Rightarrow> delivery_row \<times> journal_row \<Rightarrow> candidate \<Rightarrow> bool" where
  "candidate_of sha q = (\<lambda>(d, j) (item, state, consumed).
    decode_leased sha j d (lr_provider_instance_id q) (lr_lease_owner q) (lr_now q)
      (sat_add_i64 (lr_now q) (lr_lease_duration q)) = Inr item \<and>
    state = d_state d \<and> consumed = lo_attempt_number item - 1)"

definition batch_weight :: "leased_observation list \<Rightarrow> nat" where
  "batch_weight ls = sum_list (map leased_queue_bytes ls)"

text \<open>What was picked comes from a subsequence of the scanned rows.\<close>
definition picked_from ::
  "sha \<Rightarrow> lease_request \<Rightarrow> (delivery_row \<times> journal_row) list \<Rightarrow> candidate list \<Rightarrow> bool" where
  "picked_from sha q rows cs \<longleftrightarrow> (\<exists>sub. subseq sub rows \<and> list_all2 (candidate_of sha q) sub cs)"

lemma picked_from_refl: "picked_from sha q rows [] "
  unfolding picked_from_def by (intro exI [of _ "[]"]) simp

lemma picked_from_snoc:
  assumes "picked_from sha q rows cs" "candidate_of sha q row c"
  shows "picked_from sha q (rows @ [row]) (cs @ [c])"
proof -
  obtain sub where "subseq sub rows" "list_all2 (candidate_of sha q) sub cs"
    using assms(1) unfolding picked_from_def by blast
  then have "subseq (sub @ [row]) (rows @ [row])" "list_all2 (candidate_of sha q) (sub @ [row]) (cs @ [c])"
    using assms(2) by (auto intro: list_all2_appendI)
  then show ?thesis unfolding picked_from_def by blast
qed

lemma picked_from_skip:
  assumes "picked_from sha q rows cs"
  shows "picked_from sha q (rows @ rest) cs"
proof -
  obtain sub where sub: "subseq sub rows" "list_all2 (candidate_of sha q) sub cs"
    using assms unfolding picked_from_def by blast
  have "subseq sub (rows @ rest)" by (rule subseq_order.trans [OF sub(1) prefix_imp_subseq]) simp
  with sub(2) show ?thesis unfolding picked_from_def by blast
qed

lemma pack_batch_picked:
  assumes "pack_batch sha q rows picked bytes = Inr res" "picked_from sha q seen picked"
  shows "picked_from sha q (seen @ rows) res"
  using assms
proof (induction rows arbitrary: picked bytes seen)
  case (Cons row rows)
  obtain d j where row: "row = (d, j)" by force
  show ?case
  proof (cases "lr_max_items q \<le> length picked")
    case True
    with Cons.prems row show ?thesis using picked_from_skip [OF Cons.prems(2)] by simp
  next
    case False
    then obtain item where item: "decode_leased sha j d (lr_provider_instance_id q) (lr_lease_owner q) (lr_now q)
      (sat_add_i64 (lr_now q) (lr_lease_duration q)) = Inr item"
      using Cons.prems(1) row by (auto simp: res_bind_Inr_iff)
    let ?c = "(item, d_state d, lo_attempt_number item - 1)"
    have cand: "candidate_of sha q row ?c" using item row by (simp add: candidate_of_def)
    note grow = picked_from_skip [OF Cons.prems(2), of "[row]"] picked_from_snoc [OF Cons.prems(2) cand]
      picked_from_skip [OF picked_from_snoc [OF picked_from_refl cand], of seen]
    have "picked_from sha q ((seen @ [row]) @ rows) ([] @ [?c])"
      by (intro picked_from_skip picked_from_snoc [OF picked_from_refl cand])
    with Cons.IH [OF _ grow(1)] Cons.IH [OF _ grow(2)] Cons.prems(1) False row item show ?thesis
      by (auto simp: Let_def split: if_splits)
  qed
qed simp

lemma pack_batch_bounds:
  assumes "pack_batch sha q rows picked bytes = Inr res" "length picked \<le> lr_max_items q" "0 < lr_max_items q"
    "bytes = batch_weight (map fst picked)" "bytes \<le> lr_max_bytes q" "lr_max_bytes q < u64_max"
  shows "length res \<le> lr_max_items q \<and> (batch_weight (map fst res) \<le> lr_max_bytes q \<or> length res = 1)"
  using assms
proof (induction rows arbitrary: picked bytes)
  case (Cons row rows)
  obtain d j where row: "row = (d, j)" by force
  show ?case
  proof (cases "lr_max_items q \<le> length picked")
    case True
    with Cons.prems row show ?thesis by simp
  next
    case False
    then obtain item where item: "decode_leased sha j d (lr_provider_instance_id q) (lr_lease_owner q) (lr_now q)
      (sat_add_i64 (lr_now q) (lr_lease_duration q)) = Inr item"
      using Cons.prems(1) row by (auto simp: res_bind_Inr_iff)
    let ?c = "(item, d_state d, lo_attempt_number item - 1)" and ?w = "leased_queue_bytes item"
    have run: "(if picked = [] \<and> lr_max_bytes q < ?w then Inr [?c]
        else if lr_max_bytes q < sat_add_u64 bytes ?w then pack_batch sha q rows picked bytes
        else pack_batch sha q rows (picked @ [?c]) (sat_add_u64 bytes ?w)) = Inr res"
      using Cons.prems(1) False row item by (simp add: Let_def del: One_nat_def split del: if_split)
    have "bytes + ?w \<le> lr_max_bytes q \<and> sat_add_u64 bytes ?w = bytes + ?w" if "\<not> lr_max_bytes q < sat_add_u64 bytes ?w"
      using that Cons.prems(6) by (auto simp: sat_add_u64_def)
    with run Cons.IH [of picked bytes] Cons.IH [of "picked @ [?c]" "bytes + ?w"] Cons.prems(2-6) False show ?thesis
      by (auto simp: batch_weight_def split: if_splits)
  qed
qed simp

subsection \<open>Claiming\<close>

text \<open>A candidate that was packed from a row of the table.\<close>
definition claimable :: "sha \<Rightarrow> lease_request \<Rightarrow> delivery_row list \<Rightarrow> delivery_row \<times> journal_row \<Rightarrow> candidate \<Rightarrow> bool" where
  "claimable sha q ds = (\<lambda>(d, j) c. candidate_of sha q (d, j) c \<and> d \<in> set ds \<and> is_deliverable (d_state d) \<and>
    j_idempotency_key j = d_idempotency_key d \<and> lr_now q < j_deadline j)"

lemma claimable_facts:
  assumes "claimable sha q ds (d, j) c"
  shows "d \<in> set ds" "is_deliverable (d_state d)" "lo_idempotency_key (fst c) = d_idempotency_key d"
    "lo_attempt_number (fst c) = sat_add_u32 (d_attempt_number d) 1" "fst (snd c) = d_state d"
    "snd (snd c) = sat_add_u32 (d_attempt_number d) 1 - 1" "lr_now q < lo_deadline (fst c)"
    "lo_lease_expires_at (fst c) = sat_add_i64 (lr_now q) (lr_lease_duration q)" "d_attempt_number d \<le> u32_max"
  using assms
  by (auto simp: claimable_def candidate_of_def split: prod.splits dest: decode_leased_facts)

lemma claim_hit_row:
  assumes "claimable sha q ds (d, j) c" "claim_hit c x" "x \<in> set ds" "distinct (map d_idempotency_key ds)"
  shows "x = d" "d_attempt_number d < u32_max"
proof -
  note facts = claimable_facts [OF assms(1)]
  have "d_idempotency_key x = d_idempotency_key d"
    using assms(2) facts(3) by (cases c) (auto simp: claim_hit_def)
  then show "x = d" using assms(3,4) facts(1) by (auto simp: distinct_map inj_on_def)
  with assms(2) facts(6,9) show "d_attempt_number d < u32_max"
    by (cases c) (auto simp: claim_hit_def sat_add_u32_def u32_max_def)
qed

lemma claim_hit_self:
  assumes "claimable sha q ds (d, j) c" "d_attempt_number d < u32_max"
  shows "claim_hit c d" "lo_attempt_number (fst c) = d_attempt_number d + 1"
  using claimable_facts [OF assms(1)] assms(2)
  by (cases c; simp add: claim_hit_def sat_add_u32_def)+

lemma claim_row_facts [simp]:
  "d_state (claim_row q item d) = Leased" "d_idempotency_key (claim_row q item d) = d_idempotency_key d"
  "d_attempt_number (claim_row q item d) = d_attempt_number d + 1" "d_queue_bytes (claim_row q item d) = d_queue_bytes d"
  "d_lease_id (claim_row q item d) = Some (lo_lease_id item)" "same_identity d (claim_row q item d)"
  "d_lease_owner (claim_row q item d) = Some (lr_lease_owner q)"
  "d_lease_expires_at (claim_row q item d) = Some (lo_lease_expires_at item)"
  by (simp_all add: claim_row_def same_identity_def)

lemma claim_row_leaves_queue:
  "is_deliverable (d_state d) \<Longrightarrow> leaves_queue d (claim_row q item d)"
  by (cases "d_state d") (auto simp: leaves_queue_def evolves_def)

lemma claim_row_ok: "delivery_ok d \<Longrightarrow> d_attempt_number d < u32_max \<Longrightarrow> delivery_ok (claim_row q item d)"
  by (simp add: delivery_ok_def)

lemma claim_one:
  assumes "claimable sha q ds (d, j) c" "distinct (map d_idempotency_key ds)"
  defines "ds1 \<equiv> update_where (claim_hit c) (claim_row q (fst c)) ds"
  shows "list_all2 leaves_queue ds ds1" "map d_idempotency_key ds1 = map d_idempotency_key ds"
    "\<And>x. x \<in> set ds \<Longrightarrow> x \<noteq> d \<Longrightarrow> x \<in> set ds1"
    "list_all delivery_ok ds \<Longrightarrow> list_all delivery_ok ds1"
    "count_where (claim_hit c) ds = 1 \<Longrightarrow>
      claim_row q (fst c) d \<in> set ds1 \<and> lo_attempt_number (fst c) = d_attempt_number d + 1"
proof -
  note facts = claimable_facts [OF assms(1)] and hit = claim_hit_row [OF assms(1) _ _ assms(2)]
  show "list_all2 leaves_queue ds ds1"
    unfolding ds1_def using hit facts(2) by (auto intro!: list_all2_update_where claim_row_leaves_queue)
  show "map d_idempotency_key ds1 = map d_idempotency_key ds"
    unfolding ds1_def by (rule map_update_where) simp
  show "x \<in> set ds1" if "x \<in> set ds" "x \<noteq> d" for x
    using that hit(1) unfolding ds1_def set_update_where by blast
  show "list_all delivery_ok ds1" if "list_all delivery_ok ds"
    unfolding ds1_def using that hit by (intro list_all_update_where) (auto simp: list_all_iff intro!: claim_row_ok)
  assume one: "count_where (claim_hit c) ds = 1"
  then obtain x where "x \<in> set ds" "claim_hit c x"
    using count_where_pos [of "claim_hit c" ds] by auto
  then have "claim_hit c d" "d_attempt_number d < u32_max" using hit by blast+
  then show "claim_row q (fst c) d \<in> set ds1 \<and> lo_attempt_number (fst c) = d_attempt_number d + 1"
    using claim_hit_self(2) [OF assms(1)] facts(1) unfolding ds1_def set_update_where by blast
qed

lemma claimable_mono: "claimable sha q ds (d, j) c \<Longrightarrow> d \<in> set ds' \<Longrightarrow> claimable sha q ds' (d, j) c"
  by (auto simp: claimable_def)

lemma claim_each_ok:
  assumes "list_all2 (claimable sha q ds) rows cs" "distinct (map fst rows)"
    "distinct (map d_idempotency_key ds)" "claim_each q cs ds = (leased, ds')"
  shows "list_all2 leaves_queue ds ds' \<and> (list_all delivery_ok ds \<longrightarrow> list_all delivery_ok ds') \<and>
    subseq leased (map fst cs) \<and> (\<forall>x\<in>set ds. x \<notin> fst ` set rows \<longrightarrow> x \<in> set ds') \<and>
    (\<forall>item\<in>set leased. \<exists>d j c. (d, j) \<in> set rows \<and> claimable sha q ds (d, j) c \<and> fst c = item \<and>
      claim_row q item d \<in> set ds' \<and> lo_attempt_number item = d_attempt_number d + 1)"
  using assms
proof (induction cs arbitrary: ds rows leased ds' rule: list.induct)
  case Nil
  then show ?case by (simp add: list_all2_refl)
next
  case (Cons c cs)
  from Cons.prems(1) obtain d j rows' where rows: "rows = (d, j) # rows'" "claimable sha q ds (d, j) c"
    "list_all2 (claimable sha q ds) rows' cs" by (auto simp: list_all2_Cons2)
  let ?ds1 = "update_where (claim_hit c) (claim_row q (fst c)) ds"
  note one = claim_one [OF rows(2) Cons.prems(3)]
  obtain rest where rest: "claim_each q cs ?ds1 = (rest, ds')"
    "leased = (if count_where (claim_hit c) ds = 1 then fst c # rest else rest)"
    using Cons.prems(4) by (auto split: prod.splits)
  have mem: "x \<in> set ?ds1" if "(x, y) \<in> set rows'" for x y
  proof (rule one(3))
    show "x \<noteq> d" using that Cons.prems(2) rows(1) by force
    show "x \<in> set ds" using list_all2_memD [OF rows(3) that] by (auto simp: claimable_def)
  qed
  have "list_all2 (claimable sha q ?ds1) rows' cs"
  proof (rule list.rel_mono_strong [OF rows(3)])
    fix r c1 assume "r \<in> set rows'" "claimable sha q ds r c1"
    moreover obtain d1 j1 where "r = (d1, j1)" by force
    ultimately show "claimable sha q ?ds1 r c1" using claimable_mono mem by blast
  qed
  moreover have "distinct (map d_idempotency_key ?ds1)" using one(2) Cons.prems(3) by simp
  ultimately have IH: "list_all2 leaves_queue ?ds1 ds'" "list_all delivery_ok ?ds1 \<longrightarrow> list_all delivery_ok ds'"
    "subseq rest (map fst cs)" "\<forall>x\<in>set ?ds1. x \<notin> fst ` set rows' \<longrightarrow> x \<in> set ds'"
    "\<forall>item\<in>set rest. \<exists>d j c. (d, j) \<in> set rows' \<and> claimable sha q ?ds1 (d, j) c \<and> fst c = item \<and>
      claim_row q item d \<in> set ds' \<and> lo_attempt_number item = d_attempt_number d + 1"
    using Cons.IH [OF _ _ _ rest(1), of rows'] Cons.prems(2) rows(1) by auto
  have "claim_row q (fst c) d \<notin> fst ` set rows'"
    using list_all2_memD [OF rows(3)] by (fastforce simp: claimable_def)
  then have head: "claim_row q (fst c) d \<in> set ds' \<and> lo_attempt_number (fst c) = d_attempt_number d + 1"
    if "count_where (claim_hit c) ds = 1"
    using one(5) [OF that] IH(4) by blast
  have tail: "\<exists>d j c. (d, j) \<in> set rows \<and> claimable sha q ds (d, j) c \<and> fst c = item \<and>
      claim_row q item d \<in> set ds' \<and> lo_attempt_number item = d_attempt_number d + 1" if "item \<in> set rest" for item
  proof -
    obtain d1 j1 c1 where it: "(d1, j1) \<in> set rows'" "claimable sha q ?ds1 (d1, j1) c1" "fst c1 = item"
      "claim_row q item d1 \<in> set ds'" "lo_attempt_number item = d_attempt_number d1 + 1"
      using IH(5) \<open>item \<in> set rest\<close> by blast
    moreover have "claimable sha q ds (d1, j1) c1"
      using list_all2_memD [OF rows(3) it(1)] by (intro claimable_mono [OF it(2)]) (auto simp: claimable_def)
    moreover have "(d1, j1) \<in> set rows" using it(1) rows(1) by simp
    ultimately show ?thesis by blast
  qed
  have "\<forall>x\<in>set ds. x \<notin> fst ` set rows \<longrightarrow> x \<in> set ds'" using one(3) IH(4) rows(1) by auto
  moreover have "list_all2 leaves_queue ds ds'" by (rule list_all2_leaves_queue_trans [OF one(1) IH(1)])
  moreover have "\<forall>item\<in>set leased. \<exists>d j c. (d, j) \<in> set rows \<and> claimable sha q ds (d, j) c \<and> fst c = item \<and>
      claim_row q item d \<in> set ds' \<and> lo_attempt_number item = d_attempt_number d + 1"
  proof
    fix item assume "item \<in> set leased"
    then consider "item \<in> set rest" | "count_where (claim_hit c) ds = 1" "fst c = item"
      using rest(2) by (auto split: if_splits)
    moreover have "(d, j) \<in> set rows" using rows(1) by simp
    ultimately show "\<exists>d j c. (d, j) \<in> set rows \<and> claimable sha q ds (d, j) c \<and> fst c = item \<and>
      claim_row q item d \<in> set ds' \<and> lo_attempt_number item = d_attempt_number d + 1"
      using head tail rows(2) by cases blast+
  qed
  ultimately show ?case using one(4) IH(2,3) rest(2) by auto
qed

subsection \<open>Leasing\<close>

lemma subseq_distinct: "subseq xs ys \<Longrightarrow> distinct ys \<Longrightarrow> distinct xs"
proof (induction rule: list_emb.induct)
  case (list_emb_Cons2 x y xs ys)
  then show ?case using list_emb_set [of "(=)" xs ys x] by auto
qed simp_all

lemma lease_selection:
  assumes "store_ok s" "picked_from sha q (select_ready s q policy) cs"
  obtains rows where "list_all2 (claimable sha q (st_delivery s)) rows cs" "distinct (map fst rows)"
    "set rows \<subseteq> set (select_ready s q policy)"
proof -
  obtain rows where rows: "subseq rows (select_ready s q policy)" "list_all2 (candidate_of sha q) rows cs"
    using assms(2) unfolding picked_from_def by blast
  have sub: "set rows \<subseteq> set (select_ready s q policy)"
    using list_emb_set [OF rows(1)] by blast
  have "list_all2 (claimable sha q (st_delivery s)) rows cs"
  proof (rule list.rel_mono_strong [OF rows(2)])
    fix r c assume r: "r \<in> set rows" "candidate_of sha q r c"
    obtain d j where dj: "r = (d, j)" by force
    have "(d, j) \<in> set (select_ready s q policy)" using sub r(1) dj by auto
    then have mem: "(d, j) \<in> set (select_limit (lease_ready q) (\<lambda>(d, j). queue_order d) (scan_limit q policy) (joined s))"
      by (simp add: select_ready_def)
    note sel = select_joined_mem [OF assms(1) mem]
    have "belongs_to j d" using sel(1,2) journal_of_belongs [OF assms(1), of d] by simp
    with sel r(2) dj show "claimable sha q (st_delivery s) r c"
      by (auto simp: claimable_def lease_ready_def belongs_to_def)
  qed
  moreover have "distinct (map fst rows)"
    using subseq_map [OF rows(1), of fst] distinct_map_fst_joined [OF assms(1), of "lease_ready q"]
    unfolding select_ready_def by (auto intro: subseq_distinct)
  ultimately show ?thesis using sub that by blast
qed

lemma lease_phases:
  assumes "lease_pending_in_transaction sha policy q s = Inr (leased, s')"
  obtains n1 s1 n2 s2 cs where
    "terminalize_deliveries sha (select_past_deadline s q) Expired DeadlineExceeded
      ''observation_deadline_elapsed'' (lr_now q) s = Inr (n1, s1)"
    "terminalize_deliveries sha (select_attempts_exhausted s1 q policy) Exhausted ProviderUnavailable
      ''max_delivery_attempts_consumed'' (lr_now q) s1 = Inr (n2, s2)"
    "pack_batch sha q (select_ready s2 q policy) [] 0 = Inr cs"
    "claim_each q cs (st_delivery s2) = (leased, st_delivery s')" "s' = s2\<lparr>st_delivery := st_delivery s'\<rparr>"
  using assms unfolding lease_pending_in_transaction_def
  by (elim res_bind_Inr_E case_prodE) (auto simp: case_prod_unfold Let_def res_bind_Inr_iff)

text \<open>What one successful leasing transaction did: rows were terminated first, then claimed.\<close>
lemma lease_transaction:
  assumes "store_ok s" "lease_pending_in_transaction sha policy q s = Inr (leased, s')"
  obtains s2 cs rows where "queue_step s s2" "pack_batch sha q (select_ready s2 q policy) [] 0 = Inr cs"
    "list_all2 (claimable sha q (st_delivery s2)) rows cs" "distinct (map fst rows)"
    "set rows \<subseteq> set (select_ready s2 q policy)"
    "claim_each q cs (st_delivery s2) = (leased, st_delivery s')" "s' = s2\<lparr>st_delivery := st_delivery s'\<rparr>"
proof -
  obtain n1 s1 n2 s2 cs where run:
    "terminalize_deliveries sha (select_past_deadline s q) Expired DeadlineExceeded
      ''observation_deadline_elapsed'' (lr_now q) s = Inr (n1, s1)"
    "terminalize_deliveries sha (select_attempts_exhausted s1 q policy) Exhausted ProviderUnavailable
      ''max_delivery_attempts_consumed'' (lr_now q) s1 = Inr (n2, s2)"
    "pack_batch sha q (select_ready s2 q policy) [] 0 = Inr cs"
    "claim_each q cs (st_delivery s2) = (leased, st_delivery s')" "s' = s2\<lparr>st_delivery := st_delivery s'\<rparr>"
    by (rule lease_phases [OF assms(2)])
  have one: "queue_step s s1"
    by (rule terminalize_deliveries_step [OF assms(1) select_past_deadline_rows [OF assms(1)] _ _ run(1)]) simp_all
  then have ok: "store_ok s1" by (simp add: queue_step_def delivery_step_def)
  have "queue_step s1 s2"
    by (rule terminalize_deliveries_step [OF ok select_attempts_exhausted_rows [OF ok] _ _ run(2)]) simp_all
  with one have q: "queue_step s s2" by (rule queue_step_trans)
  then have ok2: "store_ok s2" by (simp add: queue_step_def delivery_step_def)
  have "picked_from sha q (select_ready s2 q policy) cs"
    using pack_batch_picked [OF run(3) picked_from_refl [of sha q "[]"]] by simp
  then obtain rows where "list_all2 (claimable sha q (st_delivery s2)) rows cs" "distinct (map fst rows)"
    "set rows \<subseteq> set (select_ready s2 q policy)"
    by (rule lease_selection [OF ok2])
  then show ?thesis using that q run(3-5) by blast
qed

lemma lease_request_validate_items: "is_ok (lease_request_validate q) \<Longrightarrow> 0 < lr_max_items q"
  by (cases "lease_request_validate q")
    (auto simp: lease_request_validate_def first_error_ok split: if_splits)

lemma lease_run:
  assumes "lease_pending sha policy q s = (Inr batch, s')"
  shows "lease_pending_in_transaction sha policy q s = Inr (batch, s')" "0 < lr_max_items q"
proof -
  from assms show "lease_pending_in_transaction sha policy q s = Inr (batch, s')"
    by (auto simp: lease_pending_def with_transaction_ok split: sum.splits)
  from assms have "is_ok (lease_request_validate q)"
    by (auto simp: lease_pending_def first_error_ok split: sum.splits)
  then show "0 < lr_max_items q" by (rule lease_request_validate_items)
qed

lemma delivery_step_replace:
  assumes "delivery_step s s2" "list_all2 leaves_queue (st_delivery s2) ds" "list_all delivery_ok ds"
    "list_all2 leaves_queue (st_delivery s) (st_delivery s2)"
  shows "delivery_step s (s2\<lparr>st_delivery := ds\<rparr>)"
proof -
  have "list_all2 leaves_queue (st_delivery s) ds" by (rule list_all2_leaves_queue_trans [OF assms(4,2)])
  then have "list_all2 evolves (st_delivery s) ds" by (rule list_all2_mono) (rule leaves_queue_evolves)
  moreover have "list_all2 evolves (st_delivery s2) ds" by (rule list_all2_mono [OF assms(2)]) (rule leaves_queue_evolves)
  then have "store_ok (s2\<lparr>st_delivery := ds\<rparr>)"
    using assms(1,3) by (intro store_ok_update_delivery) (auto simp: delivery_step_def)
  ultimately show ?thesis
    using assms(1) by (simp add: delivery_step_def same_admissions_def evidence_grows_def watermarks_kept_def)
qed

lemma lease_transaction_step:
  assumes "store_ok s" "lease_pending_in_transaction sha policy q s = Inr (leased, s')"
  shows "delivery_step s s'"
proof -
  obtain s2 cs rows where run: "queue_step s s2" "list_all2 (claimable sha q (st_delivery s2)) rows cs"
    "distinct (map fst rows)" "claim_each q cs (st_delivery s2) = (leased, st_delivery s')"
    "s' = s2\<lparr>st_delivery := st_delivery s'\<rparr>"
    by (rule lease_transaction [OF assms])
  have ok: "store_ok s2" using run(1) by (simp add: queue_step_def delivery_step_def)
  have "list_all delivery_ok (st_delivery s2)" using ok by (simp add: store_ok_def)
  with claim_each_ok [OF run(2,3) conjunct1 [OF store_ok_delivery_keys [OF ok]] run(4)] run(1)
  have "delivery_step s (s2\<lparr>st_delivery := st_delivery s'\<rparr>)"
    by (intro delivery_step_replace) (auto simp: queue_step_def)
  then show ?thesis using run(5) by simp
qed

lemma lease_pending_step: "store_ok s \<Longrightarrow> delivery_step s (snd (lease_pending sha policy q s))"
  unfolding lease_pending_def by (intro guarded_transaction_step lease_transaction_step)

text \<open>C25. A leased batch has at most the requested number of items, and its payload and
  extension bytes stay within the byte budget unless it consists of one observation that is
  larger than the budget on its own.\<close>
theorem lease_batch_bounded:
  assumes "store_ok s" "lease_pending sha policy q s = (Inr batch, s')" "lr_max_bytes q < u64_max"
  shows "length batch \<le> lr_max_items q \<and> (batch_weight batch \<le> lr_max_bytes q \<or> length batch = 1)"
proof -
  note run = lease_run [OF assms(2)]
  obtain s2 cs rows where lease: "queue_step s s2" "pack_batch sha q (select_ready s2 q policy) [] 0 = Inr cs"
    "list_all2 (claimable sha q (st_delivery s2)) rows cs" "distinct (map fst rows)"
    "claim_each q cs (st_delivery s2) = (batch, st_delivery s')"
    by (rule lease_transaction [OF assms(1) run(1)])
  have "store_ok s2" using lease(1) by (simp add: queue_step_def delivery_step_def)
  then have sub: "subseq batch (map fst cs)"
    using claim_each_ok [OF lease(3,4) _ lease(5)] store_ok_delivery_keys by blast
  then have len: "length batch \<le> length cs" using list_emb_length by fastforce
  have weight: "batch_weight batch \<le> batch_weight (map fst cs)"
    using sub unfolding batch_weight_def by (induction rule: list_emb.induct) auto
  have "length cs \<le> lr_max_items q \<and> (batch_weight (map fst cs) \<le> lr_max_bytes q \<or> length cs = 1)"
    using pack_batch_bounds [OF lease(2)] run(2) assms(3) by (simp add: batch_weight_def)
  moreover have "batch_weight batch = 0" if "length batch = 0" using that by (simp add: batch_weight_def)
  ultimately show ?thesis using len weight by linarith
qed

lemma leaves_queue_old:
  assumes "list_all2 leaves_queue ds ds'" "d \<in> set ds'" "is_deliverable (d_state d)"
  shows "d \<in> set ds"
  using assms by (induction rule: list_all2_induct) (auto simp: leaves_queue_def)

lemma lease_batch_distinct:
  assumes "store_ok s" "lease_pending sha policy q s = (Inr batch, s')"
  shows "distinct (map lo_idempotency_key batch)"
proof -
  obtain s2 cs rows where lease: "queue_step s s2" "list_all2 (claimable sha q (st_delivery s2)) rows cs"
    "distinct (map fst rows)" "claim_each q cs (st_delivery s2) = (batch, st_delivery s')"
    by (rule lease_transaction [OF assms(1) lease_run(1) [OF assms(2)]])
  have ok2: "store_ok s2" using lease(1) by (simp add: queue_step_def delivery_step_def)
  have keys: "distinct (map d_idempotency_key (st_delivery s2))" using store_ok_delivery_keys [OF ok2] by blast
  have "map (lo_idempotency_key \<circ> fst) cs = map (d_idempotency_key \<circ> fst) rows"
    using lease(2) by (induction rule: list_all2_induct) (auto dest: claimable_facts(3))
  moreover have "set (map fst rows) \<subseteq> set (st_delivery s2)"
    using list_all2_memD [OF lease(2)] claimable_facts(1) by fastforce
  then have "distinct (map d_idempotency_key (map fst rows))"
    using lease(3) keys by (auto simp: distinct_map intro: comp_inj_on inj_on_subset)
  ultimately have "distinct (map lo_idempotency_key (map fst cs))" by (simp add: comp_def)
  then show ?thesis
    using claim_each_ok [OF lease(2,3) keys lease(4)] by (meson subseq_distinct subseq_map)
qed

lemma lease_batch_row:
  assumes "store_ok s" "lease_pending sha policy q s = (Inr batch, s')" "item \<in> set batch"
  shows "lr_now q < lo_deadline item \<and> (\<exists>d\<in>set (st_delivery s). is_deliverable (d_state d) \<and>
    d_idempotency_key d = lo_idempotency_key item \<and> d_observation_id d = lo_observation_id item \<and>
    lo_attempt_number item = d_attempt_number d + 1 \<and> claim_row q item d \<in> set (st_delivery s'))"
proof -
  obtain s2 cs rows where lease: "queue_step s s2" "list_all2 (claimable sha q (st_delivery s2)) rows cs"
    "distinct (map fst rows)" "set rows \<subseteq> set (select_ready s2 q policy)"
    "claim_each q cs (st_delivery s2) = (batch, st_delivery s')"
    by (rule lease_transaction [OF assms(1) lease_run(1) [OF assms(2)]])
  have ok2: "store_ok s2" using lease(1) by (simp add: queue_step_def delivery_step_def)
  have keys: "distinct (map d_idempotency_key (st_delivery s2))" using store_ok_delivery_keys [OF ok2] by blast
  obtain d j c where it: "(d, j) \<in> set rows" "claimable sha q (st_delivery s2) (d, j) c" "fst c = item"
    "claim_row q item d \<in> set (st_delivery s')" "lo_attempt_number item = d_attempt_number d + 1"
    using claim_each_ok [OF lease(2,3) keys lease(5)] assms(3) by blast
  note facts = claimable_facts [OF it(2)]
  have "(d, j) \<in> set (select_limit (lease_ready q) (\<lambda>(d, j). queue_order d) (scan_limit q policy) (joined s2))"
    using lease(4) it(1) by (auto simp: select_ready_def)
  note sel = select_joined_mem [OF ok2 this]
  have "belongs_to j d" using sel(1,2) journal_of_belongs [OF ok2, of d] by simp
  then have "lo_observation_id item = d_observation_id d"
    using it(2,3) by (auto simp: claimable_def candidate_of_def belongs_to_def split: prod.splits dest: decode_leased_facts(2))
  moreover have "d \<in> set (st_delivery s)"
    using leaves_queue_old [OF _ facts(1,2)] lease(1) by (simp add: queue_step_def)
  ultimately show ?thesis using facts(2,3,7) it(3-5) by auto
qed

text \<open>C2. The observations of a leased batch are pairwise different, and each of them is backed
  by one delivery row: the row was waiting before, and it now carries the lease identity and
  the owner of the request with the next attempt number consumed.  No leased observation is
  past its deadline.\<close>
theorem lease_batch_exclusive:
  assumes "store_ok s" "lease_pending sha policy q s = (Inr batch, s')"
  shows "distinct (map lo_idempotency_key batch) \<and>
    (\<forall>item\<in>set batch. lr_now q < lo_deadline item \<and>
      (\<exists>d\<in>set (st_delivery s). \<exists>d'\<in>set (st_delivery s').
        is_deliverable (d_state d) \<and> d_idempotency_key d = lo_idempotency_key item \<and> same_identity d d' \<and>
        d_state d' = Leased \<and> d_lease_id d' = Some (lo_lease_id item) \<and>
        d_lease_owner d' = Some (lr_lease_owner q) \<and>
        d_attempt_number d' = d_attempt_number d + 1 \<and> lo_attempt_number item = d_attempt_number d + 1))"
proof -
  have "\<exists>d\<in>set (st_delivery s). \<exists>d'\<in>set (st_delivery s').
        is_deliverable (d_state d) \<and> d_idempotency_key d = lo_idempotency_key item \<and> same_identity d d' \<and>
        d_state d' = Leased \<and> d_lease_id d' = Some (lo_lease_id item) \<and>
        d_lease_owner d' = Some (lr_lease_owner q) \<and>
        d_attempt_number d' = d_attempt_number d + 1 \<and> lo_attempt_number item = d_attempt_number d + 1"
    if item: "item \<in> set batch" for item
  proof -
    obtain d where "d \<in> set (st_delivery s)" "is_deliverable (d_state d)" "d_idempotency_key d = lo_idempotency_key item"
      "lo_attempt_number item = d_attempt_number d + 1" "claim_row q item d \<in> set (st_delivery s')"
      using lease_batch_row [OF assms item] by blast
    then show ?thesis by (intro bexI [of _ d] bexI [of _ "claim_row q item d"]) simp_all
  qed
  with lease_batch_distinct [OF assms] lease_batch_row [OF assms] show ?thesis by blast
qed

subsection \<open>The attempt bound\<close>

definition exhausted_waiting :: "retention_policy \<Rightarrow> lane \<Rightarrow> delivery_row \<Rightarrow> bool" where
  "exhausted_waiting policy l d \<longleftrightarrow>
    d_lane d = l \<and> is_deliverable (d_state d) \<and> rp_max_attempts policy \<le> d_attempt_number d"

lemma count_where_shrinks:
  assumes "list_all2 R xs ys" "\<And>x y. R x y \<Longrightarrow> P y \<Longrightarrow> P x"
  shows "count_where P ys \<le> count_where P xs"
  using assms(1) by (induction rule: list_all2_induct) (auto simp: count_where_def dest: assms(2))

lemma terminalize_each_gone:
  assumes "store_ok s" "distinct ds" "set ds \<subseteq> {d \<in> set (st_delivery s). is_deliverable (d_state d)}"
    "\<not> is_deliverable st" "st \<noteq> Leased" "terminalize_each sha st out why now ds s = Inr (n, s')" "d \<in> set ds"
  shows "d \<notin> set (st_delivery s')"
  using assms
proof (induction ds arbitrary: s n)
  case (Cons x ds)
  from Cons.prems(6) obtain u s1 m where run:
    "expire_delivery sha (expire_request_of x st out why now) s = Inr (u, s1)"
    "terminalize_each sha st out why now ds s1 = Inr (m, s')"
    by (auto simp: res_bind_Inr_iff)
  have x: "x \<in> set (st_delivery s)" "is_deliverable (d_state x)" using Cons.prems(3) by auto
  note step = expire_delivery_step [OF Cons.prems(1) x(1) run(1) Cons.prems(5)]
  have ok: "store_ok s1" using step(1) by (simp add: delivery_step_def)
  have rest: "set ds \<subseteq> {d \<in> set (st_delivery s1). is_deliverable (d_state d)}"
    using step(2) Cons.prems(2,3) by auto
  show ?case
  proof (cases "d = x")
    case True
    obtain a where "st_delivery s1 = update_where (\<lambda>y. y = x) (terminalize_row sha (expire_request_of x st out why now) a) (st_delivery s)"
      using expire_delivery_effect(2) [OF Cons.prems(1) x(1) run(1)] by force
    moreover have "terminalize_row sha (expire_request_of x st out why now) a x \<noteq> x"
      using x(2) Cons.prems(4) by (metis terminalize_row_facts(1))
    ultimately have "x \<notin> set (st_delivery s1)" by (auto simp: set_update_where)
    moreover have "list_all2 leaves_queue (st_delivery s1) (st_delivery s')"
      using terminalize_each_step [OF ok _ rest Cons.prems(4,5) run(2)] Cons.prems(2) by (simp add: queue_step_def)
    ultimately show ?thesis using leaves_queue_old x(2) True by blast
  next
    case False
    then show ?thesis using Cons.IH [OF ok _ rest Cons.prems(4,5) run(2)] Cons.prems(2,7) by simp
  qed
qed simp

text \<open>C26. While the rows of the lane that have used up the allowed attempts are no more than
  the item budget of the request, no observation is handed out for an attempt beyond
  \<^verbatim>\<open>max_attempts\<close>: those rows are terminated with a receipt of their own instead.\<close>
theorem lease_attempts_bounded:
  assumes "store_ok s" "lease_pending sha policy q s = (Inr batch, s')"
    "count_where (exhausted_waiting policy (lr_lane q)) (st_delivery s) \<le> lr_max_items q"
    "item \<in> set batch"
  shows "lo_attempt_number item \<le> rp_max_attempts policy"
proof -
  let ?P = "exhausted_waiting policy (lr_lane q)"
  obtain n1 s1 n2 s2 cs where run:
    "terminalize_deliveries sha (select_past_deadline s q) Expired DeadlineExceeded
      ''observation_deadline_elapsed'' (lr_now q) s = Inr (n1, s1)"
    "terminalize_deliveries sha (select_attempts_exhausted s1 q policy) Exhausted ProviderUnavailable
      ''max_delivery_attempts_consumed'' (lr_now q) s1 = Inr (n2, s2)"
    "pack_batch sha q (select_ready s2 q policy) [] 0 = Inr cs"
    "claim_each q cs (st_delivery s2) = (batch, st_delivery s')"
    by (rule lease_phases [OF lease_run(1) [OF assms(2)]])
  have q1: "queue_step s s1"
    by (rule terminalize_deliveries_step [OF assms(1) select_past_deadline_rows [OF assms(1)] _ _ run(1)]) simp_all
  then have ok1: "store_ok s1" by (simp add: queue_step_def delivery_step_def)
  note sel = select_attempts_exhausted_rows [OF ok1, of q policy]
  have q2: "queue_step s1 s2"
    by (rule terminalize_deliveries_step [OF ok1 sel _ _ run(2)]) simp_all
  then have ok2: "store_ok s2" by (simp add: queue_step_def delivery_step_def)
  have "count_where ?P (st_delivery s1) \<le> lr_max_items q"
    using count_where_shrinks [of leaves_queue "st_delivery s" "st_delivery s1" ?P] q1 assms(3)
    by (fastforce simp: queue_step_def leaves_queue_def exhausted_waiting_def)
  then have all: "set (select_attempts_exhausted s1 q policy) = {d \<in> set (st_delivery s1). ?P d}"
    unfolding select_attempts_exhausted_def exhausted_waiting_def by (rule select_limit_all)
  have none: "\<not> ?P d" if "d \<in> set (st_delivery s2)" for d
  proof
    assume P: "?P d"
    then have "d \<in> set (st_delivery s1)"
      using leaves_queue_old [OF _ that] q2 by (simp add: queue_step_def exhausted_waiting_def)
    with P all have "d \<in> set (select_attempts_exhausted s1 q policy)" by simp
    moreover obtain m where each: "terminalize_each sha Exhausted ProviderUnavailable ''max_delivery_attempts_consumed''
        (lr_now q) (select_attempts_exhausted s1 q policy) s1 = Inr (m, s2)"
      using run(2) by (auto simp: terminalize_deliveries_def res_bind_Inr_iff)
    ultimately have "d \<notin> set (st_delivery s2)"
      by (intro terminalize_each_gone [OF ok1 sel _ _ each]) simp_all
    with that show False by simp
  qed
  obtain rows where rows: "list_all2 (claimable sha q (st_delivery s2)) rows cs" "distinct (map fst rows)"
    "set rows \<subseteq> set (select_ready s2 q policy)"
    using lease_selection [OF ok2] pack_batch_picked [OF run(3) picked_from_refl [of sha q "[]"]] by (metis append_Nil)
  obtain d j where d: "(d, j) \<in> set rows" "lo_attempt_number item = d_attempt_number d + 1"
    using claim_each_ok [OF rows(1,2) _ run(4)] store_ok_delivery_keys [OF ok2] assms(4) by blast
  have "(d, j) \<in> set (select_limit (lease_ready q) (\<lambda>(d, j). queue_order d) (scan_limit q policy) (joined s2))"
    using rows(3) d(1) by (auto simp: select_ready_def)
  note mem = select_joined_mem [OF ok2 this]
  have "\<not> ?P d" using none mem(1) by simp
  with mem(3) d(2) show ?thesis by (simp add: exhausted_waiting_def lease_ready_def)
qed

subsection \<open>Examples\<close>

definition sample_lease_request :: lease_request where
  "sample_lease_request = \<lparr>lr_provider_id = ''provider'', lr_registration_revision = 1,
    lr_provider_instance_id = ''instance'', lr_exact_scope_sha256 = None, lr_lease_owner = ''owner'',
    lr_now = 5, lr_lease_duration = 100, lr_max_items = 1, lr_max_bytes = 100\<rparr>"

definition sample_journal :: "nat \<Rightarrow> string \<Rightarrow> journal_row" where
  "sample_journal n key = (journal_row_of zero_sha (sample_admitted n ''a''))\<lparr>j_idempotency_key := key\<rparr>"

definition sample_delivery :: "nat \<Rightarrow> string \<Rightarrow> nat \<Rightarrow> delivery_row" where
  "sample_delivery n key attempts = (delivery_row_of zero_sha (sample_admitted n ''a'') 1)
    \<lparr>d_idempotency_key := key, d_attempt_number := attempts\<rparr>"

lemma sample_row_facts [simp]:
  "j_idempotency_key (sample_journal n key) = key" "j_deadline (sample_journal n key) = 1000"
  "j_payload_bytes (sample_journal n key) = Some ''a''" "j_lane (sample_journal n key) = (''provider'', 1)"
  "d_idempotency_key (sample_delivery n key k) = key" "d_lane (sample_delivery n key k) = (''provider'', 1)"
  "d_state (sample_delivery n key k) = Pending" "d_next_attempt_at (sample_delivery n key k) = 1"
  "d_attempt_number (sample_delivery n key k) = k" "d_source_sequence (sample_delivery n key k) = n"
  "belongs_to (sample_journal n key) (sample_delivery n key k)" "content_ok (sample_journal n key)"
  "k \<le> u32_max \<Longrightarrow> delivery_ok (sample_delivery n key k)" "j_sequence (sample_journal n key) = n"
  "j_observation_id (sample_journal n key) = ''00000000-0000-7000-8000-0000000000'' @ decimal (10 + n)"
  "d_observation_id (sample_delivery n key k) = ''00000000-0000-7000-8000-0000000000'' @ decimal (10 + n)"
  by (simp_all add: sample_journal_def sample_delivery_def journal_row_of_def delivery_row_of_def
      sample_admitted_def sample_source_def d_lane_def j_lane_def belongs_to_def content_ok_def
      delivery_ok_def j_sequence_def)

lemma sample_lease_validate [simp]: "lease_request_validate sample_lease_request = Inr ()"
  by (simp add: lease_request_validate_def sample_lease_request_def first_error_ok SOURCE_EVENT_ID_MAX_BYTES_def)

lemma sample_pick:
  assumes "is_sha256 key" "k \<le> u32_max" "n = 1 \<or> n = 2"
  shows "decode_leased zero_sha (sample_journal n key) (sample_delivery n key k) ''instance'' ''owner'' 5 105 =
      Inr (leased_of zero_sha (sample_admitted n ''a'') key ''instance'' ''owner'' 5 105 (sat_add_u32 k 1))"
    "leased_queue_bytes (leased_of zero_sha (sample_admitted n ''a'') key ''instance'' ''owner'' 5 105 m) = 1"
proof -
  have valid: "admitted_validate zero_sha (sample_admitted n ''a'') = Inr ()"
    using assms(3)
    by (elim disjE; hypsubst; intro sample_admitted_valid) (simp_all add: MAX_PAYLOAD_BYTES_def decimal.simps)
  have typed: "admitted_typed (sample_admitted n ''a'')"
    using assms(3)
  proof (elim disjE; hypsubst)
    show "admitted_typed (sample_admitted 1 ''a'')" by (rule sample_typed)
    show "admitted_typed (sample_admitted 2 ''a'')"
      using sample_typed
      by (simp add: admitted_typed_def sample_admitted_def decimal.simps observation_id_parse_def
          is_lower_hex_def is_ascii_digit_def)
  qed
  show "decode_leased zero_sha (sample_journal n key) (sample_delivery n key k) ''instance'' ''owner'' 5 105 =
      Inr (leased_of zero_sha (sample_admitted n ''a'') key ''instance'' ''owner'' 5 105 (sat_add_u32 k 1))"
    using decode_appended [OF valid typed assms(1), of "''instance''" "sample_delivery n key k"] assms(2)
    by (simp add: sample_journal_def SOURCE_EVENT_ID_MAX_BYTES_def)
  show "leased_queue_bytes (leased_of zero_sha (sample_admitted n ''a'') key ''instance'' ''owner'' 5 105 m) = 1"
    by (simp add: leased_queue_bytes_def leased_of_def sample_admitted_def sat_add_u64_def u64_max_def)
qed

text \<open>Two waiting rows that have both used up the single attempt the policy allows.\<close>
definition overrun_store :: journal_store where
  "overrun_store = empty_store\<lparr>
    st_journal := [sample_journal 1 sample_digest, sample_journal 2 (replicate 64 (CHR ''1''))],
    st_delivery := [sample_delivery 1 sample_digest 1, sample_delivery 2 (replicate 64 (CHR ''1'')) 1]\<rparr>"

lemma sample_request_facts [simp]:
  "lr_lane sample_lease_request = (''provider'', 1)" "lr_now sample_lease_request = 5"
  "lr_max_items sample_lease_request = 1" "lr_max_bytes sample_lease_request = 100"
  "lr_provider_instance_id sample_lease_request = ''instance''" "lr_lease_owner sample_lease_request = ''owner''"
  "sat_add_i64 5 (lr_lease_duration sample_lease_request) = 105" "lr_exact_scope_sha256 sample_lease_request = None"
  "scan_limit sample_lease_request sample_policy = 8" "lr_registration_revision sample_lease_request = 1"
  "rp_max_attempts sample_policy = 1"
  by (simp_all add: sample_lease_request_def lr_lane_def scan_limit_def sample_policy_def sat_add_i64_def
      i64_max_def i64_min_def Let_def)

lemma sample_store_waiting:
  "st_journal sample_store = [sample_journal 1 sample_digest]"
  "st_delivery sample_store = [sample_delivery 1 sample_digest 0]"
  unfolding sample_store_rows
  by (simp_all add: sample_journal_def sample_delivery_def journal_row_of_def delivery_row_of_def sample_admitted_def)

definition sample_leased_item :: "nat \<Rightarrow> string \<Rightarrow> nat \<Rightarrow> leased_observation" where
  "sample_leased_item n key = leased_of zero_sha (sample_admitted n ''a'') key ''instance'' ''owner'' 5 105"

lemma sample_leased_item_facts [simp]:
  "lo_attempt_number (sample_leased_item n key k) = k" "lo_idempotency_key (sample_leased_item n key k) = key"
  by (simp_all add: sample_leased_item_def leased_of_def)

lemmas sample_pick_item = sample_pick [folded sample_leased_item_def]

text \<open>One waiting row is leased, whatever else the store holds.\<close>
lemma lease_one:
  assumes "select_past_deadline s sample_lease_request = []"
    "terminalize_deliveries zero_sha (select_attempts_exhausted s sample_lease_request sample_policy) Exhausted
      ProviderUnavailable ''max_delivery_attempts_consumed'' 5 s = Inr (m, s2)"
    "select_ready s2 sample_lease_request sample_policy = [(sample_delivery n key k, sample_journal n key)]"
    "is_sha256 key" "k < u32_max" "n = 1 \<or> n = 2" "count_where (claim_hit (sample_leased_item n key (k + 1), Pending, k)) (st_delivery s2) = 1"
  shows "\<exists>s'. lease_pending zero_sha sample_policy sample_lease_request s = (Inr [sample_leased_item n key (k + 1)], s') \<and>
    st_journal s' = st_journal s2 \<and> st_receipts s' = st_receipts s2"
proof -
  have "sat_add_u32 k 1 = k + 1" using assms(5) by (simp add: sat_add_u32_def)
  then have "pack_batch zero_sha sample_lease_request [(sample_delivery n key k, sample_journal n key)] [] 0 =
      Inr [(sample_leased_item n key (k + 1), Pending, k)]"
    using sample_pick_item [OF assms(4) _ assms(6), of k] assms(5)
    by (simp add: Let_def sat_add_u64_def u64_max_def)
  then show ?thesis
    using assms(1,2,3,7)
    by (simp add: lease_pending_def sql_i64_def i64_max_def with_transaction_def lease_pending_in_transaction_def
        terminalize_deliveries_def Let_def)
qed

lemma sample_lease:
  "\<exists>s'. lease_pending zero_sha sample_policy sample_lease_request sample_store =
    (Inr [sample_leased_item 1 sample_digest 1], s') \<and> st_journal s' = st_journal sample_store \<and> st_receipts s' = []"
proof -
  have "joined sample_store = [(sample_delivery 1 sample_digest 0, sample_journal 1 sample_digest)]"
    by (simp add: joined_def find_journal_key_def sample_store_waiting)
  then show ?thesis
    using lease_one [of sample_store 0 sample_store 1 sample_digest 0]
    by (simp add: select_past_deadline_def select_limit_def select_attempts_exhausted_def
        sample_store_waiting sample_store_rows(4) terminalize_deliveries_def select_ready_def lease_ready_def count_where_def claim_hit_def
        u32_max_def)
qed

lemma overrun_store_ok: "store_ok overrun_store"
  by (simp add: overrun_store_def empty_store_def store_ok_def u32_max_def decimal.simps sample_digest_def
      j_source_index_def)

text \<open>The bound does not hold for every request.  Only as many used-up rows as the item budget
  are terminated before the next rows are claimed, and the claim does not look at the number of
  attempts: with two used-up rows and an item budget of one, the second row is leased for an
  attempt beyond \<^verbatim>\<open>max_attempts\<close>.\<close>
lemma lease_beyond_max_attempts:
  "store_ok overrun_store \<and>
    (\<exists>item s'. lease_pending zero_sha sample_policy sample_lease_request overrun_store = (Inr [item], s') \<and>
      rp_max_attempts sample_policy < lo_attempt_number item)"
proof -
  let ?d1 = "sample_delivery 1 sample_digest 1" and ?k2 = "replicate 64 (CHR ''1'')"
  let ?d2 = "sample_delivery 2 ?k2 1" and ?j1 = "sample_journal 1 sample_digest" and ?j2 = "sample_journal 2 ?k2"
  have neq: "sample_digest \<noteq> ?k2" by (simp add: sample_digest_def)
  have joined: "joined overrun_store = [(?d1, ?j1), (?d2, ?j2)]"
    using neq by (simp add: joined_def find_journal_key_def overrun_store_def empty_store_def)
  have past: "select_past_deadline overrun_store sample_lease_request = []"
    by (simp add: select_past_deadline_def select_limit_def joined)
  have sel: "select_attempts_exhausted overrun_store sample_lease_request sample_policy = [?d1]"
    by (simp add: select_attempts_exhausted_def select_limit_def overrun_store_def queue_order_def less_eq_prod_def)
  obtain m s2 r where ended: "terminalize_deliveries zero_sha [?d1] Exhausted
      ProviderUnavailable ''max_delivery_attempts_consumed'' 5 overrun_store = Inr (m, s2)"
    "st_journal s2 = [?j1, ?j2]" "st_delivery s2 = [r, ?d2]" "d_state r = Exhausted" "d_idempotency_key r = sample_digest"
    using neq sample_observation_id
    by (simp add: terminalize_deliveries_def read_u32_def u32_max_def expire_delivery_def expire_request_of_def
        overrun_store_def empty_store_def read_journal_row_def find_journal_observation_def decimal.simps
        highest_receipt_attempt_def insert_receipt_row_def count_where_def update_where_def terminalize_row_def
        sample_admitted_def Let_def)
  have "joined s2 = [(r, ?j1), (?d2, ?j2)]"
    using ended(2,3,5) neq by (simp add: joined_def find_journal_key_def)
  then have ready: "select_ready s2 sample_lease_request sample_policy = [(?d2, ?j2)]"
    using ended(4) by (simp add: select_ready_def select_limit_def lease_ready_def)
  have "is_sha256 ?k2" by (simp add: is_sha256_def list_all_iff is_lower_hex_def is_ascii_digit_def)
  then obtain s' where "lease_pending zero_sha sample_policy sample_lease_request overrun_store =
      (Inr [sample_leased_item 2 ?k2 (1 + 1)], s')"
    using lease_one [OF past ended(1) [folded sel] ready] ended(3,5) neq
    by (auto simp: count_where_def claim_hit_def u32_max_def)
  then show ?thesis using overrun_store_ok by simp
qed

theorem lease_batch_bounded_witness:
  "\<exists>batch s'. lease_pending zero_sha sample_policy sample_lease_request sample_store = (Inr batch, s') \<and>
    length batch \<le> 1 \<and> (batch_weight batch \<le> 100 \<or> length batch = 1)"
  using sample_lease lease_batch_bounded [OF sample_store_rows(1), of zero_sha sample_policy sample_lease_request]
  by (fastforce simp: u64_max_def)

theorem lease_batch_exclusive_witness:
  "\<exists>s' d d'. lease_pending zero_sha sample_policy sample_lease_request sample_store =
      (Inr [sample_leased_item 1 sample_digest 1], s') \<and> d \<in> set (st_delivery sample_store) \<and>
    d' \<in> set (st_delivery s') \<and> d_attempt_number d' = d_attempt_number d + 1 \<and> d_lease_owner d' = Some ''owner''"
proof -
  obtain s' where run: "lease_pending zero_sha sample_policy sample_lease_request sample_store =
      (Inr [sample_leased_item 1 sample_digest 1], s')" using sample_lease by blast
  from lease_batch_exclusive [OF sample_store_rows(1) run] run show ?thesis by fastforce
qed

theorem lease_attempts_bounded_witness: "lo_attempt_number (sample_leased_item 1 sample_digest 1) \<le> rp_max_attempts sample_policy"
proof -
  obtain s' where run: "lease_pending zero_sha sample_policy sample_lease_request sample_store =
      (Inr [sample_leased_item 1 sample_digest 1], s')" using sample_lease by blast
  show ?thesis
    by (rule lease_attempts_bounded [OF sample_store_rows(1) run])
      (simp_all add: sample_store_waiting count_where_def exhausted_waiting_def)
qed

end
