(* ===== verification/Journal_Attempts.thy ===== *)
theory Journal_Attempts
  imports Journal_Lease
begin

text \<open>
  What recording an attempt, releasing a lease and reaping lapsed leases promise
  (\<^verbatim>\<open>sqlite/dispatch.rs\<close>).  Each is a \<^verbatim>\<open>delivery_step\<close>.  A receipt that arrives after its lease was
  lost cannot disturb the row, recording the same receipt again settles nothing twice, and
  every lease that is reaped leaves its attempt accounted for.
\<close>

subsection \<open>Composing steps\<close>

lemma delivery_step_then:
  assumes "delivery_step a b" "delivery_step b c" "st_delivery b = st_delivery a \<or> st_delivery c = st_delivery b"
  shows "delivery_step a c"
proof -
  have "list_all2 evolves (st_delivery a) (st_delivery c)"
    using assms by (auto simp: delivery_step_def)
  with assms(1,2) show ?thesis
    unfolding delivery_step_def
    by (blast intro: same_admissions_trans evidence_grows_trans watermarks_kept_trans)
qed

lemma rows_step:
  assumes "store_ok s" "\<And>d. d \<in> set (st_delivery s) \<Longrightarrow> P d \<Longrightarrow> evolves d (f d) \<and> delivery_ok (f d)"
  shows "delivery_step s (s\<lparr>st_delivery := update_where P f (st_delivery s)\<rparr>)"
proof -
  have ev: "list_all2 evolves (st_delivery s) (update_where P f (st_delivery s))"
    using assms(2) by (auto intro!: list_all2_update_where)
  have "list_all delivery_ok (update_where P f (st_delivery s))"
    using assms by (auto simp: store_ok_def intro!: list_all_update_where)
  with ev assms(1) have "store_ok (s\<lparr>st_delivery := update_where P f (st_delivery s)\<rparr>)"
    by (intro store_ok_update_delivery)
  with ev show ?thesis
    by (simp add: delivery_step_def same_admissions_def evidence_grows_def watermarks_kept_def)
qed

lemma insert_receipt_step:
  assumes "store_ok s" "insert_receipt_row r s = Some s'"
  shows "delivery_step s s'" "st_delivery s' = st_delivery s" "st_journal s' = st_journal s"
  using insert_receipt_store_ok [OF assms] insert_receipt_row_Some(1) [OF assms(2)]
  by (auto simp: delivery_step_def same_admissions_def evidence_grows_def watermarks_kept_def list_all2_refl)

lemma watermark_step:
  assumes "store_ok s"
  shows "delivery_step s (advance_watermark_for j r s)" "st_delivery (advance_watermark_for j r s) = st_delivery s"
    "st_receipts (advance_watermark_for j r s) = st_receipts s"
  using assms
  by (auto simp: advance_watermark_for_def delivery_step_def same_admissions_def evidence_grows_def
      watermarks_kept_def advance_watermark_frame list_all2_refl advance_watermark_store_ok watermark_monotone)

subsection \<open>Settling\<close>

lemma settle_row_facts [simp]:
  "d_state (settle_row r st at d) = st" "d_lease_id (settle_row r st at d) = None"
  "d_attempt_number (settle_row r st at d) = d_attempt_number d" "d_queue_bytes (settle_row r st at d) = d_queue_bytes d"
  "same_identity d (settle_row r st at d)" "d_observation_id (settle_row r st at d) = d_observation_id d"
  by (simp_all add: settle_row_def same_identity_def)

lemma settle_row_step:
  assumes "delivery_ok d" "d_state d = Leased" "can_transition_to Leased st"
  shows "evolves d (settle_row r st at d) \<and> delivery_ok (settle_row r st at d)"
proof -
  have "st \<noteq> Leased" using assms(3) by auto
  with assms show ?thesis by (auto simp: evolves_def delivery_ok_def)
qed

lemma settle_delivery_eq:
  obtains st at where "can_transition_to Leased st" "sm_state (fst (settle_delivery r policy s)) = st"
    "snd (settle_delivery r policy s) = s\<lparr>st_delivery := update_where (settle_hit r) (settle_row r st at) (st_delivery s)\<rparr>"
    "sm_advanced (fst (settle_delivery r policy s)) \<longleftrightarrow> count_where (settle_hit r) (st_delivery s) = 1"
proof -
  have "can_transition_to Leased (if is_retryable (dr_outcome r) \<and> rp_max_attempts policy \<le> dr_attempt_number r
      then Exhausted else implied_state (dr_outcome r))"
    using implied_state_legal by simp
  then show ?thesis by (rule that) (simp_all add: settle_delivery_def Let_def)
qed

lemma settle_step:
  assumes "store_ok s"
  shows "delivery_step s (snd (settle_delivery r policy s))"
proof -
  obtain st at where legal: "can_transition_to Leased st" and
    eq: "snd (settle_delivery r policy s) = s\<lparr>st_delivery := update_where (settle_hit r) (settle_row r st at) (st_delivery s)\<rparr>"
    by (rule settle_delivery_eq)
  show ?thesis
    unfolding eq
    by (intro rows_step [OF assms] settle_row_step [OF store_ok_delivery_ok [OF assms] _ legal])
      (simp_all add: settle_hit_def)
qed

lemma record_attempt_transaction_step:
  assumes "store_ok s" "record_attempt_in_transaction sha policy r s = Inr (out, s')"
  shows "delivery_step s s'"
proof -
  obtain j where j: "read_journal_row s (dr_observation_id r) = Inr j"
    using assms(2) by (auto simp: record_attempt_in_transaction_def res_bind_Inr_iff)
  show ?thesis
  proof (cases "insert_receipt_row r s")
    case None
    then obtain standing where "s' = advance_watermark_for j standing (snd (settle_delivery standing policy s))"
      using assms(2) j
      by (auto simp: record_attempt_in_transaction_def res_bind_Inr_iff case_prod_unfold Let_def split: if_splits)
    moreover have "delivery_step s (snd (settle_delivery standing policy s))" by (rule settle_step [OF assms(1)])
    moreover from this have "store_ok (snd (settle_delivery standing policy s))" by (simp add: delivery_step_def)
    ultimately show ?thesis using watermark_step delivery_step_then by metis
  next
    case (Some s1)
    note ins = insert_receipt_step [OF assms(1) Some]
    have ok1: "store_ok s1" using ins(1) by (simp add: delivery_step_def)
    note wm = watermark_step [OF ok1, of j r]
    have "delivery_step s (advance_watermark_for j r s1)"
      by (rule delivery_step_then [OF ins(1) wm(1)]) (simp add: ins)
    moreover have "delivery_step (advance_watermark_for j r s1) (snd (settle_delivery r policy (advance_watermark_for j r s1)))"
      by (rule settle_step) (use wm(1) in \<open>simp add: delivery_step_def\<close>)
    moreover have "s' = snd (settle_delivery r policy (advance_watermark_for j r s1))"
      using assms(2) j Some
      by (auto simp: record_attempt_in_transaction_def res_bind_Inr_iff case_prod_unfold Let_def split: if_splits)
    ultimately show ?thesis using delivery_step_then ins(2) wm(2) by metis
  qed
qed

lemma record_attempt_step: "store_ok s \<Longrightarrow> delivery_step s (snd (record_attempt sha policy r s))"
  unfolding record_attempt_def by (intro guarded_transaction_step record_attempt_transaction_step)

subsection \<open>Unsettled attempts and refusals\<close>

lemma unsettled_transaction_step:
  assumes "store_ok s" "record_unsettled_attempt_in_transaction r lease retry s = Inr (out, s')"
  shows "delivery_step s s'"
proof -
  let ?s1 = "s\<lparr>st_delivery := update_where (unsettled_hit r lease) (settle_row r Pending retry) (st_delivery s)\<rparr>"
  have one: "delivery_step s ?s1"
    by (intro rows_step [OF assms(1)] settle_row_step [OF store_ok_delivery_ok [OF assms(1)]])
      (simp_all add: unsettled_hit_def)
  then have ok: "store_ok ?s1" by (simp add: delivery_step_def)
  consider "s' = ?s1" | "insert_receipt_row r ?s1 = Some s'"
    using assms(2)
    by (auto simp: record_unsettled_attempt_in_transaction_def res_bind_Inr_iff Let_def
        split: if_splits option.splits)
  then show ?thesis
  proof cases
    case 2
    note ins = insert_receipt_step [OF ok 2]
    show ?thesis by (rule delivery_step_then [OF one ins(1)]) (simp add: ins(2))
  qed (use one in simp)
qed

lemma record_unsettled_step: "store_ok s \<Longrightarrow> delivery_step s (snd (record_unsettled_attempt sha r lease retry s))"
  unfolding record_unsettled_attempt_def by (intro guarded_transaction_step unsettled_transaction_step)

lemma refusal_transaction_step:
  assumes "store_ok s" "insert_attempt_refusal x s = Inr (out, s')"
  shows "delivery_step s s'" "st_delivery s' = st_delivery s"
proof -
  have "s' = s \<or> refusal_slot x \<notin> refusal_slot ` set (st_refusals s) \<and> s' = s\<lparr>st_refusals := st_refusals s @ [x]\<rparr>"
    using assms(2) by (auto simp: insert_attempt_refusal_def res_bind_Inr_iff split: if_splits)
  with assms(1) show "delivery_step s s'" "st_delivery s' = st_delivery s"
    by (auto simp: delivery_step_def same_admissions_def evidence_grows_def watermarks_kept_def
        store_ok_def list_all2_refl)
qed

lemma record_refusal_step: "store_ok s \<Longrightarrow> delivery_step s (snd (record_attempt_refusal x s))"
  unfolding record_attempt_refusal_def by (intro guarded_transaction_step refusal_transaction_step(1))

lemma refused_terminal_transaction_step:
  assumes "store_ok s" "record_refused_terminal_in_transaction x r lease retry s = Inr (out, s')"
  shows "delivery_step s s'"
proof -
  obtain attempt s1 where run: "record_unsettled_attempt_in_transaction r lease retry s = Inr (attempt, s1)"
    using assms(2) by (auto simp: record_refused_terminal_in_transaction_def res_bind_Inr_iff)
  note one = unsettled_transaction_step [OF assms(1) run]
  then have ok: "store_ok s1" by (simp add: delivery_step_def)
  have "s' = s1 \<or> (\<exists>o1. insert_attempt_refusal x s1 = Inr (o1, s'))"
    using assms(2) run
    by (cases attempt) (auto simp: record_refused_terminal_in_transaction_def res_bind_Inr_iff)
  then show ?thesis
    using one refusal_transaction_step [OF ok] by (auto intro: delivery_step_then)
qed

lemma record_refused_terminal_step:
  "store_ok s \<Longrightarrow> delivery_step s (snd (record_refused_terminal_attempt sha x r lease retry s))"
  unfolding record_refused_terminal_attempt_def
  by (intro guarded_transaction_step refused_terminal_transaction_step)

subsection \<open>Releasing and reaping\<close>

lemma to_pending_facts [simp]:
  "d_state (to_pending now d) = Pending" "d_lease_id (to_pending now d) = None"
  "d_attempt_number (to_pending now d) = d_attempt_number d" "d_queue_bytes (to_pending now d) = d_queue_bytes d"
  "same_identity d (to_pending now d)" "d_idempotency_key (to_pending now d) = d_idempotency_key d"
  by (simp_all add: to_pending_def same_identity_def)

lemma to_pending_step:
  assumes "delivery_ok d" "d_state d = Leased"
  shows "evolves d (to_pending now d) \<and> delivery_ok (to_pending now d)"
    "evolves d ((to_pending now d)\<lparr>d_next_attempt_at := at\<rparr>) \<and> delivery_ok ((to_pending now d)\<lparr>d_next_attempt_at := at\<rparr>)"
  using assms by (auto simp: evolves_def delivery_ok_def to_pending_def same_identity_def)

lemma release_step: "store_ok s \<Longrightarrow> delivery_step s (snd (release_lease lease retry s))"
  unfolding release_lease_def
proof (rule transaction_step)
  fix u s' assume ok: "store_ok s" and "release_lease_in_transaction lease retry s = Inr (u, s')"
  then have "s' = s\<lparr>st_delivery := update_where (release_hit lease)
      (\<lambda>d. (to_pending retry d)\<lparr>d_next_attempt_at := retry\<rparr>) (st_delivery s)\<rparr>"
    by (auto simp: release_lease_in_transaction_def split: if_splits)
  then show "delivery_step s s'"
    using ok store_ok_delivery_ok [OF ok] by (auto simp: release_hit_def intro!: rows_step to_pending_step(2) [THEN conjunct1]
        to_pending_step(2) [THEN conjunct2])
qed

text \<open>Reclaiming a lease, row by row: the row is unchanged or went from leased back to pending.\<close>
definition reclaimed :: "micros \<Rightarrow> delivery_row \<Rightarrow> delivery_row \<Rightarrow> bool" where
  "reclaimed now d d' \<longleftrightarrow> d' = d \<or> lease_lapsed now d \<and> d' = to_pending now d"

text \<open>The attempt of a row that was reclaimed is accounted for.\<close>
definition accounted :: "journal_store \<Rightarrow> string \<Rightarrow> nat \<Rightarrow> bool" where
  "accounted s obs attempt \<longleftrightarrow> attempt_answered s obs attempt \<or>
    (\<exists>x\<in>set (st_orphans s). orphan_slot x = (obs, attempt))"

text \<open>A lapsed lease as the reap read it from a row.\<close>
definition lapsed_row :: "micros \<Rightarrow> delivery_row list \<Rightarrow> expired_lease \<Rightarrow> delivery_row \<Rightarrow> bool" where
  "lapsed_row now ds l d \<longleftrightarrow> d \<in> set ds \<and> lease_lapsed now d \<and> el_idempotency_key l = d_idempotency_key d \<and>
    el_observation_id l = d_observation_id d \<and> el_attempt_number l = d_attempt_number d"

lemma reclaim_hit_row:
  assumes "lapsed_row now ds l d" "distinct (map d_idempotency_key ds)" "x \<in> set ds"
  shows "reclaim_hit l x \<longleftrightarrow> x = d"
proof
  assume "reclaim_hit l x"
  then have "d_idempotency_key x = d_idempotency_key d" using assms(1) by (simp add: reclaim_hit_def lapsed_row_def)
  then show "x = d" using assms by (auto simp: lapsed_row_def distinct_map inj_on_def)
next
  assume "x = d"
  then show "reclaim_hit l x" using assms(1) by (simp add: reclaim_hit_def lapsed_row_def lease_lapsed_def)
qed

lemma insert_orphan_step:
  assumes "store_ok s" "insert_attempt_orphan x s = Inr (u, s')"
  shows "delivery_step s s'" "s' = s\<lparr>st_orphans := st_orphans s @ [x]\<rparr>"
proof -
  have fresh: "orphan_slot x \<notin> orphan_slot ` set (st_orphans s)" and eq: "s' = s\<lparr>st_orphans := st_orphans s @ [x]\<rparr>"
    using assms(2) by (auto simp: insert_attempt_orphan_def split: if_splits)
  then show "s' = s\<lparr>st_orphans := st_orphans s @ [x]\<rparr>" by simp
  from fresh assms(1) show "delivery_step s s'"
    by (auto simp: eq delivery_step_def same_admissions_def evidence_grows_def watermarks_kept_def
        store_ok_def list_all2_refl)
qed

text \<open>One round of the reap loop.\<close>
lemma reap_one:
  assumes "store_ok s" "lapsed_row now (st_delivery s) l d" "reap_each policy now (l # ls) reaped s = Inr (n, s')"
  obtains s2 where "reap_each policy now ls (sat_add_u32 reaped 1) s2 = Inr (n, s')" "delivery_step s s2"
    "st_delivery s2 = update_where (\<lambda>x. x = d) (to_pending now) (st_delivery s)"
    "accounted s2 (d_observation_id d) (d_attempt_number d)" "evidence_grows s s2"
proof -
  have keys: "distinct (map d_idempotency_key (st_delivery s))" using store_ok_delivery_keys [OF assms(1)] by blast
  note hit = reclaim_hit_row [OF assms(2) keys]
  have d: "d \<in> set (st_delivery s)" "d_state d = Leased" using assms(2) by (auto simp: lapsed_row_def lease_lapsed_def)
  let ?s1 = "s\<lparr>st_delivery := update_where (reclaim_hit l) (to_pending now) (st_delivery s)\<rparr>"
  have eq: "update_where (reclaim_hit l) (to_pending now) (st_delivery s) = update_where (\<lambda>x. x = d) (to_pending now) (st_delivery s)"
    using hit by (auto simp: update_where_def)
  have step: "delivery_step s ?s1"
    using hit d(2) store_ok_delivery_ok [OF assms(1)] by (intro rows_step [OF assms(1)] to_pending_step(1)) auto
  then have ok1: "store_ok ?s1" by (simp add: delivery_step_def)
  have "0 < count_where (reclaim_hit l) (st_delivery s)" using hit d(1) by (auto simp: count_where_pos)
  then have run: "(if attempt_answered ?s1 (el_observation_id l) (el_attempt_number l)
      then reap_each policy now ls (sat_add_u32 reaped 1) ?s1
      else res_bind (orphan_validate (orphan_of policy now l)) (\<lambda>_.
        res_bind (insert_attempt_orphan (orphan_of policy now l) ?s1) (\<lambda>(_, s2).
        reap_each policy now ls (sat_add_u32 reaped 1) s2))) = Inr (n, s')"
    using assms(3) by (simp add: Let_def del: One_nat_def split del: if_split)
  show ?thesis
  proof (cases "attempt_answered ?s1 (el_observation_id l) (el_attempt_number l)")
    case True
    then show ?thesis
      using run step assms(2) by (intro that [of ?s1]) (auto simp: eq accounted_def lapsed_row_def delivery_step_def)
  next
    case False
    then obtain u s2 where s2: "insert_attempt_orphan (orphan_of policy now l) ?s1 = Inr (u, s2)"
      "reap_each policy now ls (sat_add_u32 reaped 1) s2 = Inr (n, s')"
      using run by (auto simp: res_bind_Inr_iff)
    note ins = insert_orphan_step [OF ok1 s2(1)]
    have "delivery_step s s2" by (rule delivery_step_then [OF step ins(1)]) (simp add: ins(2))
    with s2(2) show ?thesis
      using assms(2)
      by (intro that [of s2]) (auto simp: ins(2) eq accounted_def lapsed_row_def orphan_of_def orphan_slot_def delivery_step_def)
  qed
qed

lemma accounted_grows: "accounted s obs attempt \<Longrightarrow> evidence_grows s s' \<Longrightarrow> accounted s' obs attempt"
  unfolding accounted_def attempt_answered_def evidence_grows_def by (meson set_mono_prefix subsetD)

lemma reap_each_ok:
  assumes "store_ok s" "list_all2 (lapsed_row now (st_delivery s)) ls ds" "distinct ds"
    "reap_each policy now ls reaped s = Inr (n, s')"
  shows "st_delivery s' = update_where (\<lambda>x. x \<in> set ds) (to_pending now) (st_delivery s) \<and> store_ok s' \<and>
    same_admissions s s' \<and> evidence_grows s s' \<and> watermarks_kept s s' \<and>
    (\<forall>d\<in>set ds. accounted s' (d_observation_id d) (d_attempt_number d)) \<and> n \<le> reaped + length ls"
  using assms
proof (induction ls arbitrary: ds reaped s rule: list.induct)
  case Nil
  then show ?case
    by (simp add: update_where_def same_admissions_def evidence_grows_def watermarks_kept_def)
next
  case (Cons l ls)
  from Cons.prems(2) obtain d ds' where ds: "ds = d # ds'" "lapsed_row now (st_delivery s) l d"
    "list_all2 (lapsed_row now (st_delivery s)) ls ds'" by (auto simp: list_all2_Cons1)
  obtain s2 where s2: "reap_each policy now ls (sat_add_u32 reaped 1) s2 = Inr (n, s')" "delivery_step s s2"
    "st_delivery s2 = update_where (\<lambda>x. x = d) (to_pending now) (st_delivery s)"
    "accounted s2 (d_observation_id d) (d_attempt_number d)" "evidence_grows s s2"
    by (rule reap_one [OF Cons.prems(1) ds(2) Cons.prems(4)])
  have other: "d \<notin> set ds'" "distinct ds'" using Cons.prems(3) ds(1) by auto
  have still: "list_all2 (lapsed_row now (st_delivery s2)) ls ds'"
  proof (rule list.rel_mono_strong [OF ds(3)])
    fix l1 d1 assume "d1 \<in> set ds'" "lapsed_row now (st_delivery s) l1 d1"
    moreover from this other have "d1 \<noteq> d" by auto
    ultimately show "lapsed_row now (st_delivery s2) l1 d1" by (simp add: lapsed_row_def s2(3) set_update_where)
  qed
  have leased: "d_state x = Leased" if "x \<in> set ds'" for x
    using list_all2_memD2 [OF ds(3) that] by (auto simp: lapsed_row_def lease_lapsed_def)
  have ok2: "store_ok s2" using s2(2) by (simp add: delivery_step_def)
  have IH: "st_delivery s' = update_where (\<lambda>x. x \<in> set ds') (to_pending now) (st_delivery s2)" "store_ok s'"
    "same_admissions s2 s'" "evidence_grows s2 s'" "watermarks_kept s2 s'"
    "\<forall>d\<in>set ds'. accounted s' (d_observation_id d) (d_attempt_number d)" "n \<le> sat_add_u32 reaped 1 + length ls"
    using Cons.IH [OF ok2 still other(2) s2(1)] by auto
  have "st_delivery s' = update_where (\<lambda>x. x \<in> set ds) (to_pending now) (st_delivery s)"
    using leased unfolding IH(1) s2(3) ds(1) update_where_def by force
  moreover have "same_admissions s s'" "evidence_grows s s'" "watermarks_kept s s'"
    using s2(2) IH(3,4,5) same_admissions_trans evidence_grows_trans watermarks_kept_trans
    unfolding delivery_step_def by blast+
  moreover have "accounted s' (d_observation_id d) (d_attempt_number d)"
    by (rule accounted_grows [OF s2(4) IH(4)])
  moreover have "n \<le> reaped + length (l # ls)" using IH(7) by (simp add: sat_add_u32_def)
  ultimately show ?case using IH(2,6) ds(1) by auto
qed

lemma decode_each_all2: "decode_each f xs = Inr ys \<Longrightarrow> list_all2 (\<lambda>y x. f x = Inr y) ys xs"
  by (induction xs arbitrary: ys) (auto simp: res_bind_Inr_iff)

lemma decode_expired_facts:
  assumes "decode_expired_lease (d, j) = Inr l"
  shows "el_idempotency_key l = d_idempotency_key d" "el_observation_id l = d_observation_id d"
    "el_attempt_number l = d_attempt_number d"
  using assms
  by (cases "d_lease_id d"; cases "d_lease_owner d"; cases "d_lease_expires_at d";
      auto simp: decode_expired_lease_def res_bind_Inr_iff read_u32_same
      dest!: parse_digest_same observation_id_parse_same)+

lemma select_expired_rows:
  assumes "store_ok s" "select_expired_leases s now budget = Inr ls"
  obtains ds where "list_all2 (lapsed_row now (st_delivery s)) ls ds" "distinct ds" "length ls \<le> budget"
proof -
  let ?P = "\<lambda>(d, j). lease_lapsed now d" and ?key = "\<lambda>(d, j). expiry_order d"
  let ?rows = "select_limit ?P ?key budget (joined s)"
  have dec: "list_all2 (\<lambda>l row. decode_expired_lease row = Inr l) ls ?rows"
    using assms(2) decode_each_all2 by (simp add: select_expired_leases_def)
  have "list_all2 (\<lambda>l row. lapsed_row now (st_delivery s) l (fst row)) ls ?rows"
  proof (rule list.rel_mono_strong [OF dec])
    fix l row assume row: "row \<in> set ?rows" "decode_expired_lease row = Inr l"
    obtain d j where dj: "row = (d, j)" by force
    note mem = select_joined_mem [OF assms(1) row(1) [unfolded dj]]
    show "lapsed_row now (st_delivery s) l (fst row)"
      using mem(1,3) decode_expired_facts [OF row(2) [unfolded dj]] by (simp add: lapsed_row_def dj)
  qed
  then have "list_all2 (lapsed_row now (st_delivery s)) ls (map fst ?rows)" by (simp add: list_all2_map2)
  moreover have "length ls \<le> budget"
    using list_all2_lengthD [OF dec] select_limit_length [of ?P ?key budget "joined s"] by simp
  ultimately show ?thesis using that distinct_map_fst_joined [OF assms(1), of ?P ?key budget] by blast
qed

lemma reap_transaction:
  assumes "store_ok s" "reap_in_transaction policy now budget s = Inr (n, s')"
  shows "n \<le> budget" "delivery_step s s'"
    "list_all2 (\<lambda>d d'. d' = d \<or> lease_lapsed now d \<and> d' = to_pending now d \<and>
      accounted s' (d_observation_id d) (d_attempt_number d)) (st_delivery s) (st_delivery s')"
proof -
  obtain ls where ls: "select_expired_leases s now budget = Inr ls" "reap_each policy now ls 0 s = Inr (n, s')"
    using assms(2) by (auto simp: reap_in_transaction_def res_bind_Inr_iff)
  obtain ds where ds: "list_all2 (lapsed_row now (st_delivery s)) ls ds" "distinct ds" "length ls \<le> budget"
    by (rule select_expired_rows [OF assms(1) ls(1)])
  note reap = reap_each_ok [OF assms(1) ds(1,2) ls(2)]
  have lapsed: "lease_lapsed now d" if "d \<in> set ds" for d
    using list_all2_memD2 [OF ds(1) that] by (auto simp: lapsed_row_def)
  show "n \<le> budget" using reap ds(3) by simp
  have rows: "st_delivery s' = update_where (\<lambda>x. x \<in> set ds) (to_pending now) (st_delivery s)" using reap by blast
  show "list_all2 (\<lambda>d d'. d' = d \<or> lease_lapsed now d \<and> d' = to_pending now d \<and>
      accounted s' (d_observation_id d) (d_attempt_number d)) (st_delivery s) (st_delivery s')"
    unfolding rows using reap lapsed by (auto intro!: list_all2_update_where)
  have "list_all2 evolves (st_delivery s) (st_delivery s')"
    unfolding rows using lapsed to_pending_step(1) store_ok_delivery_ok [OF assms(1)]
    by (auto simp: lease_lapsed_def intro!: list_all2_update_where)
  with reap show "delivery_step s s'" by (simp add: delivery_step_def)
qed

lemma reap_step: "store_ok s \<Longrightarrow> delivery_step s (snd (reap_expired_leases policy now budget s))"
  unfolding reap_expired_leases_def by (intro transaction_step reap_transaction(2))

text \<open>C15. A reap reclaims at most the requested number of leases and only leases that have
  lapsed; every other row is unchanged.  The attempt each reclaimed lease had consumed is
  accounted for: it has a receipt or a refusal, or the reap recorded it as orphaned.\<close>
theorem reap_accounts_attempts:
  assumes "store_ok s" "reap_expired_leases policy now budget s = (Inr n, s')"
  shows "n \<le> budget \<and> list_all2 (\<lambda>d d'. d' = d \<or> lease_lapsed now d \<and> d' = to_pending now d \<and>
    accounted s' (d_observation_id d) (d_attempt_number d)) (st_delivery s) (st_delivery s')"
proof -
  have run: "reap_in_transaction policy now budget s = Inr (n, s')"
    using assms(2) by (simp add: reap_expired_leases_def with_transaction_ok)
  show ?thesis using reap_transaction(1,3) [OF assms(1) run] by blast
qed

subsection \<open>Late and repeated receipts\<close>

lemma read_receipt_slot:
  "read_receipt sha s obs attempt = Inr r \<Longrightarrow> receipt_slot r = (obs, attempt) \<and> r \<in> set (st_receipts s)"
  by (auto simp: read_receipt_def decode_receipt_def res_bind_Inr_iff validated_ok split: option.splits dest: find_Some_mem)

lemma settle_hit_slot: "receipt_slot r = receipt_slot r' \<Longrightarrow> settle_hit r = settle_hit r'"
  by (simp add: settle_hit_def receipt_slot_def fun_eq_iff)

lemma settle_no_hit:
  assumes "count_where (settle_hit r) (st_delivery s) = 0"
  shows "snd (settle_delivery r policy s) = s" "\<not> sm_advanced (fst (settle_delivery r policy s))"
proof -
  have "\<not> settle_hit r d" if "d \<in> set (st_delivery s)" for d
    using assms count_where_pos [of "settle_hit r" "st_delivery s"] that by simp
  then have "update_where (settle_hit r) f (st_delivery s) = st_delivery s" for f by (rule update_where_none)
  then show "snd (settle_delivery r policy s) = s" by (simp add: settle_delivery_def Let_def)
  show "\<not> sm_advanced (fst (settle_delivery r policy s))" using assms by (simp add: settle_delivery_def Let_def)
qed


text \<open>What the types of the fields of a receipt guarantee.\<close>
definition receipt_typed :: "delivery_receipt \<Rightarrow> bool" where
  "receipt_typed r \<longleftrightarrow> observation_id_parse (dr_observation_id r) = Inr (dr_observation_id r) \<and>
    is_sha256 (dr_receipt_id r) \<and> is_sha256 (dr_idempotency_key r) \<and>
    provider_id_new (dr_provider_id r) = Inr () \<and> dr_attempt_number r \<le> u32_max"

lemma decode_receipt_typed:
  assumes "receipt_typed r" "receipt_validate sha r = Inr ()"
  shows "decode_receipt sha (r\<lparr>dr_warnings := w\<rparr>) = Inr (r\<lparr>dr_warnings := w\<rparr>)"
proof -
  have "receipt_validate sha (r\<lparr>dr_warnings := w\<rparr>) = receipt_validate sha r"
    unfolding receipt_validate_def by (cases r) (simp only: delivery_receipt.simps)
  with assms show ?thesis
    by (simp add: receipt_typed_def decode_receipt_def read_u32_def parse_digest_def check_provider_id_def
        lift_api_def res_bind_Inr_iff validated_ok)
qed

lemma find_last_slot:
  "(\<And>x. x \<in> set xs \<Longrightarrow> \<not> P x) \<Longrightarrow> P y \<Longrightarrow> find P (xs @ [y]) = Some y"
  by (induction xs) auto

text \<open>What a receipt that settled its row left behind.\<close>
lemma recorded_effect:
  assumes "store_ok s" "record_attempt_in_transaction sha policy r s = Inr (Recorded st at, s')"
  obtains j where "read_journal_row s (dr_observation_id r) = Inr j" "receipt_matches_journal j r = Inr ()"
    "is_ok (optional_sql (dr_state_generation_before r) ''state_generation_before'')"
    "is_ok (optional_sql (dr_state_generation_after r) ''state_generation_after'')"
    "\<forall>x\<in>set (st_receipts s). receipt_slot x \<noteq> receipt_slot r"
    "st_receipts s' = st_receipts s @ [r\<lparr>dr_warnings := []\<rparr>]" "st_journal s' = st_journal s"
    "\<exists>next_at. st_delivery s' = update_where (settle_hit r) (settle_row r st next_at) (st_delivery s)"
    "count_where (settle_hit r) (st_delivery s) = 1" "can_transition_to Leased st"
proof -
  obtain j where j: "read_journal_row s (dr_observation_id r) = Inr j" "receipt_matches_journal j r = Inr ()"
    "is_ok (optional_sql (dr_state_generation_before r) ''state_generation_before'')"
    "is_ok (optional_sql (dr_state_generation_after r) ''state_generation_after'')"
    using assms(2) by (auto simp: record_attempt_in_transaction_def res_bind_Inr_iff first_error_ok is_ok_unit)
  obtain s1 where s1: "insert_receipt_row r s = Some s1"
    using assms(2) j(1)
    by (cases "insert_receipt_row r s")
      (auto simp: record_attempt_in_transaction_def res_bind_Inr_iff case_prod_unfold Let_def split: if_splits)
  have ok1: "store_ok s1" by (rule insert_receipt_store_ok [OF assms(1) s1])
  let ?s2 = "advance_watermark_for j r s1"
  have s': "s' = snd (settle_delivery r policy ?s2)" "sm_advanced (fst (settle_delivery r policy ?s2))"
    "st = sm_state (fst (settle_delivery r policy ?s2))"
    using assms(2) j(1) s1
    by (auto simp: record_attempt_in_transaction_def res_bind_Inr_iff case_prod_unfold Let_def split: if_splits)
  obtain st0 next_at where settle: "can_transition_to Leased st0" "sm_state (fst (settle_delivery r policy ?s2)) = st0"
    "snd (settle_delivery r policy ?s2) = ?s2\<lparr>st_delivery := update_where (settle_hit r) (settle_row r st0 next_at) (st_delivery ?s2)\<rparr>"
    "sm_advanced (fst (settle_delivery r policy ?s2)) \<longleftrightarrow> count_where (settle_hit r) (st_delivery ?s2) = 1"
    by (rule settle_delivery_eq)
  have same: "st_delivery ?s2 = st_delivery s" "st_receipts ?s2 = st_receipts s @ [r\<lparr>dr_warnings := []\<rparr>]"
    "st_journal ?s2 = st_journal s"
    using watermark_step(2,3) [OF ok1] insert_receipt_row_Some(1) [OF s1]
    by (simp_all add: advance_watermark_for_def advance_watermark_frame)
  show ?thesis
    by (rule that [OF j]) (use s' settle same insert_receipt_row_Some(2) [OF s1] in auto)
qed

lemma settled_row_state:
  assumes "store_ok s" "store_ok s'" "st_delivery s' = update_where (settle_hit r) (settle_row r st at) (st_delivery s)"
    "count_where (settle_hit r) (st_delivery s) = 1" "st \<noteq> Leased"
  shows "read_delivery_state s' (dr_observation_id r) = Inr st" "\<forall>d\<in>set (st_delivery s'). \<not> settle_hit r d"
proof -
  obtain d where d: "d \<in> set (st_delivery s)" "settle_hit r d"
    using assms(4) count_where_pos [of "settle_hit r" "st_delivery s"] by auto
  let ?d' = "settle_row r st at d"
  have d': "?d' \<in> set (st_delivery s')" "d_observation_id ?d' = dr_observation_id r"
    using d by (auto simp: assms(3) set_update_where settle_hit_def)
  have "find (\<lambda>x. d_observation_id x = d_observation_id ?d') (st_delivery s') = Some ?d'"
    using store_ok_delivery_keys [OF assms(2)] d'(1) by (intro find_distinct_key) auto
  then show "read_delivery_state s' (dr_observation_id r) = Inr st"
    using d'(2) by (simp add: read_delivery_state_def find_delivery_observation_def)
  show "\<forall>x\<in>set (st_delivery s'). \<not> settle_hit r x"
  proof
    fix x assume x: "x \<in> set (st_delivery s')"
    show "\<not> settle_hit r x"
    proof
      assume hit: "settle_hit r x"
      then have "x = ?d'" using store_ok_unique_delivery [OF assms(2) x d'(1)] d'(2) by (simp add: settle_hit_def)
      with hit assms(5) show False by (simp add: settle_hit_def)
    qed
  qed
qed

text \<open>C16. Recording a receipt a second time, after it settled its row, reports the state the
  row was settled to and changes neither the delivery table nor the receipts.\<close>
theorem receipt_recorded_once:
  assumes "store_ok s" "record_attempt sha policy r s = (Inr (Recorded st at), s')" "receipt_typed r"
  shows "\<exists>s''. record_attempt sha policy r s' = (Inr (DuplicateReceipt st), s'') \<and>
    st_delivery s'' = st_delivery s' \<and> st_receipts s'' = st_receipts s'"
proof -
  have valid: "receipt_validate sha r = Inr ()"
    and run: "record_attempt_in_transaction sha policy r s = Inr (Recorded st at, s')"
    using assms(2) by (auto simp: record_attempt_def with_transaction_ok split: sum.splits)
  have ok': "store_ok s'"
    using record_attempt_transaction_step [OF assms(1) run] by (simp add: delivery_step_def)
  let ?r = "r\<lparr>dr_warnings := []\<rparr>"
  obtain j where j: "read_journal_row s (dr_observation_id r) = Inr j" "receipt_matches_journal j r = Inr ()"
    "is_ok (optional_sql (dr_state_generation_before r) ''state_generation_before'')"
    "is_ok (optional_sql (dr_state_generation_after r) ''state_generation_after'')"
    "\<forall>x\<in>set (st_receipts s). receipt_slot x \<noteq> receipt_slot r"
    "st_receipts s' = st_receipts s @ [?r]" "st_journal s' = st_journal s"
    "\<exists>next_at. st_delivery s' = update_where (settle_hit r) (settle_row r st next_at) (st_delivery s)"
    "count_where (settle_hit r) (st_delivery s) = 1" "can_transition_to Leased st"
    by (rule recorded_effect [OF assms(1) run])
  have "st \<noteq> Leased" using j(10) by auto
  then have state: "read_delivery_state s' (dr_observation_id r) = Inr st" "\<forall>d\<in>set (st_delivery s'). \<not> settle_hit r d"
    using settled_row_state [OF assms(1) ok' _ j(9)] j(8) by blast+
  have slot: "settle_hit ?r = settle_hit r" by (rule settle_hit_slot) simp
  have none: "count_where (settle_hit ?r) (st_delivery s') = 0"
    using state(2) by (auto simp: slot count_where_def filter_empty_conv)
  have "find (\<lambda>x. receipt_slot x = receipt_slot r) (st_receipts s') = Some ?r"
    unfolding j(6) using j(5) by (intro find_last_slot) simp_all
  then have standing: "read_receipt sha s' (dr_observation_id r) (dr_attempt_number r) = Inr ?r"
    using decode_receipt_typed [OF assms(3) valid] by (simp add: read_receipt_def receipt_slot_def)
  have "insert_receipt_row r s' = None" using j(6) by (simp add: insert_receipt_row_def)
  moreover have "read_journal_row s' (dr_observation_id r) = Inr j"
    using j(1,7) by (simp add: read_journal_row_def find_journal_observation_def)
  moreover have "first_error [receipt_matches_journal j r,
      optional_sql (dr_state_generation_before r) ''state_generation_before'',
      optional_sql (dr_state_generation_after r) ''state_generation_after''] = Inr ()"
    using j(2-4) by (simp add: first_error_ok)
  ultimately have "record_attempt_in_transaction sha policy r s' =
      Inr (DuplicateReceipt st, advance_watermark_for j ?r s')"
    using standing state(1) settle_no_hit [OF none, of policy]
    by (simp add: record_attempt_in_transaction_def case_prod_unfold Let_def)
  then show ?thesis
    using valid watermark_step(2,3) [OF ok', of j ?r] by (simp add: record_attempt_def with_transaction_def)
qed

subsection \<open>Examples\<close>

definition sample_leased_row :: delivery_row where
  "sample_leased_row = (sample_delivery 1 sample_digest 1)
    \<lparr>d_state := Leased, d_lease_id := Some sample_digest, d_lease_owner := Some ''owner'',
     d_lease_expires_at := Some 105, d_last_provider_instance_id := Some ''instance''\<rparr>"

definition sample_leased_store :: journal_store where
  "sample_leased_store = sample_store\<lparr>st_delivery := [sample_leased_row]\<rparr>"

lemma sample_leased_row_facts [simp]:
  "lease_lapsed 200 sample_leased_row" "d_idempotency_key sample_leased_row = sample_digest"
  "d_observation_id sample_leased_row = ''00000000-0000-7000-8000-0000000000'' @ decimal 11"
  "d_state sample_leased_row = Leased" "d_lease_id sample_leased_row = Some sample_digest"
  "d_lease_owner sample_leased_row = Some ''owner''" "d_lease_expires_at sample_leased_row = Some 105"
  "d_attempt_number sample_leased_row = 1" "d_last_provider_instance_id sample_leased_row = Some ''instance''"
  "d_provider_id sample_leased_row = ''provider''" "d_registration_revision sample_leased_row = 1"
  "d_exact_scope_sha256 sample_leased_row = sample_digest" "belongs_to (sample_journal 1 sample_digest) sample_leased_row"
  "delivery_ok sample_leased_row"
  by (simp_all add: sample_leased_row_def lease_lapsed_def sample_delivery_def delivery_row_of_def belongs_to_def
      sample_admitted_def exact_scope_sha256_def sample_journal_def journal_row_of_def d_lane_def j_lane_def
      j_sequence_def delivery_ok_def u32_max_def sample_source_def)

lemma sample_leased_store_ok: "store_ok sample_leased_store"
  using sample_store_rows(1) by (simp add: store_ok_def sample_leased_store_def sample_store_waiting del: One_nat_def)


lemma sample_receipt_facts [simp]:
  "dr_observation_id (sample_delivery_receipt k x) = ''00000000-0000-7000-8000-0000000000'' @ decimal 11"
  "dr_attempt_number (sample_delivery_receipt k x) = k" "dr_outcome (sample_delivery_receipt k x) = x"
  "dr_payload_sha256 (sample_delivery_receipt k x) = sample_digest"
  "dr_extensions_digest (sample_delivery_receipt k x) = sample_digest"
  "dr_provider_id (sample_delivery_receipt k x) = ''provider''"
  "dr_registration_revision (sample_delivery_receipt k x) = 1"
  "dr_state_generation_before (sample_delivery_receipt k x) = None"
  "dr_state_generation_after (sample_delivery_receipt k x) = None"
  by (simp_all add: sample_delivery_receipt_def sample_admitted_def Let_def)

lemma sample_leased_store_facts [simp]:
  "st_journal sample_leased_store = [sample_journal 1 sample_digest]" "st_receipts sample_leased_store = []"
  "st_refusals sample_leased_store = []" "st_orphans sample_leased_store = []"
  "st_delivery sample_leased_store = [sample_leased_row]"
  by (simp_all add: sample_leased_store_def sample_store_waiting sample_store_rows)

lemma sample_record:
  "\<exists>s'. record_attempt zero_sha sample_policy (sample_delivery_receipt 1 ProviderUnavailable) sample_leased_store =
    (Inr (Recorded Exhausted None), s')"
proof -
  let ?r = "sample_delivery_receipt 1 ProviderUnavailable"
  have "receipt_validate zero_sha ?r = Inr ()"
    by (simp add: receipt_validate_def sample_delivery_receipt_def Let_def first_error_ok requires_provider_receipt_def
        SOURCE_EVENT_ID_MAX_BYTES_def)
  moreover have "receipt_matches_journal (sample_journal 1 sample_digest) ?r = Inr ()"
    by (simp add: receipt_matches_journal_def sample_journal_def journal_row_of_def sample_admitted_def sql_i64_def
        i64_max_def)
  moreover have "count_where (settle_hit ?r) (st_delivery sample_leased_store) = 1"
    by (simp add: count_where_def settle_hit_def)
  ultimately show ?thesis
    by (simp add: record_attempt_def with_transaction_def record_attempt_in_transaction_def read_journal_row_def
        find_journal_observation_def optional_sql_def insert_receipt_row_def advance_watermark_for_def
        split_beta Let_def settle_delivery_def is_retryable_def)
qed

theorem receipt_recorded_once_witness:
  "\<exists>s' s''. record_attempt zero_sha sample_policy (sample_delivery_receipt 1 ProviderUnavailable) sample_leased_store =
      (Inr (Recorded Exhausted None), s') \<and>
    record_attempt zero_sha sample_policy (sample_delivery_receipt 1 ProviderUnavailable) s' =
      (Inr (DuplicateReceipt Exhausted), s'') \<and> st_delivery s'' = st_delivery s'"
proof -
  obtain s' where run: "record_attempt zero_sha sample_policy (sample_delivery_receipt 1 ProviderUnavailable) sample_leased_store =
    (Inr (Recorded Exhausted None), s')" using sample_record by blast
  have "receipt_typed (sample_delivery_receipt 1 ProviderUnavailable)"
    using sample_typed
    by (simp add: receipt_typed_def admitted_typed_def sample_delivery_receipt_def receipt_id_derive_def
        sample_admitted_def Let_def u32_max_def)
  from receipt_recorded_once [OF sample_leased_store_ok run this] run show ?thesis by blast
qed

lemma sample_reap:
  "\<exists>s'. reap_expired_leases sample_policy 200 3 sample_leased_store = (Inr 1, s')"
proof -
  have obs: "observation_id_parse (''00000000-0000-7000-8000-0000000000'' @ decimal 11) =
      Inr (''00000000-0000-7000-8000-0000000000'' @ decimal 11)"
    using sample_observation_id by (simp add: sample_admitted_def)
  have payload: "j_payload_sha256 (sample_journal 1 sample_digest) = sample_digest"
    by (simp add: sample_journal_def journal_row_of_def sample_admitted_def)
  have "select_limit (\<lambda>(d, j). lease_lapsed 200 d) (\<lambda>(d, j). expiry_order d) 3 (joined sample_leased_store) =
      [(sample_leased_row, sample_journal 1 sample_digest)]"
    by (simp add: joined_def find_journal_key_def select_limit_def)
  moreover have "parse_digest f sample_digest = Inr sample_digest" for f
    by (simp add: parse_digest_def res_bind_Inr_iff)
  moreover have fits: "require_bounded ''provider'' f 256 = Inr ()" "require_bounded ''instance'' f 256 = Inr ()"
    "require_bounded ''owner'' f 256 = Inr ()" "require_sha256 sample_digest f = Inr ()" for f
    by simp_all
  ultimately show ?thesis
    using obs payload
    by (simp add: fits reap_expired_leases_def with_transaction_def reap_in_transaction_def select_expired_leases_def
        decode_expired_lease_def read_u32_def u32_max_def count_where_def reclaim_hit_def attempt_answered_def
        orphan_validate_def orphan_of_def first_error_ok SOURCE_EVENT_ID_MAX_BYTES_def insert_attempt_orphan_def
        sat_add_u32_def Let_def del: One_nat_def)
qed

theorem reap_accounts_attempts_witness:
  "\<exists>n s'. reap_expired_leases sample_policy 200 3 sample_leased_store = (Inr n, s') \<and> n \<le> 3 \<and>
    length (st_delivery s') = length (st_delivery sample_leased_store)"
proof -
  obtain s' where run: "reap_expired_leases sample_policy 200 3 sample_leased_store = (Inr 1, s')"
    using sample_reap by blast
  from reap_accounts_attempts [OF sample_leased_store_ok run] run show ?thesis
    by (auto dest: list_all2_lengthD)
qed

end
