(* ===== verification/Journal_Inspect.thy ===== *)
theory Journal_Inspect
  imports Journal_Attempts
begin

text \<open>
  Operational inspection of the journal: the filter, row and page types of \<^verbatim>\<open>inspection.rs\<close> and
  the paged query \<^verbatim>\<open>inspect\<close> of \<^verbatim>\<open>sqlite/dispatch.rs\<close>.  Following the returned cursors over an
  unchanged store visits every matching delivery exactly once, in key order, and ends.
\<close>

subsection \<open>Filters, rows and pages\<close>

record inspection_filter =
  if_provider_id :: "string option"
  if_provider_instance_id :: "string option"
  if_exact_scope_sha256 :: "string option"
  if_states :: "delivery_state list"
  if_source_authority :: "source_authority option"
  if_forget_source_key :: "string option"
  if_admitted_after :: "micros option"
  if_admitted_before :: "micros option"
  if_limit :: nat
  if_after_cursor :: "string option"

definition default_inspection_filter :: inspection_filter where
  "default_inspection_filter = \<lparr>if_provider_id = None, if_provider_instance_id = None,
    if_exact_scope_sha256 = None, if_states = [], if_source_authority = None, if_forget_source_key = None,
    if_admitted_after = None, if_admitted_before = None, if_limit = 0, if_after_cursor = None\<rparr>"

record inspection_row =
  ir_observation_id :: string
  ir_idempotency_key :: string
  ir_provider_id :: string
  ir_provider_instance_id :: string
  ir_registration_revision :: nat
  ir_last_provider_instance_id :: "string option"
  ir_exact_scope_sha256 :: string
  ir_source_authority :: source_authority
  ir_source_stream :: string
  ir_source_sequence :: nat
  ir_observation_kind :: string
  ir_payload_contract :: string
  ir_payload_sha256 :: string
  ir_extensions_digest :: string
  ir_privacy_classification :: privacy_classification
  ir_retention_class :: retention_class
  ir_forget_source_key :: string
  ir_state :: delivery_state
  ir_attempt_number :: nat
  ir_next_attempt_at :: micros
  ir_admitted_at :: micros
  ir_deadline :: micros
  ir_content_present :: bool
  ir_content_forgotten_at :: "micros option"

record inspection_page =
  ip_rows :: "inspection_row list"
  ip_total_rows :: nat
  ip_next_cursor :: "string option"

subsection \<open>The query\<close>

text \<open>A filter column that is absent restricts nothing.\<close>
definition unless_null :: "'a option \<Rightarrow> ('a \<Rightarrow> bool) \<Rightarrow> bool" where
  "unless_null v P \<longleftrightarrow> (case v of None \<Rightarrow> True | Some x \<Rightarrow> P x)"

definition inspected :: "inspection_filter \<Rightarrow> delivery_row \<times> journal_row \<Rightarrow> bool" where
  "inspected f = (\<lambda>(d, j).
    unless_null (if_provider_id f) (\<lambda>x. d_provider_id d = x) \<and>
    unless_null (if_provider_instance_id f) (\<lambda>x. pt_provider_instance_id (j_target j) = x) \<and>
    unless_null (if_exact_scope_sha256 f) (\<lambda>x. d_exact_scope_sha256 d = x) \<and>
    unless_null (if_source_authority f) (\<lambda>x. sr_source_authority (j_source j) = x) \<and>
    unless_null (if_forget_source_key f) (\<lambda>x. pv_forget_source_key (j_privacy j) = x) \<and>
    unless_null (if_admitted_after f) (\<lambda>x. x < j_admitted_at j) \<and>
    unless_null (if_admitted_before f) (\<lambda>x. j_admitted_at j < x) \<and>
    unless_null (if_after_cursor f) (\<lambda>x. x < d_idempotency_key d) \<and>
    (if_states f = [] \<or> d_state d \<in> set (if_states f)))"

definition decode_inspected :: "delivery_row \<times> journal_row \<Rightarrow> inspection_row journal_result" where
  "decode_inspected = (\<lambda>(d, j).
    res_bind (observation_id_parse (j_observation_id j)) (\<lambda>obs.
    res_bind (parse_digest ''idempotency_key'' (d_idempotency_key d)) (\<lambda>key.
    res_bind (forget_source_key_new (pv_forget_source_key (j_privacy j))) (\<lambda>forget.
    res_bind (read_u32 (d_attempt_number d) ''attempt_number'') (\<lambda>attempt.
    Inr \<lparr>ir_observation_id = obs, ir_idempotency_key = key, ir_provider_id = d_provider_id d,
      ir_provider_instance_id = pt_provider_instance_id (j_target j),
      ir_registration_revision = d_registration_revision d,
      ir_last_provider_instance_id = d_last_provider_instance_id d,
      ir_exact_scope_sha256 = d_exact_scope_sha256 d,
      ir_source_authority = sr_source_authority (j_source j), ir_source_stream = sr_source_stream (j_source j),
      ir_source_sequence = sr_source_sequence (j_source j), ir_observation_kind = j_observation_kind j,
      ir_payload_contract = j_payload_contract j, ir_payload_sha256 = j_payload_sha256 j,
      ir_extensions_digest = j_extensions_digest j,
      ir_privacy_classification = pv_classification (j_privacy j),
      ir_retention_class = pv_retention_class (j_privacy j), ir_forget_source_key = forget,
      ir_state = d_state d, ir_attempt_number = attempt, ir_next_attempt_at = d_next_attempt_at d,
      ir_admitted_at = j_admitted_at j, ir_deadline = j_deadline j,
      ir_content_present = (j_payload_bytes j \<noteq> None),
      ir_content_forgotten_at = j_content_forgotten_at j\<rparr>)))))"

definition page_limit :: "inspection_filter \<Rightarrow> nat" where
  "page_limit f = (if if_limit f = 0 then 100 else if_limit f)"

definition inspection_key :: "delivery_row \<times> journal_row \<Rightarrow> string" where
  "inspection_key = (\<lambda>(d, j). d_idempotency_key d)"

definition inspect :: "inspection_filter \<Rightarrow> journal_store \<Rightarrow> inspection_page journal_result" where
  "inspect f s =
    res_bind (decode_each decode_inspected (select_limit (inspected f) inspection_key (page_limit f) (joined s))) (\<lambda>rows.
    Inr \<lparr>ip_rows = rows, ip_total_rows = count_where (inspected f) (joined s),
      ip_next_cursor = (if length rows = page_limit f \<and> rows \<noteq> [] then Some (ir_idempotency_key (last rows)) else None)\<rparr>)"

text \<open>An operator who follows the cursors until a page has none.  The fuel bounds the number of
  pages; running out of it is \<^verbatim>\<open>None\<close>.\<close>
fun inspect_pages :: "nat \<Rightarrow> inspection_filter \<Rightarrow> journal_store \<Rightarrow> inspection_row list journal_result option" where
  "inspect_pages 0 f s = None"
| "inspect_pages (Suc n) f s = (case inspect f s of
      Inl e \<Rightarrow> Some (Inl e)
    | Inr page \<Rightarrow> (case ip_next_cursor page of
        None \<Rightarrow> Some (Inr (ip_rows page))
      | Some cursor \<Rightarrow> map_option (map_sum (\<lambda>e. e) (\<lambda>rest. ip_rows page @ rest))
          (inspect_pages n (f\<lparr>if_after_cursor := Some cursor\<rparr>) s)))"

subsection \<open>Following the cursors\<close>

lemma page_limit_pos: "0 < page_limit f"
  by (simp add: page_limit_def)

lemma page_limit_cursor [simp]: "page_limit (f\<lparr>if_after_cursor := c\<rparr>) = page_limit f"
  by (simp add: page_limit_def)

definition matching :: "inspection_filter \<Rightarrow> journal_store \<Rightarrow> (delivery_row \<times> journal_row) list" where
  "matching f s = sort_key inspection_key (filter (inspected f) (joined s))"

lemma distinct_inspection_keys:
  assumes "store_ok s"
  shows "distinct (map inspection_key (joined s))"
proof -
  have "map inspection_key (joined s) = map d_idempotency_key (st_delivery s)"
    by (simp add: joined_map [OF assms] inspection_key_def o_def)
  then show ?thesis using store_ok_delivery_keys [OF assms] by simp
qed

lemma matching_strict: "store_ok s \<Longrightarrow> sorted_wrt (\<lambda>x y. inspection_key x < inspection_key y) (matching f s)"
proof -
  assume "store_ok s"
  then have "distinct (map inspection_key (filter (inspected f) (joined s)))"
    using distinct_inspection_keys distinct_map_filter by blast
  then have "distinct (map inspection_key (matching f s))"
    by (simp add: distinct_map matching_def)
  moreover have "sorted (map inspection_key (matching f s))" by (simp add: matching_def)
  ultimately have "sorted_wrt (<) (map inspection_key (matching f s))" using strict_sorted_iff by blast
  then show ?thesis by (simp add: sorted_wrt_map)
qed

text \<open>In a strictly ordered list, what comes after the last entry of a prefix is the rest.\<close>
lemma filter_after_take:
  assumes "sorted_wrt (\<lambda>x y. key x < (key y :: 'k::linorder)) xs" "n < length xs"
  shows "filter (\<lambda>x. key (xs ! n) < key x) xs = drop (Suc n) xs"
proof -
  have split: "xs = take (Suc n) xs @ drop (Suc n) xs" by simp
  have "key (xs ! i) \<le> key (xs ! n)" if "i < Suc n" for i
    using assms that by (cases "i = n") (auto simp: sorted_wrt_iff_nth_less intro!: less_imp_le)
  then have "filter (\<lambda>x. key (xs ! n) < key x) (take (Suc n) xs) = []"
    using assms(2) by (auto simp: filter_empty_conv in_set_conv_nth not_less)
  moreover have "filter (\<lambda>x. key (xs ! n) < key x) (drop (Suc n) xs) = drop (Suc n) xs"
    using assms by (auto simp: filter_id_conv in_set_conv_nth sorted_wrt_iff_nth_less)
  ultimately show ?thesis by (metis append_Nil filter_append split)
qed

lemma matching_next:
  assumes "store_ok s" "n < length (matching f s)"
  shows "matching (f\<lparr>if_after_cursor := Some (inspection_key (matching f s ! n))\<rparr>) s = drop (Suc n) (matching f s)"
proof -
  define k where "k = inspection_key (matching f s ! n)"
  have mem: "inspected f (matching f s ! n)"
    using nth_mem [OF assms(2)] by (simp add: matching_def)
  have "inspected (f\<lparr>if_after_cursor := Some k\<rparr>) = (\<lambda>x. inspected f x \<and> k < inspection_key x)"
    using mem by (cases "if_after_cursor f")
      (auto simp: inspected_def unless_null_def inspection_key_def k_def fun_eq_iff split: prod.splits)
  then have "matching (f\<lparr>if_after_cursor := Some k\<rparr>) s = filter (\<lambda>x. k < inspection_key x) (matching f s)"
    by (simp add: matching_def filter_sort conj_commute)
  then show ?thesis using filter_after_take [OF matching_strict [OF assms(1)] assms(2)] by (simp add: k_def)
qed

lemma decode_each_append:
  "decode_each f (xs @ ys) = Inr zs \<longleftrightarrow> (\<exists>us vs. decode_each f xs = Inr us \<and> decode_each f ys = Inr vs \<and> zs = us @ vs)"
  by (induction xs arbitrary: zs) (auto simp: res_bind_Inr_iff)

lemma decode_each_length: "decode_each f xs = Inr ys \<Longrightarrow> length ys = length xs"
  by (induction xs arbitrary: ys) (auto simp: res_bind_Inr_iff)

lemma decode_inspected_key: "decode_inspected x = Inr r \<Longrightarrow> ir_idempotency_key r = inspection_key x"
  by (auto simp: decode_inspected_def inspection_key_def res_bind_Inr_iff parse_digest_def split: prod.splits)

lemma decode_each_last:
  assumes "decode_each decode_inspected xs = Inr rs" "xs \<noteq> []"
  shows "ir_idempotency_key (last rs) = inspection_key (last xs)"
  using assms
proof (induction xs arbitrary: rs)
  case (Cons x xs)
  then obtain y ys where "decode_inspected x = Inr y" "decode_each decode_inspected xs = Inr ys" "rs = y # ys"
    by (auto simp: res_bind_Inr_iff)
  moreover from this have "ys = [] \<longleftrightarrow> xs = []" using decode_each_length by fastforce
  ultimately show ?case using Cons.IH [of ys] by (simp add: decode_inspected_key)
qed simp

lemma select_matching: "select_limit (inspected f) inspection_key n (joined s) = take n (matching f s)"
  by (simp add: select_limit_def matching_def)

text \<open>C14. Inspection is complete: an operator who starts without a cursor and follows the cursors
  over an unchanged store gets every matching delivery exactly once, in the order of the
  idempotency keys, after at most one page more than there are deliveries.\<close>
theorem inspect_pages_complete:
  assumes "store_ok s" "decode_each decode_inspected (matching f s) = Inr rows" "length rows < fuel"
  shows "inspect_pages fuel f s = Some (Inr rows)"
  using assms(2,3)
proof (induction fuel arbitrary: f rows)
  case (Suc fuel)
  let ?n = "page_limit f" and ?m = "matching f s"
  obtain us vs where parts: "decode_each decode_inspected (take ?n ?m) = Inr us"
    "decode_each decode_inspected (drop ?n ?m) = Inr vs" "rows = us @ vs"
    using Suc.prems(1) iffD1 [OF decode_each_append [of decode_inspected "take ?n ?m" "drop ?n ?m" rows]] by auto
  have len: "length us = min (length ?m) ?n" using decode_each_length [OF parts(1)] by simp
  show ?case
  proof (cases "?n \<le> length ?m")
    case True
    then have ne: "take ?n ?m \<noteq> []" using page_limit_pos [of f] by (metis length_0_conv length_take min.absorb2 less_not_refl)
    have last: "last (take ?n ?m) = ?m ! (?n - 1)"
      using True page_limit_pos [of f] by (simp add: last_conv_nth [OF ne] min_absorb2)
    have "?n - 1 < length ?m" using True page_limit_pos [of f] by linarith
    from matching_next [OF assms(1) this]
    have "decode_each decode_inspected (matching (f\<lparr>if_after_cursor := Some (inspection_key (last (take ?n ?m)))\<rparr>) s) = Inr vs"
      using parts(2) last page_limit_pos [of f] by simp
    moreover have "length vs < fuel" using Suc.prems(2) parts(3) len True page_limit_pos [of f] by (simp)
    ultimately have "inspect_pages fuel (f\<lparr>if_after_cursor := Some (inspection_key (last (take ?n ?m)))\<rparr>) s = Some (Inr vs)"
      by (rule Suc.IH)
    then show ?thesis
      using True len ne decode_each_last [OF parts(1) ne] parts page_limit_pos [of f]
      by (auto simp: inspect_def select_matching res_bind_def)
  next
    case False
    then have "vs = []" using parts(2) by simp
    then show ?thesis using False len parts by (simp add: inspect_def select_matching res_bind_def)
  qed
qed simp

lemma sample_journal_observation:
  "j_observation_id (sample_journal 1 sample_digest) = ''00000000-0000-7000-8000-0000000000'' @ decimal 11"
  by (simp add: sample_journal_def journal_row_of_def sample_admitted_def)

lemma sample_matching:
  "matching (default_inspection_filter\<lparr>if_limit := 1\<rparr>) sample_leased_store = [(sample_leased_row, sample_journal 1 sample_digest)]"
  by (simp add: matching_def joined_def find_journal_key_def inspected_def unless_null_def default_inspection_filter_def
      del: One_nat_def)

theorem inspect_pages_complete_witness:
  "\<exists>row. inspect_pages 2 (default_inspection_filter\<lparr>if_limit := 1\<rparr>) sample_leased_store = Some (Inr [row]) \<and>
    ir_state row = Leased"
proof -
  have "observation_id_parse (''00000000-0000-7000-8000-0000000000'' @ decimal 11) =
      Inr (''00000000-0000-7000-8000-0000000000'' @ decimal 11)"
    using sample_observation_id by (simp add: sample_admitted_def)
  moreover have "parse_digest ''idempotency_key'' sample_digest = Inr sample_digest"
    by (simp add: parse_digest_def res_bind_Inr_iff)
  moreover have "forget_source_key_new (pv_forget_source_key (j_privacy (sample_journal 1 sample_digest))) = Inr ''forget''"
    by (simp add: sample_journal_def journal_row_of_def sample_admitted_def forget_source_key_new_def
        SOURCE_EVENT_ID_MAX_BYTES_def res_bind_Inr_iff)
  ultimately obtain row where "decode_inspected (sample_leased_row, sample_journal 1 sample_digest) = Inr row" "ir_state row = Leased"
    by (simp add: decode_inspected_def read_u32_def u32_max_def sample_journal_observation del: One_nat_def)
  then show ?thesis
    using inspect_pages_complete [OF sample_leased_store_ok, of "default_inspection_filter\<lparr>if_limit := 1\<rparr>" "[row]" 2]
    by (simp add: sample_matching del: One_nat_def)
qed

end
