(* ===== verification/Journal_Replay.thy ===== *)
theory Journal_Replay
  imports Journal_Append
begin

text \<open>
  The replay discipline of the ingress side.  A source position is decided once: it is
  journalled, withheld or recorded as a non-message, and a non-message excludes the other two.
  The replay cursor of a stream never moves backwards and is never behind a decided position.
  The three ingress operations are shown to keep this as instances of one interface, so any
  interleaving of them does.
\<close>

definition cursors_advance :: "cursor_row list \<Rightarrow> cursor_row list \<Rightarrow> bool" where
  "cursors_advance rows rows' \<longleftrightarrow> (\<forall>c\<in>set rows. \<exists>c'\<in>set rows'.
    rc_stream c' = rc_stream c \<and> rc_last_admitted_sequence c \<le> rc_last_admitted_sequence c')"

definition reached :: "cursor_row list \<Rightarrow> stream_columns \<Rightarrow> nat \<Rightarrow> bool" where
  "reached rows stream seq \<longleftrightarrow> (\<exists>c\<in>set rows. rc_stream c = stream \<and> seq \<le> rc_last_admitted_sequence c)"

definition decided :: "journal_store \<Rightarrow> stream_columns \<Rightarrow> nat \<Rightarrow> bool" where
  "decided s stream seq \<longleftrightarrow>
    journalled_at s stream seq \<or> withheld_at s stream seq \<or> non_message_at s stream seq"

definition decided_once :: "journal_store \<Rightarrow> bool" where
  "decided_once s \<longleftrightarrow> (\<forall>stream seq.
    (non_message_at s stream seq \<longrightarrow> \<not> journalled_at s stream seq \<and> \<not> withheld_at s stream seq) \<and>
    (decided s stream seq \<longrightarrow> reached (st_cursors s) stream seq))"

lemma cursors_advance_refl [simp]: "cursors_advance rows rows"
  by (auto simp: cursors_advance_def)

lemma cursors_advance_trans:
  "cursors_advance a b \<Longrightarrow> cursors_advance b c \<Longrightarrow> cursors_advance a c"
  unfolding cursors_advance_def by (metis le_trans)

lemma reached_advance: "reached rows stream seq \<Longrightarrow> cursors_advance rows rows' \<Longrightarrow> reached rows' stream seq"
  unfolding reached_def cursors_advance_def by (metis le_trans)

lemma update_where_advance:
  assumes "\<And>c. P c \<Longrightarrow> rc_stream (f c) = rc_stream c \<and> rc_last_admitted_sequence c \<le> rc_last_admitted_sequence (f c)"
  shows "cursors_advance rows (update_where P f rows)"
  unfolding cursors_advance_def
proof
  fix c assume "c \<in> set rows"
  from update_where_mem [OF this, of P f] assms [of c]
  show "\<exists>c'\<in>set (update_where P f rows). rc_stream c' = rc_stream c \<and>
      rc_last_admitted_sequence c \<le> rc_last_admitted_sequence c'"
    by (cases "P c") auto
qed

lemma cursors_advance_append: "cursors_advance rows (rows @ [x])"
  by (auto simp: cursors_advance_def)

lemma upsert_cursor_advance: "cursors_advance rows (upsert_cursor x rows)"
proof -
  have "cursors_advance rows (update_where (\<lambda>c. rc_stream c = rc_stream x) (\<lambda>c.
         if rc_last_admitted_sequence c \<le> rc_last_admitted_sequence x then x
         else c\<lparr>rc_updated_at := rc_updated_at x\<rparr>) rows)"
    by (rule update_where_advance) simp
  then show ?thesis by (simp add: upsert_cursor_def cursors_advance_append)
qed

lemma upsert_withheld_cursor_advance: "cursors_advance rows (upsert_withheld_cursor x rows)"
proof -
  have "cursors_advance rows (update_where (\<lambda>c. rc_stream c = rc_stream x \<and>
         rc_last_admitted_sequence c < rc_last_admitted_sequence x) (\<lambda>c. x) rows)"
    by (rule update_where_advance) simp
  then show ?thesis by (simp add: upsert_withheld_cursor_def cursors_advance_append)
qed

lemma upsert_cursor_reached:
  "reached (upsert_cursor x rows) (rc_stream x) (rc_last_admitted_sequence x)"
proof (cases "\<exists>c\<in>set rows. rc_stream c = rc_stream x")
  case True
  then obtain c where c: "c \<in> set rows" "rc_stream c = rc_stream x" by blast
  from update_where_mem [OF c(1), of "\<lambda>c. rc_stream c = rc_stream x" "\<lambda>c.
      if rc_last_admitted_sequence c \<le> rc_last_admitted_sequence x then x
      else c\<lparr>rc_updated_at := rc_updated_at x\<rparr>"] c(2) True
  show ?thesis
    unfolding reached_def upsert_cursor_def
    by (auto split: if_splits intro: rev_bexI)
qed (simp add: reached_def upsert_cursor_def)

lemma upsert_withheld_cursor_reached:
  "reached (upsert_withheld_cursor x rows) (rc_stream x) (rc_last_admitted_sequence x)"
proof (cases "\<exists>c\<in>set rows. rc_stream c = rc_stream x")
  case True
  then obtain c where c: "c \<in> set rows" "rc_stream c = rc_stream x" by blast
  from update_where_mem [OF c(1), of "\<lambda>c. rc_stream c = rc_stream x \<and>
      rc_last_admitted_sequence c < rc_last_admitted_sequence x" "\<lambda>c. x"] c(2) True
  show ?thesis
    unfolding reached_def upsert_withheld_cursor_def
    by (auto simp: not_less split: if_splits intro: rev_bexI)
qed (simp add: reached_def upsert_withheld_cursor_def)

lemma decided_onceD:
  "decided_once s \<Longrightarrow> non_message_at s stream seq \<Longrightarrow> \<not> journalled_at s stream seq \<and> \<not> withheld_at s stream seq"
  unfolding decided_once_def by blast

text \<open>One new decision at a position that no non-message occupies keeps the discipline.\<close>
lemma decided_once_step:
  assumes "decided_once s"
    and adv: "cursors_advance (st_cursors s) (st_cursors s')"
    and new: "reached (st_cursors s') stream seq"
    and decs: "\<And>st n. decided s' st n \<Longrightarrow> decided s st n \<or> (st, n) = (stream, seq)"
    and excl: "\<And>st n. non_message_at s' st n \<Longrightarrow> \<not> journalled_at s' st n \<and> \<not> withheld_at s' st n"
  shows "decided_once s'"
  using assms reached_advance [OF _ adv] unfolding decided_once_def by blast

subsection \<open>The three ingress operations\<close>

lemma append_rows_reached:
  assumes "append_rows sha a now s = Inr (out, s')"
  shows "cursors_advance (st_cursors s) (st_cursors s')"
    "reached (st_cursors s') (ao_stream_columns sha a) (sr_source_sequence (ao_source a))"
proof -
  obtain x where x: "st_cursors s' = upsert_cursor x (st_cursors s)" "rc_stream x = ao_stream_columns sha a"
    "rc_last_admitted_sequence x = sr_source_sequence (ao_source a)"
    using assms by (auto simp: append_rows_def settled_cursor_def Let_def res_bind_Inr_iff split: if_splits option.splits)
  then show "cursors_advance (st_cursors s) (st_cursors s')"
    "reached (st_cursors s') (ao_stream_columns sha a) (sr_source_sequence (ao_source a))"
    using upsert_cursor_advance upsert_cursor_reached [of x "st_cursors s"] by simp_all
qed

lemma append_rows_at:
  assumes "store_ok s" "append_rows sha a now s = Inr (out, s')"
  shows "journalled_at s' st n \<longleftrightarrow> journalled_at s st n \<or>
      (st, n) = (ao_stream_columns sha a, sr_source_sequence (ao_source a))"
    "withheld_at s' st n = withheld_at s st n" "non_message_at s' st n = non_message_at s st n"
  using append_rows_effect(3) [OF assms] append_rows_frame [OF assms(2)]
  by (auto simp: journalled_at_def withheld_at_def non_message_at_def new_rows_ok)

lemma append_keeps_decided_once:
  assumes ok: "store_ok s" and once: "decided_once s"
  shows "decided_once (snd (append_admitted_at sha policy a now s))"
  unfolding append_admitted_at_def
proof (rule with_transaction_keeps [of decided_once, OF once])
  fix out s'
  assume run: "append_admitted_in_transaction sha policy a now s = Inr (out, s')"
  show "decided_once s'"
  proof (cases "append_precheck sha policy a now s = Inr None")
    case True
    then have rows: "append_rows sha a now s = Inr (out, s')"
      using append_stopped_or_rows [OF run] by auto
    note at = append_rows_at [OF ok rows]
    show ?thesis
    proof (rule decided_once_step [OF once append_rows_reached [OF rows]])
      show "decided s st n \<or> (st, n) = (ao_stream_columns sha a, sr_source_sequence (ao_source a))"
        if "decided s' st n" for st n
        using that by (auto simp: decided_def at)
      show "\<not> journalled_at s' st n \<and> \<not> withheld_at s' st n" if "non_message_at s' st n" for st n
        using that decided_onceD [OF once] append_precheck_None(3) [OF True] unfolding at by blast
    qed
  qed (use append_stopped_or_rows [OF run] once in auto)
qed

lemma append_advances:
  "cursors_advance (st_cursors s) (st_cursors (snd (append_admitted_at sha policy a now s)))"
  unfolding append_admitted_at_def
  by (rule with_transaction_keeps [where P = "\<lambda>s'. cursors_advance (st_cursors s) (st_cursors s')"])
    (auto dest: append_stopped_or_rows append_rows_reached)

lemma record_withheld_effect:
  assumes "record_withheld_in_transaction w now s = Inr (u, s')"
  shows "\<exists>x. s' = s\<lparr>st_withheld := insert_withheld \<lparr>w_admission = w, w_withheld_at = now\<rparr> (st_withheld s),
      st_cursors := upsert_withheld_cursor x (st_cursors s)\<rparr> \<and>
    rc_stream x = w_stream \<lparr>w_admission = w, w_withheld_at = now\<rparr> \<and>
    rc_last_admitted_sequence x = wa_source_sequence w \<and> \<not> non_message_at s (rc_stream x) (wa_source_sequence w)"
  using assms
  by (auto simp: record_withheld_in_transaction_def Let_def res_bind_Inr_iff reject_non_message_def
      w_sequence_def split: if_splits)

lemma insert_withheld_at:
  "withheld_at (s\<lparr>st_withheld := insert_withheld row (st_withheld s), st_cursors := cs\<rparr>) stream seq \<longleftrightarrow>
    withheld_at s stream seq \<or> (stream, seq) = (w_stream row, w_sequence row)"
  by (auto simp: withheld_at_def insert_withheld_def withheld_key_def)

lemma record_withheld_keeps:
  assumes "decided_once s" "record_withheld_in_transaction w now s = Inr (u, s')"
  shows "decided_once s'" "cursors_advance (st_cursors s) (st_cursors s')"
proof -
  let ?row = "\<lparr>w_admission = w, w_withheld_at = now\<rparr>"
  obtain x where x: "s' = s\<lparr>st_withheld := insert_withheld ?row (st_withheld s),
      st_cursors := upsert_withheld_cursor x (st_cursors s)\<rparr>"
    "rc_stream x = w_stream ?row" "rc_last_admitted_sequence x = wa_source_sequence w"
    "\<not> non_message_at s (rc_stream x) (wa_source_sequence w)"
    using record_withheld_effect [OF assms(2)] by blast
  have at: "journalled_at s' st n = journalled_at s st n" "non_message_at s' st n = non_message_at s st n"
    "withheld_at s' st n \<longleftrightarrow> withheld_at s st n \<or> (st, n) = (w_stream ?row, wa_source_sequence w)" for st n
    by (simp_all add: x(1) insert_withheld_at journalled_at_def non_message_at_def w_sequence_def)
  show adv: "cursors_advance (st_cursors s) (st_cursors s')"
    by (simp add: x(1) upsert_withheld_cursor_advance)
  show "decided_once s'"
  proof (rule decided_once_step [OF assms(1) adv])
    show "reached (st_cursors s') (w_stream ?row) (wa_source_sequence w)"
      using upsert_withheld_cursor_reached [of x] by (simp add: x)
    show "decided s st n \<or> (st, n) = (w_stream ?row, wa_source_sequence w)" if "decided s' st n" for st n
      using that unfolding decided_def at by blast
    show "\<not> journalled_at s' st n \<and> \<not> withheld_at s' st n" if "non_message_at s' st n" for st n
      using that decided_onceD [OF assms(1)] x(2,4) unfolding at by auto
  qed
qed

lemma record_non_message_effect:
  assumes "record_non_message_in_transaction stream src now s = Inr (u, s')"
  shows "s' = s \<or> s' = s\<lparr>st_non_message := st_non_message s @ [non_message_row_of stream src],
      st_cursors := upsert_cursor (settled_cursor stream src NonMessage now) (st_cursors s)\<rparr> \<and>
    \<not> journalled_at s stream (sr_source_sequence src) \<and> \<not> withheld_at s stream (sr_source_sequence src)"
  using assms
  by (simp add: record_non_message_in_transaction_def Let_def split: if_splits option.splits)

lemma record_non_message_keeps:
  assumes "decided_once s" "record_non_message_in_transaction stream src now s = Inr (u, s')"
  shows "decided_once s' \<and> cursors_advance (st_cursors s) (st_cursors s')"
  using record_non_message_effect [OF assms(2)]
proof (elim disjE exE conjE)
  let ?c = "settled_cursor stream src NonMessage now"
  assume x: "s' = s\<lparr>st_non_message := st_non_message s @ [non_message_row_of stream src],
      st_cursors := upsert_cursor ?c (st_cursors s)\<rparr>"
    "\<not> journalled_at s stream (sr_source_sequence src)" "\<not> withheld_at s stream (sr_source_sequence src)"
  have at: "journalled_at s' st n = journalled_at s st n" "withheld_at s' st n = withheld_at s st n"
    "non_message_at s' st n \<longleftrightarrow> non_message_at s st n \<or> (st, n) = (stream, sr_source_sequence src)" for st n
    by (auto simp: x(1) journalled_at_def non_message_at_def withheld_at_def non_message_row_of_def)
  have adv: "cursors_advance (st_cursors s) (st_cursors s')"
    by (simp add: x(1) upsert_cursor_advance)
  moreover have "decided_once s'"
  proof (rule decided_once_step [OF assms(1) adv])
    show "reached (st_cursors s') stream (sr_source_sequence src)"
      using upsert_cursor_reached [of ?c "st_cursors s"] by (simp add: x(1) settled_cursor_def)
    show "decided s st n \<or> (st, n) = (stream, sr_source_sequence src)" if "decided s' st n" for st n
      using that unfolding decided_def at by blast
    show "\<not> journalled_at s' st n \<and> \<not> withheld_at s' st n" if "non_message_at s' st n" for st n
      using that decided_onceD [OF assms(1)] x(2,3) unfolding at by blast
  qed
  ultimately show ?thesis by simp
qed (use assms(1) in simp)

subsection \<open>Interleavings of ingress operations\<close>

datatype ingress_event =
    AdmitEvent admitted_observation micros
  | WithholdEvent withheld_admission micros
  | NonMessageEvent stream_key settlement_receipt micros

fun run_ingress :: "sha \<Rightarrow> retention_policy \<Rightarrow> ingress_event \<Rightarrow> journal_store \<Rightarrow> journal_store" where
  "run_ingress sha policy (AdmitEvent a now) s = snd (append_admitted_at sha policy a now s)"
| "run_ingress sha policy (WithholdEvent w now) s = snd (record_withheld_at sha w now s)"
| "run_ingress sha policy (NonMessageEvent k src now) s = snd (record_non_message k src now s)"

text \<open>What the ingress side promises of each of its operations, and what follows for any
  sequence of them.\<close>
locale ingress_operations =
  fixes run :: "'event \<Rightarrow> journal_store \<Rightarrow> journal_store"
  assumes keeps_ok: "store_ok s \<Longrightarrow> store_ok (run e s)"
    and keeps_once: "store_ok s \<Longrightarrow> decided_once s \<Longrightarrow> decided_once (run e s)"
    and advances: "store_ok s \<Longrightarrow> decided_once s \<Longrightarrow> cursors_advance (st_cursors s) (st_cursors (run e s))"
    and keeps_withheld: "withheld_at s stream seq \<Longrightarrow> withheld_at (run e s) stream seq"
begin

lemma fold_keeps:
  assumes "store_ok s" "decided_once s"
  shows "store_ok (fold run es s) \<and> decided_once (fold run es s) \<and>
    cursors_advance (st_cursors s) (st_cursors (fold run es s))"
  using assms
proof (induction es arbitrary: s)
  case (Cons e es)
  note IH = Cons.IH [OF keeps_ok [OF Cons.prems(1)] keeps_once [OF Cons.prems]]
  with cursors_advance_trans [OF advances [OF Cons.prems]] show ?case by auto
qed simp

lemma fold_keeps_withheld: "withheld_at s stream seq \<Longrightarrow> withheld_at (fold run es s) stream seq"
  by (induction es arbitrary: s) (auto intro: keeps_withheld)

end

lemma record_withheld_cases:
  "snd (record_withheld_at sha w now s) = s \<or>
    (\<exists>u. record_withheld_in_transaction w now s = Inr (u, snd (record_withheld_at sha w now s)))"
  by (auto simp: record_withheld_at_def with_transaction_def split: sum.splits)

lemma record_non_message_cases:
  "snd (record_non_message k src now s) = s \<or>
    (\<exists>u. record_non_message_in_transaction (stream_columns_of k) src now s
      = Inr (u, snd (record_non_message k src now s)))"
  by (auto simp: record_non_message_def with_transaction_def split: sum.splits)

lemma record_withheld_store_ok: "store_ok s \<Longrightarrow> store_ok (snd (record_withheld_at sha w now s))"
  using record_withheld_cases [of sha w now s]
  by (auto simp: store_ok_def intro: upsert_cursor_streams dest!: record_withheld_effect)

lemma record_non_message_store_ok: "store_ok s \<Longrightarrow> store_ok (snd (record_non_message k src now s))"
  using record_non_message_cases [of k src now s]
  by (auto simp: store_ok_def intro: upsert_cursor_streams dest!: record_non_message_effect)

lemma append_keeps_withheld:
  "withheld_at s stream seq \<Longrightarrow> withheld_at (snd (append_admitted_at sha policy a now s)) stream seq"
  unfolding append_admitted_at_def
  by (rule with_transaction_keeps [where P = "\<lambda>s'. withheld_at s' stream seq"])
    (auto simp: withheld_at_def append_rows_frame(5) dest!: append_stopped_or_rows)

lemma record_withheld_discipline:
  assumes "decided_once s"
  shows "decided_once (snd (record_withheld_at sha w now s))"
    "cursors_advance (st_cursors s) (st_cursors (snd (record_withheld_at sha w now s)))"
  using record_withheld_cases [of sha w now s] record_withheld_keeps [OF assms, of w now] assms by auto

lemma record_non_message_discipline:
  assumes "decided_once s"
  shows "decided_once (snd (record_non_message k src now s))"
    "cursors_advance (st_cursors s) (st_cursors (snd (record_non_message k src now s)))"
  using record_non_message_cases [of k src now s]
    record_non_message_keeps [OF assms, of "stream_columns_of k" src now] assms by auto

interpretation ingress: ingress_operations "run_ingress sha policy" for sha policy
proof unfold_locales
  fix e s stream seq
  show "store_ok s \<Longrightarrow> store_ok (run_ingress sha policy e s)"
    by (cases e) (simp_all add: append_keeps_store_ok record_withheld_store_ok record_non_message_store_ok)
  show "store_ok s \<Longrightarrow> decided_once s \<Longrightarrow> decided_once (run_ingress sha policy e s)"
    by (cases e) (simp_all add: append_keeps_decided_once record_withheld_discipline record_non_message_discipline)
  show "store_ok s \<Longrightarrow> decided_once s \<Longrightarrow> cursors_advance (st_cursors s) (st_cursors (run_ingress sha policy e s))"
    by (cases e) (simp_all add: append_advances record_withheld_discipline record_non_message_discipline)
  show "withheld_at s stream seq \<Longrightarrow> withheld_at (run_ingress sha policy e s) stream seq"
  proof (cases e)
    case (WithholdEvent w now)
    then show "withheld_at s stream seq \<Longrightarrow> ?thesis"
      using record_withheld_cases [of sha w now s]
      by (auto dest!: record_withheld_effect simp: insert_withheld_at)
  next
    case (NonMessageEvent k src now)
    then show "withheld_at s stream seq \<Longrightarrow> ?thesis"
      using record_non_message_cases [of k src now s]
      by (auto dest!: record_non_message_effect simp: withheld_at_def)
  qed (simp add: append_keeps_withheld)
qed


text \<open>C24. A withheld position stays closed: once hygiene has refused an event, no later admission
  at that position of the same stream is appended for any registration, whatever ingress
  operations happen in between.\<close>
theorem withheld_position_closed:
  assumes "record_withheld_at sha w now s = (Inr (), s1)"
    and "ao_stream_columns sha a = (wa_source_authority w, wa_exact_scope_sha256 w, wa_source_stream w)"
    and "sr_source_sequence (ao_source a) = wa_source_sequence w"
  shows "fst (append_admitted_at sha policy a now' (fold (run_ingress sha policy) es s1)) \<noteq> Inr (Appended obs n)"
proof
  let ?s = "fold (run_ingress sha policy) es s1"
  assume "fst (append_admitted_at sha policy a now' ?s) = Inr (Appended obs n)"
  then obtain s' where "append_admitted_in_transaction sha policy a now' ?s = Inr (Appended obs n, s')"
    by (auto simp: append_admitted_at_def with_transaction_def split: sum.splits)
  then have pre: "append_precheck sha policy a now' ?s = Inr None"
    using append_stopped_or_rows append_precheck_not_appended by blast
  have "record_withheld_in_transaction w now s = Inr ((), s1)"
    using assms(1) by (auto simp: record_withheld_at_def with_transaction_ok split: sum.splits)
  then have "withheld_at s1 (ao_stream_columns sha a) (sr_source_sequence (ao_source a))"
    using assms(2,3) by (auto dest!: record_withheld_effect simp: insert_withheld_at w_stream_def w_sequence_def)
  then have "withheld_at ?s (ao_stream_columns sha a) (sr_source_sequence (ao_source a))"
    by (rule ingress.fold_keeps_withheld)
  with append_precheck_None(4) [OF pre] show False by simp
qed

definition sample_withheld :: "nat \<Rightarrow> withheld_admission" where
  "sample_withheld n = \<lparr>wa_source_authority = ''host_session'', wa_exact_scope_sha256 = sample_digest,
    wa_source_stream = ''stream'', wa_source_sequence = n, wa_source_event_id = ''event'',
    wa_source_event_revision = ''1'',
    wa_receipt_id = OBSERVATION_HYGIENE_WITHHELD_ID_PREFIX @ sample_digest,
    wa_reason = ''secret_rejected'', wa_source_payload_sha256 = sample_digest,
    wa_extensions_digest = sample_digest, wa_sanitizer_revision = ''rules.v1'', wa_finding_count = 1,
    wa_findings_digest = sample_digest, wa_forget_source_key = ''forget''\<rparr>"

lemma decided_once_empty: "decided_once empty_store"
  by (simp add: decided_once_def decided_def journalled_at_def withheld_at_def non_message_at_def
      empty_store_def)


lemma sample_withheld_recorded:
  "fst (record_withheld_at zero_sha (sample_withheld 2) 2 empty_store) = Inr ()"
  by (simp add: record_withheld_at_def withheld_validate_def sample_withheld_def authority_from_wire_def
      require_sha256_def require_bounded_def require_non_empty_def SOURCE_EVENT_ID_MAX_BYTES_def
      withheld_reason_from_wire_def derive_withheld_receipt_id_def OBSERVATION_HYGIENE_WITHHELD_ID_PREFIX_def
      framed_digest_def sql_i64_def i64_max_def with_transaction_def record_withheld_in_transaction_def
      reject_non_message_def non_message_at_def empty_store_def Let_def)

theorem withheld_position_closed_witness:
  "fst (append_admitted_at zero_sha sample_policy (sample_admitted 2 ''b'') 5
      (fold (run_ingress zero_sha sample_policy) [AdmitEvent (sample_admitted 1 ''a'') 3]
        (snd (record_withheld_at zero_sha (sample_withheld 2) 2 empty_store))))
    \<noteq> Inr (Appended (ao_observation_id (sample_admitted 2 ''b'')) 2)"
proof (rule withheld_position_closed [where w = "sample_withheld 2" and now = 2 and s = empty_store])
  show "record_withheld_at zero_sha (sample_withheld 2) 2 empty_store =
      (Inr (), snd (record_withheld_at zero_sha (sample_withheld 2) 2 empty_store))"
    using sample_withheld_recorded by (metis prod.collapse)
qed (simp_all add: sample_withheld_def sample_admitted_def sample_source_def ao_stream_columns_def
    exact_scope_sha256_def)

end
