(* ===== verification/Journal_Retention.thy ===== *)
theory Journal_Retention
  imports Journal_Attempts
begin

text \<open>
  Retention and privacy deletion (\<^verbatim>\<open>sqlite/retention.rs\<close>, \<^verbatim>\<open>retention.rs\<close>): the bounded
  sweep, forgetting one source and verifying that it is forgotten, with the schedule that
  drives the sweep (\<^verbatim>\<open>runtime/retention.rs\<close>).  The answer of the write-ahead-log checkpoint
  that ends an operation is an argument.  SQLite evaluates the sum of the admission instant
  and the class age without wrapping, so the effective expiry is computed on integers.
\<close>

subsection \<open>Selections\<close>

definition effective_expiry :: "retention_policy \<Rightarrow> journal_row \<Rightarrow> int" where
  "effective_expiry policy j =
    min (pv_expires_at (j_privacy j)) (j_admitted_at j + max_age_for policy (pv_retention_class (j_privacy j)))"

definition is_unsettled :: "delivery_state \<Rightarrow> bool" where
  "is_unsettled st \<longleftrightarrow> st \<in> {Pending, Leased, delivery_state.EffectUnknown}"

definition is_settled :: "delivery_state \<Rightarrow> bool" where
  "is_settled st \<longleftrightarrow> st \<in> {Acknowledged, delivery_state.DuplicateAcknowledged, delivery_state.Rejected, delivery_state.Cancelled, Expired, Exhausted, Forgotten}"

definition purgeable :: "retention_policy \<Rightarrow> micros \<Rightarrow> journal_row \<Rightarrow> bool" where
  "purgeable policy now j \<longleftrightarrow> j_payload_bytes j \<noteq> None \<and> effective_expiry policy j \<le> now"

definition stranded :: "delivery_row \<times> journal_row \<Rightarrow> bool" where
  "stranded = (\<lambda>(d, j). j_payload_bytes j = None \<and> is_unsettled (d_state d))"

definition deletable :: "micros \<Rightarrow> delivery_row \<times> journal_row \<Rightarrow> bool" where
  "deletable cutoff = (\<lambda>(d, j). (case j_content_forgotten_at j of None \<Rightarrow> False | Some t \<Rightarrow> t \<le> cutoff) \<and>
    is_settled (d_state d))"

definition admission_order :: "delivery_row \<times> journal_row \<Rightarrow> micros \<times> string" where
  "admission_order = (\<lambda>(d, j). (j_admitted_at j, j_idempotency_key j))"

definition forgotten_order :: "delivery_row \<times> journal_row \<Rightarrow> micros \<times> string" where
  "forgotten_order = (\<lambda>(d, j). ((case j_content_forgotten_at j of None \<Rightarrow> 0 | Some t \<Rightarrow> t), j_idempotency_key j))"

subsection \<open>Purging content\<close>

text \<open>The columns of \<^verbatim>\<open>PURGE_COLUMNS\<close> go together; the first instant of forgetting is kept.\<close>
definition purge_row :: "micros \<Rightarrow> journal_row \<Rightarrow> journal_row" where
  "purge_row now j = j\<lparr>j_payload_bytes := None, j_extensions := None, j_sanitization := None,
    j_content_forgotten_at := (case j_content_forgotten_at j of None \<Rightarrow> Some now | Some t \<Rightarrow> Some t)\<rparr>"

definition purge_content :: "string \<Rightarrow> micros \<Rightarrow> journal_store \<Rightarrow> journal_store" where
  "purge_content key now s =
    s\<lparr>st_journal := update_where (\<lambda>j. j_idempotency_key j = key) (purge_row now) (st_journal s)\<rparr>"

subsection \<open>The sweep\<close>

record sweep_receipt =
  sw_payloads_purged :: nat
  sw_deliveries_expired :: nat
  sw_deliveries_forgotten :: nat
  sw_journal_rows_deleted :: nat
  sw_receipts_deleted :: nat
  sw_withheld_rows_deleted :: nat
  sw_wal_truncated :: bool
  sw_remaining_candidates :: nat

definition default_sweep_receipt :: sweep_receipt where
  "default_sweep_receipt = \<lparr>sw_payloads_purged = 0, sw_deliveries_expired = 0, sw_deliveries_forgotten = 0,
    sw_journal_rows_deleted = 0, sw_receipts_deleted = 0, sw_withheld_rows_deleted = 0,
    sw_wal_truncated = False, sw_remaining_candidates = 0\<rparr>"

fun purge_each :: "sha \<Rightarrow> micros \<Rightarrow> delivery_row list \<Rightarrow> sweep_receipt \<Rightarrow> sweep_receipt tx" where
  "purge_each sha now [] receipt s = Inr (receipt, s)"
| "purge_each sha now (d # ds) receipt s =
    res_bind (if \<not> is_terminal (d_state d)
        then res_bind (expire_delivery sha (expire_request_of d Expired DeadlineExceeded ''retention_expiry'' now) s)
          (\<lambda>(_, s1). Inr (receipt\<lparr>sw_deliveries_expired := sat_add_u32 (sw_deliveries_expired receipt) 1\<rparr>, s1))
        else Inr (receipt, s)) (\<lambda>(r, s1).
    purge_each sha now ds (r\<lparr>sw_payloads_purged := sat_add_u32 (sw_payloads_purged r) 1\<rparr>)
      (purge_content (d_idempotency_key d) now s1))"

definition delete_journal_row :: "string \<Rightarrow> string \<Rightarrow> journal_store \<Rightarrow> journal_store" where
  "delete_journal_row key obs s =
    s\<lparr>st_receipts := filter (\<lambda>r. dr_observation_id r \<noteq> obs) (st_receipts s),
      st_refusals := filter (\<lambda>r. ar_observation_id r \<noteq> obs) (st_refusals s),
      st_journal := filter (\<lambda>j. j_idempotency_key j \<noteq> key) (st_journal s),
      st_delivery := filter (\<lambda>d. d_idempotency_key d \<noteq> key) (st_delivery s)\<rparr>"

fun delete_each :: "(string \<times> string) list \<Rightarrow> sweep_receipt \<Rightarrow> sweep_receipt tx" where
  "delete_each [] receipt s = Inr (receipt, s)"
| "delete_each ((key, obs) # rest) receipt s =
    res_bind (read_u32 (count_where (\<lambda>r. dr_observation_id r = obs) (st_receipts s)) ''receipts_deleted'') (\<lambda>n.
    res_bind (read_u32 (count_where (\<lambda>j. j_idempotency_key j = key) (st_journal s)) ''journal_rows_deleted'') (\<lambda>m.
    delete_each rest
      (receipt\<lparr>sw_receipts_deleted := sat_add_u32 (sw_receipts_deleted receipt) n,
        sw_journal_rows_deleted := sat_add_u32 (sw_journal_rows_deleted receipt) m\<rparr>)
      (delete_journal_row key obs s)))"

definition aged_withheld :: "micros \<Rightarrow> nat \<Rightarrow> withheld_row list \<Rightarrow> withheld_row list" where
  "aged_withheld cutoff batch = select_limit (\<lambda>w. w_withheld_at w \<le> cutoff)
    (\<lambda>w. (w_withheld_at w, w_sequence w, wa_receipt_id (w_admission w))) batch"

definition delete_aged_withheld :: "micros \<Rightarrow> nat \<Rightarrow> journal_store \<Rightarrow> nat \<times> journal_store" where
  "delete_aged_withheld cutoff batch s =
    (let hit = (\<lambda>w. withheld_key w \<in> set (map withheld_key (aged_withheld cutoff batch (st_withheld s))))
     in (count_where hit (st_withheld s), s\<lparr>st_withheld := filter (\<lambda>w. \<not> hit w) (st_withheld s)\<rparr>))"

definition remaining_candidates :: "retention_policy \<Rightarrow> micros \<Rightarrow> micros \<Rightarrow> journal_store \<Rightarrow> nat" where
  "remaining_candidates policy now cutoff s =
    sat_add_u64 (sat_add_u64 (sat_add_u64
      (count_where (purgeable policy now) (st_journal s))
      (count_where stranded (joined s)))
      (count_where (deletable cutoff) (joined s)))
      (count_where (\<lambda>w. w_withheld_at w \<le> cutoff) (st_withheld s))"

definition sweep_batch :: "retention_policy \<Rightarrow> nat \<Rightarrow> nat" where
  "sweep_batch policy budget = max (min budget (rp_sweep_batch_rows policy)) 1"

definition deletable_cutoff :: "retention_policy \<Rightarrow> micros \<Rightarrow> micros" where
  "deletable_cutoff policy now = sat_sub_i64 now (rp_receipt_retention policy)"

definition sweep_candidates :: "retention_policy \<Rightarrow> micros \<Rightarrow> nat \<Rightarrow> journal_store \<Rightarrow> delivery_row list" where
  "sweep_candidates policy now batch s =
    map fst (select_limit (\<lambda>(d, j). purgeable policy now j) admission_order batch (joined s))"

definition stranded_deliveries :: "nat \<Rightarrow> journal_store \<Rightarrow> delivery_row list" where
  "stranded_deliveries batch s = map fst (select_limit stranded admission_order batch (joined s))"

definition deletable_rows :: "micros \<Rightarrow> nat \<Rightarrow> journal_store \<Rightarrow> (string \<times> string) list" where
  "deletable_rows cutoff batch s =
    map (\<lambda>(d, j). (j_idempotency_key j, j_observation_id j))
      (select_limit (deletable cutoff) forgotten_order batch (joined s))"

definition sweep_in_transaction :: "sha \<Rightarrow> retention_policy \<Rightarrow> micros \<Rightarrow> nat \<Rightarrow> sweep_receipt tx" where
  "sweep_in_transaction sha policy now budget s =
    (let batch = sweep_batch policy budget; cutoff = deletable_cutoff policy now;
         candidates = sweep_candidates policy now batch s in
     res_bind (check_attempts candidates) (\<lambda>_.
     res_bind (purge_each sha now candidates default_sweep_receipt s) (\<lambda>(r1, s1).
     res_bind (terminalize_deliveries sha (stranded_deliveries batch s1) Forgotten observation_outcome.Cancelled
       ''content_forgotten'' now s1) (\<lambda>(n, s2).
     res_bind (delete_each (deletable_rows cutoff batch s2) (r1\<lparr>sw_deliveries_forgotten := n\<rparr>) s2) (\<lambda>(r2, s3).
     let (w, s4) = delete_aged_withheld cutoff batch s3 in
     res_bind (read_u32 w ''withheld_rows_deleted'') (\<lambda>w.
     Inr (r2\<lparr>sw_withheld_rows_deleted := w,
       sw_remaining_candidates := remaining_candidates policy now cutoff s4\<rparr>, s4)))))))"

text \<open>The checkpoint runs after the commit, so its failure leaves the sweep committed.\<close>
definition sweep_expired ::
  "sha \<Rightarrow> retention_policy \<Rightarrow> bool journal_result \<Rightarrow> micros \<Rightarrow> nat \<Rightarrow> journal_store \<Rightarrow>
    sweep_receipt journal_result \<times> journal_store" where
  "sweep_expired sha policy checkpoint now budget s =
    (case with_transaction (sweep_in_transaction sha policy now budget) s of
      (Inl e, s') \<Rightarrow> (Inl e, s')
    | (Inr receipt, s') \<Rightarrow> (res_bind checkpoint (\<lambda>b. Inr (receipt\<lparr>sw_wal_truncated := b\<rparr>)), s'))"

subsection \<open>Forgetting a source\<close>

record forget_request =
  fq_forget_source_key :: string
  fq_reason :: string
  fq_requested_at :: micros

definition forget_request_validate :: "forget_request \<Rightarrow> unit journal_result" where
  "forget_request_validate q =
    first_error [require_bounded (fq_forget_source_key q) ''forget_source_key'' SOURCE_EVENT_ID_MAX_BYTES,
      require_bounded (fq_reason q) ''reason'' SOURCE_EVENT_ID_MAX_BYTES]"

record forget_receipt =
  fr_forget_source_key :: string
  fr_journal_rows_matched :: nat
  fr_payloads_zeroed :: nat
  fr_sanitization_bindings_cleared :: nat
  fr_deliveries_forgotten :: nat
  fr_withheld_rows_deleted :: nat
  fr_receipts_retained :: nat
  fr_wal_truncated :: bool
  fr_completed_at :: micros

record forget_verification =
  fv_forget_source_key :: string
  fv_journal_rows_matching :: nat
  fv_rows_with_content_remaining :: nat
  fv_rows_with_binding_remaining :: nat
  fv_undelivered_remaining :: nat
  fv_withheld_rows_remaining :: nat
  fv_wal_truncated :: bool
  fv_verified :: bool

definition of_source :: "string \<Rightarrow> journal_row \<Rightarrow> bool" where
  "of_source key j \<longleftrightarrow> pv_forget_source_key (j_privacy j) = key"

definition withheld_of_source :: "string \<Rightarrow> withheld_row \<Rightarrow> bool" where
  "withheld_of_source key w \<longleftrightarrow> wa_forget_source_key (w_admission w) = key"

definition unsettled_of_source :: "string \<Rightarrow> delivery_row \<times> journal_row \<Rightarrow> bool" where
  "unsettled_of_source key = (\<lambda>(d, j). of_source key j \<and> is_unsettled (d_state d))"

definition source_deliveries :: "string \<Rightarrow> journal_store \<Rightarrow> delivery_row list" where
  "source_deliveries key s = map fst
    (sort_key (\<lambda>(d, j). d_idempotency_key d) (filter (unsettled_of_source key) (joined s)))"

definition forget_source_in_transaction :: "sha \<Rightarrow> forget_request \<Rightarrow> forget_receipt tx" where
  "forget_source_in_transaction sha q s =
    (let key = fq_forget_source_key q; now = fq_requested_at q;
         matched = count_where (of_source key) (st_journal s);
         with_content = count_where (\<lambda>j. of_source key j \<and> j_payload_bytes j \<noteq> None) (st_journal s);
         with_binding = count_where (\<lambda>j. of_source key j \<and> j_sanitization j \<noteq> None) (st_journal s) in
     res_bind (terminalize_deliveries sha (source_deliveries key s) Forgotten observation_outcome.Cancelled
       (fq_reason q) now s) (\<lambda>(forgotten, s1).
     let s2 = s1\<lparr>st_journal := update_where (of_source key) (purge_row now) (st_journal s1)\<rparr>;
         withheld = count_where (withheld_of_source key) (st_withheld s2);
         s3 = s2\<lparr>st_withheld := filter (\<lambda>w. \<not> withheld_of_source key w) (st_withheld s2)\<rparr>;
         retained = count_where (\<lambda>r. case find_journal_key s3 (dr_idempotency_key r) of
           None \<Rightarrow> False | Some j \<Rightarrow> of_source key j) (st_receipts s3) in
     Inr (\<lparr>fr_forget_source_key = key, fr_journal_rows_matched = matched, fr_payloads_zeroed = with_content,
       fr_sanitization_bindings_cleared = with_binding, fr_deliveries_forgotten = forgotten,
       fr_withheld_rows_deleted = withheld, fr_receipts_retained = retained, fr_wal_truncated = False,
       fr_completed_at = now\<rparr>, s3)))"

definition forget_source ::
  "sha \<Rightarrow> bool journal_result \<Rightarrow> forget_request \<Rightarrow> journal_store \<Rightarrow> forget_receipt journal_result \<times> journal_store" where
  "forget_source sha checkpoint q s =
    (case forget_request_validate q of Inl e \<Rightarrow> (Inl e, s)
    | Inr _ \<Rightarrow> (case with_transaction (forget_source_in_transaction sha q) s of
        (Inl e, s') \<Rightarrow> (Inl e, s')
      | (Inr receipt, s') \<Rightarrow> (res_bind checkpoint (\<lambda>b. Inr (receipt\<lparr>fr_wal_truncated := b\<rparr>)), s')))"

definition verify_forgotten ::
  "bool journal_result \<Rightarrow> string \<Rightarrow> journal_store \<Rightarrow> forget_verification journal_result" where
  "verify_forgotten checkpoint key s = res_bind checkpoint (\<lambda>wal_truncated.
    let with_content = count_where (\<lambda>j. of_source key j \<and> j_payload_bytes j \<noteq> None) (st_journal s);
        with_binding = count_where (\<lambda>j. of_source key j \<and> j_sanitization j \<noteq> None) (st_journal s);
        undelivered = count_where (unsettled_of_source key) (joined s);
        withheld = count_where (withheld_of_source key) (st_withheld s)
    in Inr \<lparr>fv_forget_source_key = key, fv_journal_rows_matching = count_where (of_source key) (st_journal s),
      fv_rows_with_content_remaining = with_content, fv_rows_with_binding_remaining = with_binding,
      fv_undelivered_remaining = undelivered, fv_withheld_rows_remaining = withheld,
      fv_wal_truncated = wal_truncated,
      fv_verified = (with_content = 0 \<and> with_binding = 0 \<and> undelivered = 0 \<and> withheld = 0 \<and> wal_truncated)\<rparr>)"

subsection \<open>The sweep schedule\<close>

record sweep_schedule =
  ss_interval :: micros
  ss_error_backoff :: micros

definition sweep_schedule_bounded :: "micros \<Rightarrow> micros \<Rightarrow> sweep_schedule journal_result" where
  "sweep_schedule_bounded interval error_backoff =
    (if interval \<le> 0 then Inl (InvalidSweepSchedule ''interval_micros'')
     else if error_backoff \<le> 0 then Inl (InvalidSweepSchedule ''error_backoff_micros'')
     else Inr \<lparr>ss_interval = interval, ss_error_backoff = error_backoff\<rparr>)"

datatype retention_tick = NotDue micros | Swept sweep_receipt micros

record retention_sweeper =
  sp_schedule :: sweep_schedule
  sp_next_due :: micros

definition retention_sweeper_new :: "sweep_schedule \<Rightarrow> micros \<Rightarrow> retention_sweeper" where
  "retention_sweeper_new schedule now = \<lparr>sp_schedule = schedule, sp_next_due = now\<rparr>"

definition made_progress :: "sweep_receipt \<Rightarrow> bool" where
  "made_progress r \<longleftrightarrow> 0 < sw_payloads_purged r \<or> 0 < sw_deliveries_expired r \<or> 0 < sw_deliveries_forgotten r \<or>
    0 < sw_journal_rows_deleted r \<or> 0 < sw_receipts_deleted r \<or> 0 < sw_withheld_rows_deleted r"

definition next_sweep_due :: "sweep_schedule \<Rightarrow> micros \<Rightarrow> sweep_receipt \<Rightarrow> micros" where
  "next_sweep_due schedule now r =
    (if sw_remaining_candidates r = 0 then sat_add_i64 now (ss_interval schedule)
     else if made_progress r then now else sat_add_i64 now (ss_error_backoff schedule))"

definition retention_tick_at ::
  "sha \<Rightarrow> retention_policy \<Rightarrow> bool journal_result \<Rightarrow> micros \<Rightarrow> retention_sweeper \<Rightarrow> journal_store \<Rightarrow>
    retention_tick journal_result \<times> retention_sweeper \<times> journal_store" where
  "retention_tick_at sha policy checkpoint now w s =
    (if now < sp_next_due w then (Inr (NotDue (sp_next_due w)), w, s)
     else case sweep_expired sha policy checkpoint now (rp_sweep_batch_rows policy) s of
       (Inl e, s') \<Rightarrow> (Inl e, w\<lparr>sp_next_due := sat_add_i64 now (ss_error_backoff (sp_schedule w))\<rparr>, s')
     | (Inr r, s') \<Rightarrow> let due = next_sweep_due (sp_schedule w) now r
         in (Inr (Swept r due), w\<lparr>sp_next_due := due\<rparr>, s'))"

end
