(* ===== verification/Journal_Sweep.thy ===== *)
theory Journal_Sweep
  imports Journal_Retention
begin

text \<open>
  What retention and privacy deletion promise.  Both are described by their effect on the
  delivery rows paired with their journal rows: a phase settles and purges selected pairs,
  or drops them.  From this follow that the store constraints are kept, that a sweep touches
  nothing that is not due, that repeated sweeps run out of work, and that a forgotten source
  passes its own verification.
\<close>

subsection \<open>Paired rows\<close>

lemma settled_iff [simp]: "is_settled st = is_terminal st" "is_unsettled st = (\<not> is_terminal st)"
  by (cases st; simp add: is_settled_def is_unsettled_def)+

lemma joined_zip:
  assumes "store_ok s"
  shows "joined s = zip (st_delivery s) (st_journal s)"
proof -
  have al: "list_all2 belongs_to (st_journal s) (st_delivery s)" and keys: "distinct (map j_idempotency_key (st_journal s))"
    using assms by (auto simp: store_ok_def)
  have "journal_of s (st_delivery s ! i) = st_journal s ! i" if "i < length (st_delivery s)" for i
  proof -
    have "d_idempotency_key (st_delivery s ! i) = j_idempotency_key (st_journal s ! i)"
      using list_all2_nthD2 [OF al that] by (simp add: belongs_to_def)
    moreover have "st_journal s ! i \<in> set (st_journal s)" using that list_all2_lengthD [OF al] by simp
    ultimately show ?thesis
      using find_distinct_key [OF keys] by (simp add: journal_of_def find_journal_key_def)
  qed
  then show ?thesis
    using list_all2_lengthD [OF al] by (auto simp: joined_map [OF assms] intro!: nth_equalityI)
qed

lemma joined_tables:
  assumes "store_ok s"
  shows "map fst (joined s) = st_delivery s" "map snd (joined s) = st_journal s"
  using assms list_all2_lengthD [of belongs_to "st_journal s" "st_delivery s"]
  by (auto simp: joined_zip store_ok_def)

lemma joined_belongs: "store_ok s \<Longrightarrow> (d, j) \<in> set (joined s) \<Longrightarrow> belongs_to j d"
  by (auto simp: joined_zip store_ok_def list_all2_iff in_set_zip)

text \<open>The pairs at the selected rows are rewritten, the others kept.\<close>
definition rewrite_rows :: "delivery_row set \<Rightarrow> (delivery_row \<Rightarrow> delivery_row) \<Rightarrow> (journal_row \<Rightarrow> journal_row) \<Rightarrow>
    (delivery_row \<times> journal_row) list \<Rightarrow> (delivery_row \<times> journal_row) list" where
  "rewrite_rows D f g = map (\<lambda>(d, j). if d \<in> D then (f d, g j) else (d, j))"

lemma set_rewrite_rows:
  "p \<in> set (rewrite_rows D f g ps) \<longleftrightarrow>
    (\<exists>d j. (d, j) \<in> set ps \<and> p = (if d \<in> D then (f d, g j) else (d, j)))"
  unfolding rewrite_rows_def set_map image_iff by force

text \<open>A delivery is settled when it moves, along the state machine, from an unsettled state to
  a terminal one.\<close>
definition settles :: "delivery_row \<Rightarrow> delivery_row \<Rightarrow> bool" where
  "settles d d' \<longleftrightarrow> d' = d \<or> evolves d d' \<and> \<not> is_terminal (d_state d) \<and> is_terminal (d_state d')"

lemma settles_refl [simp]: "settles d d"
  by (simp add: settles_def)

lemma settles_trans: "settles a b \<Longrightarrow> settles b c \<Longrightarrow> settles a c"
  by (auto simp: settles_def)

subsection \<open>Purging\<close>

lemma purge_row_facts [simp]:
  "j_idempotency_key (purge_row now j) = j_idempotency_key j" "j_observation_id (purge_row now j) = j_observation_id j"
  "j_source_index (purge_row now j) = j_source_index j" "j_privacy (purge_row now j) = j_privacy j"
  "j_payload_bytes (purge_row now j) = None" "j_sanitization (purge_row now j) = None"
  "j_content_forgotten_at (purge_row now j) \<noteq> None" "belongs_to (purge_row now j) d = belongs_to j d"
  "content_ok j \<Longrightarrow> content_ok (purge_row now j)" "purge_row t (purge_row now j) = purge_row now j"
  by (auto simp: purge_row_def j_source_index_def j_lane_def j_stream_def j_sequence_def belongs_to_def content_ok_def
      split: option.splits)

lemma store_ok_purge:
  assumes "store_ok s"
  shows "store_ok (s\<lparr>st_journal := update_where P (purge_row now) (st_journal s)\<rparr>)"
proof -
  have "list_all2 belongs_to (update_where P (purge_row now) (st_journal s)) (st_delivery s)"
    using assms by (auto simp: store_ok_def update_where_def list_all2_map1 elim!: list_all2_mono)
  with assms show ?thesis
    by (auto simp: store_ok_def map_update_where intro!: list_all_update_where)
qed

lemma joined_purge:
  assumes "store_ok s"
  shows "joined (s\<lparr>st_journal := update_where P (purge_row now) (st_journal s)\<rparr>) =
    map (\<lambda>(d, j). (d, if P j then purge_row now j else j)) (joined s)"
  using joined_zip [OF assms] joined_zip [OF store_ok_purge [OF assms, of P now]]
  by (simp add: update_where_def zip_map2)

text \<open>The tables that retention leaves alone.\<close>
definition same_progress :: "journal_store \<Rightarrow> journal_store \<Rightarrow> bool" where
  "same_progress s s' \<longleftrightarrow> st_orphans s' = st_orphans s \<and> st_non_message s' = st_non_message s \<and>
    st_cursors s' = st_cursors s \<and> st_target_cursors s' = st_target_cursors s \<and> st_recovery s' = st_recovery s"

lemma same_progress_refl [simp]: "same_progress s s"
  by (simp add: same_progress_def)

lemma same_progress_trans: "same_progress a b \<Longrightarrow> same_progress b c \<Longrightarrow> same_progress a c"
  by (simp add: same_progress_def)

subsection \<open>Settling and purging selected rows\<close>

lemma expire_delivery_pairs:
  assumes ok: "store_ok s" and d: "d \<in> set (st_delivery s)" and unsettled: "\<not> is_terminal (d_state d)"
    and run: "expire_delivery sha (expire_request_of d st out why now) s = Inr (u, s')" and st: "is_terminal st"
  shows "store_ok s'" "same_progress s s'" "st_withheld s' = st_withheld s"
    "\<exists>d'. settles d d' \<and> is_terminal (d_state d') \<and> joined s' = rewrite_rows {d} (\<lambda>_. d') (\<lambda>j. j) (joined s)"
proof -
  let ?q = "expire_request_of d st out why now"
  obtain attempt r where eff: "d_attempt_number d \<le> attempt"
    "s' = s\<lparr>st_receipts := st_receipts s @ [r],
      st_delivery := update_where (\<lambda>x. x = d) (terminalize_row sha ?q attempt) (st_delivery s)\<rparr>"
    using expire_delivery_effect(2) [OF ok d run] by blast
  have "st \<noteq> Leased" using st by auto
  then show ok': "store_ok s'"
    using expire_delivery_step(1) [OF ok d run] by (simp add: delivery_step_def)
  show "same_progress s s'" "st_withheld s' = st_withheld s" by (simp_all add: eff(2) same_progress_def)
  let ?d' = "terminalize_row sha ?q attempt d"
  have "settles d ?d'"
    using eff(1) unsettled st expire_delivery_effect(1) [OF ok d run] by (simp add: settles_def evolves_def)
  moreover have "joined s' = rewrite_rows {d} (\<lambda>_. ?d') (\<lambda>j. j) (joined s)"
    using joined_zip [OF ok] joined_zip [OF ok']
    by (auto simp: eff(2) update_where_def zip_map1 rewrite_rows_def)
  ultimately show "\<exists>d'. settles d d' \<and> is_terminal (d_state d') \<and> joined s' = rewrite_rows {d} (\<lambda>_. d') (\<lambda>j. j) (joined s)"
    using st by (intro exI [of _ ?d']) simp
qed

lemma rewrite_rows_then:
  assumes "d \<notin> set ds" "f d \<notin> set ds"
  shows "rewrite_rows (set ds) f' g (rewrite_rows {d} f g ps) =
    rewrite_rows (set (d # ds)) (\<lambda>x. if x = d then f d else f' x) g ps"
  using assms by (auto simp: rewrite_rows_def)

lemma joined_unique:
  assumes "store_ok s" "(d, j) \<in> set (joined s)" "(d', j') \<in> set (joined s)" "d_idempotency_key d = d_idempotency_key d'"
  shows "d' = d" "j' = j"
  using assms set_joined [OF assms(1)] store_ok_unique_delivery [OF assms(1)] by auto

text \<open>One candidate: its delivery is settled if it is not yet, then its content is purged.\<close>
lemma purge_one_pairs:
  assumes ok: "store_ok s" and d: "d \<in> set (st_delivery s)"
    and run: "(if \<not> is_terminal (d_state d)
        then res_bind (expire_delivery sha (expire_request_of d Expired out why now) s) (\<lambda>(_, s1). Inr (r0, s1))
        else Inr (r, s)) = Inr (r1, s1)"
  defines "s2 \<equiv> purge_content (d_idempotency_key d) now s1"
  shows "store_ok s2" "same_progress s s2" "st_withheld s2 = st_withheld s"
    "\<exists>d'. settles d d' \<and> is_terminal (d_state d') \<and> joined s2 = rewrite_rows {d} (\<lambda>_. d') (purge_row now) (joined s)"
proof -
  have "store_ok s1 \<and> same_progress s s1 \<and> st_withheld s1 = st_withheld s \<and>
      (\<exists>d'. settles d d' \<and> is_terminal (d_state d') \<and> joined s1 = rewrite_rows {d} (\<lambda>_. d') (\<lambda>j. j) (joined s))"
  proof (cases "is_terminal (d_state d)")
    case True
    then have "joined s1 = rewrite_rows {d} (\<lambda>_. d) (\<lambda>j. j) (joined s)" "s1 = s"
      using run by (auto simp: rewrite_rows_def intro!: map_idI [symmetric])
    with True ok show ?thesis by (metis same_progress_refl settles_refl)
  next
    case False
    then obtain u where "expire_delivery sha (expire_request_of d Expired out why now) s = Inr (u, s1)"
      using run by (auto simp: res_bind_Inr_iff)
    from expire_delivery_pairs [OF ok d False this] show ?thesis by simp
  qed
  then obtain d' where s1: "store_ok s1" "same_progress s s1" "st_withheld s1 = st_withheld s" "settles d d'"
    "is_terminal (d_state d')" "joined s1 = rewrite_rows {d} (\<lambda>_. d') (\<lambda>j. j) (joined s)" by blast
  show "store_ok s2" unfolding s2_def purge_content_def by (rule store_ok_purge [OF s1(1)])
  show "same_progress s s2" "st_withheld s2 = st_withheld s"
    using s1(2,3) by (simp_all add: s2_def purge_content_def same_progress_def)
  have key: "j_idempotency_key j = d_idempotency_key d \<longleftrightarrow> x = d" if "(x, j) \<in> set (joined s)" for x j
    using that joined_belongs [OF ok that] set_joined [OF ok] store_ok_unique_delivery [OF ok _ d, of x]
    by (auto simp: belongs_to_def)
  have "joined s2 = rewrite_rows {d} (\<lambda>_. d') (purge_row now) (joined s)"
    unfolding s2_def purge_content_def joined_purge [OF s1(1)] s1(6)
    using key by (auto simp: rewrite_rows_def)
  with s1(4,5) show "\<exists>d'. settles d d' \<and> is_terminal (d_state d') \<and>
      joined s2 = rewrite_rows {d} (\<lambda>_. d') (purge_row now) (joined s)" by blast
qed

lemma rewrite_row_delivery:
  assumes "store_ok s" "store_ok s'" "joined s' = rewrite_rows {d} (\<lambda>_. d') g (joined s)" "d \<in> set (st_delivery s)"
    "same_identity d d'"
  shows "set (st_delivery s) - {d} \<subseteq> set (st_delivery s')" "d' \<notin> set (st_delivery s) - {d}"
proof -
  show "set (st_delivery s) - {d} \<subseteq> set (st_delivery s')"
  proof
    fix x assume x: "x \<in> set (st_delivery s) - {d}"
    then have "(x, journal_of s x) \<in> set (joined s)" using set_joined [OF assms(1)] by simp
    with x have "(x, journal_of s x) \<in> set (joined s')" by (auto simp: assms(3) set_rewrite_rows)
    then show "x \<in> set (st_delivery s')" using set_joined [OF assms(2)] by simp
  qed
  show "d' \<notin> set (st_delivery s) - {d}"
    using store_ok_unique_delivery [OF assms(1) _ assms(4), of d'] assms(5) by (auto simp: same_identity_def)
qed

lemma settles_identity: "settles d d' \<Longrightarrow> same_identity d d'"
  by (auto simp: settles_def evolves_def same_identity_def)

lemma purge_each_pairs:
  assumes "store_ok s" "distinct ds" "set ds \<subseteq> set (st_delivery s)" "purge_each sha now ds r s = Inr (r', s')"
  shows "store_ok s' \<and> same_progress s s' \<and> st_withheld s' = st_withheld s \<and>
    (\<exists>f. (\<forall>d\<in>set ds. settles d (f d) \<and> is_terminal (d_state (f d))) \<and>
      joined s' = rewrite_rows (set ds) f (purge_row now) (joined s))"
  using assms
proof (induction ds arbitrary: s r)
  case Nil
  then show ?case by (auto simp: rewrite_rows_def intro!: map_idI [symmetric])
next
  case (Cons d ds)
  obtain r1 s1 where run: "(if \<not> is_terminal (d_state d)
        then res_bind (expire_delivery sha (expire_request_of d Expired DeadlineExceeded ''retention_expiry'' now) s)
          (\<lambda>(_, s1). Inr (r\<lparr>sw_deliveries_expired := sat_add_u32 (sw_deliveries_expired r) 1\<rparr>, s1))
        else Inr (r, s)) = Inr (r1, s1)"
    "purge_each sha now ds (r1\<lparr>sw_payloads_purged := sat_add_u32 (sw_payloads_purged r1) 1\<rparr>)
      (purge_content (d_idempotency_key d) now s1) = Inr (r', s')"
    using Cons.prems(4) by (auto simp: res_bind_Inr_iff simp del: One_nat_def)
  have d: "d \<in> set (st_delivery s)" using Cons.prems(3) by simp
  define s2 where "s2 = purge_content (d_idempotency_key d) now s1"
  note one = purge_one_pairs [OF Cons.prems(1) d run(1), folded s2_def]
  obtain d' where d': "settles d d'" "is_terminal (d_state d')"
    "joined s2 = rewrite_rows {d} (\<lambda>_. d') (purge_row now) (joined s)" using one(4) by blast
  note rest = rewrite_row_delivery [OF Cons.prems(1) one(1) d'(3) d settles_identity [OF d'(1)]]
  have sub: "set ds \<subseteq> set (st_delivery s2)" "d' \<notin> set ds" using rest Cons.prems(2,3) by auto
  obtain f where f: "store_ok s'" "same_progress s2 s'" "st_withheld s' = st_withheld s2"
    "\<forall>x\<in>set ds. settles x (f x) \<and> is_terminal (d_state (f x))"
    "joined s' = rewrite_rows (set ds) f (purge_row now) (joined s2)"
    using Cons.IH [OF one(1) _ sub(1) run(2) [folded s2_def]] Cons.prems(2) by auto
  have "joined s' = rewrite_rows (set (d # ds)) (\<lambda>x. if x = d then d' else f x) (purge_row now) (joined s)"
    using Cons.prems(2) sub(2) unfolding f(5) d'(3) by (intro rewrite_rows_then) auto
  moreover have "\<forall>x\<in>set (d # ds). settles x (if x = d then d' else f x) \<and>
      is_terminal (d_state (if x = d then d' else f x))"
    using d'(1,2) f(4) by auto
  ultimately show ?case
    using f(1,3) one(3) same_progress_trans [OF one(2) f(2)]
    by (intro conjI exI [of _ "\<lambda>x. if x = d then d' else f x"]) simp_all
qed

lemma terminalize_each_pairs:
  assumes "store_ok s" "distinct ds" "set ds \<subseteq> {d \<in> set (st_delivery s). \<not> is_terminal (d_state d)}" "is_terminal st"
    "terminalize_each sha st out why now ds s = Inr (n, s')"
  shows "store_ok s' \<and> same_progress s s' \<and> st_withheld s' = st_withheld s \<and>
    (\<exists>f. (\<forall>d\<in>set ds. settles d (f d) \<and> is_terminal (d_state (f d))) \<and>
      joined s' = rewrite_rows (set ds) f (\<lambda>j. j) (joined s))"
  using assms
proof (induction ds arbitrary: s n)
  case Nil
  then show ?case by (auto simp: rewrite_rows_def intro!: map_idI [symmetric])
next
  case (Cons d ds)
  obtain u s1 m where run: "expire_delivery sha (expire_request_of d st out why now) s = Inr (u, s1)"
    "terminalize_each sha st out why now ds s1 = Inr (m, s')"
    using Cons.prems(5) by (auto simp: res_bind_Inr_iff)
  have d: "d \<in> set (st_delivery s)" "\<not> is_terminal (d_state d)" using Cons.prems(3) by auto
  note one = expire_delivery_pairs [OF Cons.prems(1) d run(1) Cons.prems(4)]
  obtain d' where d': "settles d d'" "is_terminal (d_state d')"
    "joined s1 = rewrite_rows {d} (\<lambda>_. d') (\<lambda>j. j) (joined s)" using one(4) by blast
  note rest = rewrite_row_delivery [OF Cons.prems(1) one(1) d'(3) d(1) settles_identity [OF d'(1)]]
  have sub: "set ds \<subseteq> {d \<in> set (st_delivery s1). \<not> is_terminal (d_state d)}" "d' \<notin> set ds"
    using rest Cons.prems(2,3) by auto
  have "distinct ds" using Cons.prems(2) by simp
  from Cons.IH [OF one(1) this sub(1) Cons.prems(4) run(2)] obtain f where
    f: "store_ok s'" "same_progress s1 s'" "st_withheld s' = st_withheld s1"
    "\<forall>x\<in>set ds. settles x (f x) \<and> is_terminal (d_state (f x))" "joined s' = rewrite_rows (set ds) f (\<lambda>j. j) (joined s1)"
    by blast
  have "joined s' = rewrite_rows (set (d # ds)) (\<lambda>x. if x = d then d' else f x) (\<lambda>j. j) (joined s)"
    using Cons.prems(2) sub(2) unfolding f(5) d'(3) by (intro rewrite_rows_then) auto
  moreover have "\<forall>x\<in>set (d # ds). settles x (if x = d then d' else f x) \<and>
      is_terminal (d_state (if x = d then d' else f x))"
    using d'(1,2) f(4) by auto
  ultimately show ?case
    using f(1,3) one(3) same_progress_trans [OF one(2) f(2)]
    by (intro conjI exI [of _ "\<lambda>x. if x = d then d' else f x"]) simp_all
qed

subsection \<open>Deleting rows\<close>

lemma list_all2_filter_key:
  assumes "list_all2 belongs_to js ds"
  shows "list_all2 belongs_to (filter (\<lambda>j. j_idempotency_key j \<noteq> k) js) (filter (\<lambda>d. d_idempotency_key d \<noteq> k) ds)"
    "zip (filter (\<lambda>d. d_idempotency_key d \<noteq> k) ds) (filter (\<lambda>j. j_idempotency_key j \<noteq> k) js) =
      filter (\<lambda>(d, j). j_idempotency_key j \<noteq> k) (zip ds js)"
  using assms by (induction rule: list_all2_induct) (auto simp: belongs_to_def)

lemma distinct_map_filter [intro]: "distinct (map k xs) \<Longrightarrow> distinct (map k (filter P xs))"
  by (induction xs) auto

lemma delete_journal_row_pairs:
  assumes "store_ok s"
  shows "store_ok (delete_journal_row key obs s)"
    "joined (delete_journal_row key obs s) = filter (\<lambda>(d, j). j_idempotency_key j \<noteq> key) (joined s)"
proof -
  note al = list_all2_filter_key [of "st_journal s" "st_delivery s" key]
  show ok: "store_ok (delete_journal_row key obs s)"
    using assms al(1) by (auto simp: store_ok_def delete_journal_row_def list_all_iff)
  show "joined (delete_journal_row key obs s) = filter (\<lambda>(d, j). j_idempotency_key j \<noteq> key) (joined s)"
    using assms al(2) unfolding joined_zip [OF ok] joined_zip [OF assms]
    by (simp add: delete_journal_row_def store_ok_def)
qed

lemma delete_each_pairs:
  assumes "store_ok s" "delete_each sel r s = Inr (r', s')"
  shows "store_ok s' \<and> same_progress s s' \<and> st_withheld s' = st_withheld s \<and>
    joined s' = filter (\<lambda>(d, j). j_idempotency_key j \<notin> fst ` set sel) (joined s)"
  using assms
proof (induction sel arbitrary: s r)
  case (Cons p sel)
  obtain key obs where p: "p = (key, obs)" by (cases p)
  note one = delete_journal_row_pairs [OF Cons.prems(1), of key obs]
  obtain r1 where "delete_each sel r1 (delete_journal_row key obs s) = Inr (r', s')"
    using Cons.prems(2) by (auto simp: p res_bind_Inr_iff)
  from Cons.IH [OF one(1) this] show ?case
    unfolding one(2) by (auto simp: p delete_journal_row_def same_progress_def intro!: filter_cong)
qed (auto simp: filter_id_conv)

subsection \<open>The phases of a sweep\<close>

lemma selected_rows:
  assumes "store_ok s"
  shows "distinct (map fst (select_limit P key n (joined s)))"
    "set (map fst (select_limit P key n (joined s))) \<subseteq> set (st_delivery s)"
    "d \<in> set (map fst (select_limit P key n (joined s))) \<Longrightarrow> P (d, journal_of s d)"
proof -
  show "distinct (map fst (select_limit P key n (joined s)))" by (rule distinct_map_fst_joined [OF assms])
  have row: "d \<in> set (st_delivery s) \<and> P (d, journal_of s d)"
    if d: "d \<in> set (map fst (select_limit P key n (joined s)))" for d
  proof -
    from d obtain x where x: "x \<in> set (select_limit P key n (joined s))" "d = fst x" unfolding set_map by (rule imageE)
    have "x = (d, journal_of s d)" using select_joined_mem(2) [OF assms x(1)] x(2) by (cases x) simp
    with select_joined_mem(1,3) [OF assms x(1)] show ?thesis by simp
  qed
  then show "set (map fst (select_limit P key n (joined s))) \<subseteq> set (st_delivery s)" by blast
  show "d \<in> set (map fst (select_limit P key n (joined s))) \<Longrightarrow> P (d, journal_of s d)" using row by blast
qed

lemma sort_key_empty: "sort_key key xs = [] \<longleftrightarrow> xs = []"
  by (metis length_0_conv length_sort)

lemma select_limit_empty: "0 < n \<Longrightarrow> select_limit P key n rows = [] \<longleftrightarrow> (\<forall>r\<in>set rows. \<not> P r)"
  by (simp add: select_limit_def sort_key_empty filter_empty_conv)

lemma sweep_batch_pos: "0 < sweep_batch policy budget"
  by (simp add: sweep_batch_def)

lemma sweep_phases:
  assumes ok: "store_ok s" and run: "sweep_in_transaction sha policy now budget s = Inr (r, s')"
  defines "batch \<equiv> sweep_batch policy budget" and "cutoff \<equiv> deletable_cutoff policy now"
  obtains r1 s1 n s2 r2 s3 f g where
    "purge_each sha now (sweep_candidates policy now batch s) default_sweep_receipt s = Inr (r1, s1)"
    "terminalize_each sha Forgotten observation_outcome.Cancelled ''content_forgotten'' now
      (stranded_deliveries batch s1) s1 = Inr (n, s2)"
    "delete_each (deletable_rows cutoff batch s2) (r1\<lparr>sw_deliveries_forgotten := n\<rparr>) s2 = Inr (r2, s3)"
    "store_ok s1" "store_ok s2" "store_ok s3"
    "\<forall>d\<in>set (sweep_candidates policy now batch s). settles d (f d) \<and> is_terminal (d_state (f d))"
    "joined s1 = rewrite_rows (set (sweep_candidates policy now batch s)) f (purge_row now) (joined s)"
    "\<forall>d\<in>set (stranded_deliveries batch s1). settles d (g d) \<and> is_terminal (d_state (g d))"
    "joined s2 = rewrite_rows (set (stranded_deliveries batch s1)) g (\<lambda>j. j) (joined s1)"
    "joined s3 = filter (\<lambda>(d, j). j_idempotency_key j \<notin> fst ` set (deletable_rows cutoff batch s2)) (joined s2)"
    "st_withheld s3 = st_withheld s" "same_progress s s3" "s' = snd (delete_aged_withheld cutoff batch s3)"
    "r = r2\<lparr>sw_withheld_rows_deleted := fst (delete_aged_withheld cutoff batch s3),
       sw_remaining_candidates := remaining_candidates policy now cutoff s'\<rparr>"
proof -
  obtain r1 s1 n s2 r2 s3 where ph:
    "purge_each sha now (sweep_candidates policy now batch s) default_sweep_receipt s = Inr (r1, s1)"
    "terminalize_deliveries sha (stranded_deliveries batch s1) Forgotten observation_outcome.Cancelled
      ''content_forgotten'' now s1 = Inr (n, s2)"
    "delete_each (deletable_rows cutoff batch s2) (r1\<lparr>sw_deliveries_forgotten := n\<rparr>) s2 = Inr (r2, s3)"
    "s' = snd (delete_aged_withheld cutoff batch s3)"
    "r = r2\<lparr>sw_withheld_rows_deleted := fst (delete_aged_withheld cutoff batch s3),
       sw_remaining_candidates := remaining_candidates policy now cutoff s'\<rparr>"
    using run unfolding sweep_in_transaction_def batch_def cutoff_def
    by (auto simp: res_bind_Inr_iff Let_def split_beta read_u32_def split: if_splits)
  have settle: "terminalize_each sha Forgotten observation_outcome.Cancelled ''content_forgotten'' now
      (stranded_deliveries batch s1) s1 = Inr (n, s2)"
    using ph(2) by (auto simp: terminalize_deliveries_def res_bind_Inr_iff)
  have p1: "store_ok s1 \<and> same_progress s s1 \<and> st_withheld s1 = st_withheld s \<and>
      (\<exists>f. (\<forall>d\<in>set (sweep_candidates policy now batch s). settles d (f d) \<and> is_terminal (d_state (f d))) \<and>
      joined s1 = rewrite_rows (set (sweep_candidates policy now batch s)) f (purge_row now) (joined s))"
    unfolding sweep_candidates_def
    by (rule purge_each_pairs [OF ok selected_rows(1,2) [OF ok] ph(1) [unfolded sweep_candidates_def]])
  then obtain f where ok1: "store_ok s1" and p1: "same_progress s s1" "st_withheld s1 = st_withheld s"
    "\<forall>d\<in>set (sweep_candidates policy now batch s). settles d (f d) \<and> is_terminal (d_state (f d))"
    "joined s1 = rewrite_rows (set (sweep_candidates policy now batch s)) f (purge_row now) (joined s)" by blast
  have "set (stranded_deliveries batch s1) \<subseteq> {d \<in> set (st_delivery s1). \<not> is_terminal (d_state d)}"
  proof
    fix d assume "d \<in> set (stranded_deliveries batch s1)"
    then show "d \<in> {d \<in> set (st_delivery s1). \<not> is_terminal (d_state d)}"
      using selected_rows(3) [OF ok1, of d stranded admission_order batch]
        selected_rows(2) [OF ok1, of stranded admission_order batch]
      unfolding stranded_deliveries_def by (simp only: stranded_def) auto
  qed
  moreover have "distinct (stranded_deliveries batch s1)"
    unfolding stranded_deliveries_def by (rule selected_rows(1) [OF ok1])
  ultimately obtain g where p2: "store_ok s2" "same_progress s1 s2" "st_withheld s2 = st_withheld s1"
    "\<forall>d\<in>set (stranded_deliveries batch s1). settles d (g d) \<and> is_terminal (d_state (g d))"
    "joined s2 = rewrite_rows (set (stranded_deliveries batch s1)) g (\<lambda>j. j) (joined s1)"
    using terminalize_each_pairs [OF ok1 _ _ _ settle] by auto
  note p3 = delete_each_pairs [OF p2(1) ph(3)]
  have "same_progress s s3" using same_progress_trans p1(1) p2(2) p3 by blast
  moreover have "st_withheld s3 = st_withheld s" using p3 p2(3) p1(2) by simp
  ultimately show thesis
    using p3 by (intro that [OF ph(1) settle ph(3) ok1 p2(1) _ p1(3,4) p2(4,5) _ _ _ ph(4,5)]) simp_all
qed

subsection \<open>Sweeps run out of work\<close>

text \<open>Purging may leave a row to be deleted later, so content and stranded deliveries weigh two.\<close>
definition sweep_weight :: "retention_policy \<Rightarrow> micros \<Rightarrow> delivery_row \<times> journal_row \<Rightarrow> nat" where
  "sweep_weight policy now p = (if purgeable policy now (snd p) then 2 else 0) + (if stranded p then 2 else 0) +
    (if deletable (deletable_cutoff policy now) p then 1 else 0)"

definition sweep_work :: "retention_policy \<Rightarrow> micros \<Rightarrow> journal_store \<Rightarrow> nat" where
  "sweep_work policy now s = sum_list (map (sweep_weight policy now) (joined s)) +
    count_where (\<lambda>w. w_withheld_at w \<le> deletable_cutoff policy now) (st_withheld s)"

lemma rewrite_rows_weight:
  fixes w :: "delivery_row \<times> journal_row \<Rightarrow> nat"
  assumes "\<And>d j. (d, j) \<in> set ps \<Longrightarrow> d \<in> D \<Longrightarrow> w (f d, g j) < w (d, j)"
  shows "sum_list (map w (rewrite_rows D f g ps)) + card (D \<inter> fst ` set ps) \<le> sum_list (map w ps)"
  using assms
proof (induction ps)
  case (Cons p ps)
  obtain d j where p: "p = (d, j)" by (cases p)
  have ih: "sum_list (map w (rewrite_rows D f g ps)) + card (D \<inter> fst ` set ps) \<le> sum_list (map w ps)"
    using Cons.IH Cons.prems by simp
  show ?case
  proof (cases "d \<in> D")
    case True
    have "card (D \<inter> insert d (fst ` set ps)) \<le> Suc (card (D \<inter> fst ` set ps))"
      using True card_insert_le_m1 by (simp add: card_insert_if)
    moreover have "w (f d, g j) < w (d, j)" using Cons.prems True p by simp
    ultimately show ?thesis using ih True by (simp add: p rewrite_rows_def)
  qed (use ih in \<open>simp add: p rewrite_rows_def\<close>)
qed (simp add: rewrite_rows_def)

lemma filter_weight:
  fixes w :: "'a \<Rightarrow> nat"
  assumes "\<And>p. p \<in> set ps \<Longrightarrow> \<not> Q p \<Longrightarrow> 0 < w p"
  shows "sum_list (map w (filter Q ps)) + count_where (\<lambda>p. \<not> Q p) ps \<le> sum_list (map w ps)"
  using assms
proof (induction ps)
  case (Cons p ps)
  then have "sum_list (map w (filter Q ps)) + count_where (\<lambda>p. \<not> Q p) ps \<le> sum_list (map w ps)" by simp
  moreover have "\<not> Q p \<Longrightarrow> 0 < w p" using Cons.prems by simp
  ultimately show ?case by (cases "Q p") (auto simp: count_where_def)
qed (simp add: count_where_def)

lemma joined_withheld [simp]: "joined (s\<lparr>st_withheld := ws\<rparr>) = joined s"
  by (simp add: joined_def find_journal_key_def)

lemma aged_withheld_count:
  assumes "0 < batch"
  shows "count_where (\<lambda>w. w_withheld_at w \<le> cutoff) (st_withheld (snd (delete_aged_withheld cutoff batch s))) \<le>
      count_where (\<lambda>w. w_withheld_at w \<le> cutoff) (st_withheld s)"
    "0 < count_where (\<lambda>w. w_withheld_at w \<le> cutoff) (st_withheld s) \<Longrightarrow>
      0 < fst (delete_aged_withheld cutoff batch s) \<and>
      count_where (\<lambda>w. w_withheld_at w \<le> cutoff) (st_withheld (snd (delete_aged_withheld cutoff batch s))) <
      count_where (\<lambda>w. w_withheld_at w \<le> cutoff) (st_withheld s)"
proof -
  let ?aged = "\<lambda>w. w_withheld_at w \<le> cutoff"
  let ?hit = "\<lambda>w. withheld_key w \<in> set (map withheld_key (aged_withheld cutoff batch (st_withheld s)))"
  have new: "filter ?aged (st_withheld (snd (delete_aged_withheld cutoff batch s))) =
      filter (\<lambda>w. \<not> ?hit w) (filter ?aged (st_withheld s))"
    by (simp add: delete_aged_withheld_def Let_def conj_commute)
  then show "count_where ?aged (st_withheld (snd (delete_aged_withheld cutoff batch s))) \<le>
      count_where ?aged (st_withheld s)"
    by (simp only: count_where_def length_filter_le)
  assume "0 < count_where ?aged (st_withheld s)"
  then have "aged_withheld cutoff batch (st_withheld s) \<noteq> []"
    using assms by (auto simp: aged_withheld_def select_limit_empty count_where_pos)
  then obtain x where "x \<in> set (aged_withheld cutoff batch (st_withheld s))" by (meson list.set_sel(1))
  moreover from this have "x \<in> set (st_withheld s)" "?aged x"
    unfolding aged_withheld_def using select_limit_mem by fast+
  ultimately have "x \<in> set (filter ?aged (st_withheld s))" "?hit x" "x \<in> set (st_withheld s)" by auto
  then show "0 < fst (delete_aged_withheld cutoff batch s) \<and>
      count_where ?aged (st_withheld (snd (delete_aged_withheld cutoff batch s))) < count_where ?aged (st_withheld s)"
    unfolding count_where_def new
    using length_filter_less [of x "filter ?aged (st_withheld s)" "\<lambda>w. \<not> ?hit w"]
    by (auto simp: delete_aged_withheld_def Let_def count_where_pos)
qed

lemma sat_add_u32_pos [simp]: "0 < sat_add_u32 a b \<longleftrightarrow> 0 < a \<or> 0 < b"
  by (auto simp: sat_add_u32_def u32_max_def)

lemma purge_each_count:
  "purge_each sha now ds r s = Inr (r', s') \<Longrightarrow> 0 < sw_payloads_purged r \<or> ds \<noteq> [] \<Longrightarrow> 0 < sw_payloads_purged r'"
proof (induction ds arbitrary: r s)
  case (Cons d ds)
  then obtain r1 s1 where "purge_each sha now ds (r1\<lparr>sw_payloads_purged := sat_add_u32 (sw_payloads_purged r1) 1\<rparr>)
      (purge_content (d_idempotency_key d) now s1) = Inr (r', s')"
    by (auto simp: res_bind_Inr_iff simp del: One_nat_def)
  from Cons.IH [OF this] show ?case by simp
qed simp

lemma terminalize_each_count: "terminalize_each sha st out why now ds s = Inr (n, s') \<Longrightarrow> ds \<noteq> [] \<Longrightarrow> 0 < n"
  by (cases ds) (auto simp: res_bind_Inr_iff simp del: One_nat_def)

lemma delete_each_counts:
  assumes "delete_each sel r s = Inr (r', s')"
  shows "sw_payloads_purged r' = sw_payloads_purged r" "sw_deliveries_forgotten r' = sw_deliveries_forgotten r"
    "0 < sw_journal_rows_deleted r \<Longrightarrow> 0 < sw_journal_rows_deleted r'"
  using assms by (induction sel r s rule: delete_each.induct) (auto simp: res_bind_Inr_iff)

lemma delete_each_progress:
  assumes "delete_each sel r s = Inr (r', s')" "sel \<noteq> []" "fst ` set sel \<subseteq> j_idempotency_key ` set (st_journal s)"
  shows "0 < sw_journal_rows_deleted r'"
proof -
  obtain key obs rest where sel: "sel = (key, obs) # rest" using assms(2) by (cases sel) auto
  then obtain j where "j \<in> set (st_journal s)" "j_idempotency_key j = key" using assms(3) by auto
  then have "0 < count_where (\<lambda>j. j_idempotency_key j = key) (st_journal s)" by (auto simp: count_where_pos)
  then obtain r1 s1 where "delete_each rest r1 s1 = Inr (r', s')" "0 < sw_journal_rows_deleted r1"
    using assms(1) by (auto simp: sel res_bind_Inr_iff read_u32_def split: if_splits)
  then show ?thesis using delete_each_counts(3) by blast
qed

lemma joined_fst: "store_ok s \<Longrightarrow> fst ` set (joined s) = set (st_delivery s)"
  using joined_tables(1) [of s] by (metis set_map)

lemma selected_weight:
  assumes ok: "store_ok s" and C: "C = map fst (select_limit P key n (joined s))"
    and less: "\<And>d. P (d, journal_of s d) \<Longrightarrow> d \<in> set C \<Longrightarrow>
      sweep_weight policy now (f d, g (journal_of s d)) < sweep_weight policy now (d, journal_of s d)"
  shows "sum_list (map (sweep_weight policy now) (rewrite_rows (set C) f g (joined s))) + length C \<le>
    sum_list (map (sweep_weight policy now) (joined s))"
proof -
  have "sweep_weight policy now (f d, g j) < sweep_weight policy now (d, j)"
    if "(d, j) \<in> set (joined s)" "d \<in> set C" for d j
  proof -
    have j: "j = journal_of s d" using that(1) set_joined [OF ok] by simp
    show ?thesis unfolding j by (rule less [OF selected_rows(3) [OF ok that(2) [unfolded C]] that(2)])
  qed
  from rewrite_rows_weight [of "joined s" "set C" "sweep_weight policy now" f g, OF this]
  have le: "sum_list (map (sweep_weight policy now) (rewrite_rows (set C) f g (joined s))) +
      card (set C \<inter> fst ` set (joined s)) \<le> sum_list (map (sweep_weight policy now) (joined s))" .
  have "set C \<inter> fst ` set (joined s) = set C"
    unfolding joined_fst [OF ok] C using selected_rows(2) [OF ok, of P key n] by (rule Int_absorb2)
  moreover have "card (set C) = length C"
    unfolding C by (rule distinct_card [OF selected_rows(1) [OF ok]])
  ultimately show ?thesis using le by simp
qed

lemma purged_weight: "is_terminal (d_state d) \<Longrightarrow> sweep_weight policy now (d, purge_row now j) \<le> 1"
  by (simp add: sweep_weight_def purgeable_def stranded_def)

lemma settled_weight:
  "is_terminal (d_state d) \<Longrightarrow> j_payload_bytes j = None \<Longrightarrow> sweep_weight policy now (d, j) \<le> 1"
  by (simp add: sweep_weight_def purgeable_def stranded_def)

lemma deletable_row_keys: "fst ` set (deletable_rows cutoff n s) =
    (\<lambda>x. j_idempotency_key (snd x)) ` set (select_limit (deletable cutoff) forgotten_order n (joined s))"
  by (simp add: deletable_rows_def image_image split_beta)

lemma deletable_rows_mem:
  assumes "store_ok s" "(d, j) \<in> set (joined s)" "j_idempotency_key j \<in> fst ` set (deletable_rows cutoff n s)"
  shows "deletable cutoff (d, j)"
proof -
  obtain x where x: "x \<in> set (select_limit (deletable cutoff) forgotten_order n (joined s))"
    "j_idempotency_key j = j_idempotency_key (snd x)"
    using assms(3) unfolding deletable_row_keys by (rule imageE)
  have "x = (fst x, journal_of s (fst x))" using select_joined_mem(2) [OF assms(1) x(1)] by (cases x) simp
  moreover have "x \<in> set (joined s)" using select_limit_mem [OF x(1)] by blast
  ultimately have "fst x = d"
    using joined_unique(1) [OF assms(1,2), of "fst x" "snd x"] x(2) joined_belongs [OF assms(1,2)]
      joined_belongs [OF assms(1), of "fst x" "snd x"] by (simp add: belongs_to_def)
  then have "x = (d, j)" using select_joined_mem(2) [OF assms(1) x(1)] set_joined [OF assms(1)] assms(2) by (cases x) simp
  then show ?thesis using select_limit_mem [OF x(1)] by blast
qed

lemma deletable_rows_keys:
  assumes "store_ok s"
  shows "fst ` set (deletable_rows cutoff n s) \<subseteq> j_idempotency_key ` set (st_journal s)"
proof
  fix k assume "k \<in> fst ` set (deletable_rows cutoff n s)"
  then obtain x where x: "x \<in> set (select_limit (deletable cutoff) forgotten_order n (joined s))"
    "k = j_idempotency_key (snd x)"
    unfolding deletable_row_keys by (rule imageE)
  then have "snd x \<in> set (st_journal s)"
    using select_limit_mem [OF x(1)] joined_tables(2) [OF assms] by (metis image_eqI list.set_map)
  with x(2) show "k \<in> j_idempotency_key ` set (st_journal s)" by simp
qed

lemma deleted_weight:
  assumes ok: "store_ok s" and rows: "deletable_rows (deletable_cutoff policy now) n s = sel"
  shows "sum_list (map (sweep_weight policy now) (filter (\<lambda>(d, j). j_idempotency_key j \<notin> fst ` set sel) (joined s))) +
    (if sel = [] then 0 else 1) \<le> sum_list (map (sweep_weight policy now) (joined s))"
proof -
  let ?Q = "\<lambda>(d, j). j_idempotency_key j \<notin> fst ` set sel"
  have pos: "0 < sweep_weight policy now (d, j)" if "(d, j) \<in> set (joined s)" "j_idempotency_key j \<in> fst ` set sel" for d j
    using deletable_rows_mem [OF ok that(1), of "deletable_cutoff policy now" n] that(2) unfolding rows
    by (simp add: sweep_weight_def)
  have le: "sum_list (map (sweep_weight policy now) (filter ?Q (joined s))) + count_where (\<lambda>p. \<not> ?Q p) (joined s) \<le>
      sum_list (map (sweep_weight policy now) (joined s))"
  proof (rule filter_weight)
    fix p assume "p \<in> set (joined s)" "\<not> ?Q p"
    then have "(fst p, snd p) \<in> set (joined s)" "j_idempotency_key (snd p) \<in> fst ` set sel"
      by (simp_all add: split_beta)
    from pos [OF this] show "0 < sweep_weight policy now p" by simp
  qed
  have "0 < count_where (\<lambda>p. \<not> ?Q p) (joined s)" if "sel \<noteq> []"
  proof -
    let ?sel = "select_limit (deletable (deletable_cutoff policy now)) forgotten_order n (joined s)"
    have "?sel \<noteq> []" using that rows by (auto simp: deletable_rows_def)
    then have x: "hd ?sel \<in> set ?sel" by (rule list.set_sel(1))
    have "hd ?sel \<in> set (joined s)" by (rule conjunct1 [OF select_limit_mem [OF x]])
    moreover have "j_idempotency_key (snd (hd ?sel)) \<in> fst ` set sel"
      unfolding rows [symmetric] deletable_row_keys using x by (rule imageI)
    ultimately have "\<exists>p\<in>set (joined s). \<not> ?Q p" by (intro bexI [of _ "hd ?sel"]) (simp_all add: split_beta)
    then show ?thesis by (simp only: count_where_pos)
  qed
  with le show ?thesis by (cases "sel = []") simp_all
qed

lemma no_candidates:
  assumes "sweep_candidates policy now n s = []" "stranded_deliveries n s = []"
    "deletable_rows (deletable_cutoff policy now) n s = []" "0 < n"
  shows "sum_list (map (sweep_weight policy now) (joined s)) = 0"
proof -
  have "sweep_weight policy now p = 0" if "p \<in> set (joined s)" for p
    using assms that
    by (auto simp: sweep_candidates_def stranded_deliveries_def deletable_rows_def select_limit_empty sweep_weight_def
        split_beta)
  then show ?thesis by simp
qed

text \<open>What is left to do after each phase, and what the receipt counts.\<close>
lemma sweep_weights:
  assumes ok: "store_ok s" and run: "sweep_in_transaction sha policy now budget s = Inr (r, s')"
  shows "store_ok s'"
    "sum_list (map (sweep_weight policy now) (joined s')) \<le> sum_list (map (sweep_weight policy now) (joined s))"
    "0 < sum_list (map (sweep_weight policy now) (joined s)) \<Longrightarrow> made_progress r \<and>
      sum_list (map (sweep_weight policy now) (joined s')) < sum_list (map (sweep_weight policy now) (joined s))"
proof -
  let ?w = "sweep_weight policy now" and ?b = "sweep_batch policy budget" and ?c = "deletable_cutoff policy now"
  obtain r1 s1 n s2 r2 s3 f g where ph:
    "purge_each sha now (sweep_candidates policy now ?b s) default_sweep_receipt s = Inr (r1, s1)"
    "terminalize_each sha Forgotten observation_outcome.Cancelled ''content_forgotten'' now
      (stranded_deliveries ?b s1) s1 = Inr (n, s2)"
    "delete_each (deletable_rows ?c ?b s2) (r1\<lparr>sw_deliveries_forgotten := n\<rparr>) s2 = Inr (r2, s3)"
    "store_ok s1" "store_ok s2" "store_ok s3"
    "\<forall>d\<in>set (sweep_candidates policy now ?b s). settles d (f d) \<and> is_terminal (d_state (f d))"
    "joined s1 = rewrite_rows (set (sweep_candidates policy now ?b s)) f (purge_row now) (joined s)"
    "\<forall>d\<in>set (stranded_deliveries ?b s1). settles d (g d) \<and> is_terminal (d_state (g d))"
    "joined s2 = rewrite_rows (set (stranded_deliveries ?b s1)) g (\<lambda>j. j) (joined s1)"
    "joined s3 = filter (\<lambda>(d, j). j_idempotency_key j \<notin> fst ` set (deletable_rows ?c ?b s2)) (joined s2)"
    "st_withheld s3 = st_withheld s" "same_progress s s3" "s' = snd (delete_aged_withheld ?c ?b s3)"
    "r = r2\<lparr>sw_withheld_rows_deleted := fst (delete_aged_withheld ?c ?b s3),
       sw_remaining_candidates := remaining_candidates policy now ?c s'\<rparr>"
    by (rule sweep_phases [OF ok run])
  show "store_ok s'" using ph(6) by (simp add: ph(14) delete_aged_withheld_def Let_def store_ok_def)
  have joined': "joined s' = joined s3" by (simp add: ph(14) delete_aged_withheld_def Let_def)
  have "sweep_weight policy now (f d, purge_row now (journal_of s d)) < sweep_weight policy now (d, journal_of s d)"
    if "(case (d, journal_of s d) of (d, j) \<Rightarrow> purgeable policy now j)" "d \<in> set (sweep_candidates policy now ?b s)" for d
    using that purged_weight [of "f d" policy now "journal_of s d"] bspec [OF ph(7) that(2)] by (simp add: sweep_weight_def [of _ _ "(d, journal_of s d)"])
  then have w1: "sum_list (map ?w (joined s1)) + length (sweep_candidates policy now ?b s) \<le> sum_list (map ?w (joined s))"
    unfolding ph(8) by (intro selected_weight [OF ok sweep_candidates_def])
  have "sweep_weight policy now (g d, journal_of s1 d) < sweep_weight policy now (d, journal_of s1 d)"
    if "stranded (d, journal_of s1 d)" "d \<in> set (stranded_deliveries ?b s1)" for d
    using that settled_weight [of "g d" "journal_of s1 d" policy now] bspec [OF ph(9) that(2)]
    by (simp add: sweep_weight_def [of _ _ "(d, journal_of s1 d)"] stranded_def)
  then have w2: "sum_list (map ?w (joined s2)) + length (stranded_deliveries ?b s1) \<le> sum_list (map ?w (joined s1))"
    unfolding ph(10) by (intro selected_weight [OF ph(4) stranded_deliveries_def])
  note w3 = deleted_weight [OF ph(5) refl, of policy now ?b, folded ph(11)]
  show "sum_list (map ?w (joined s')) \<le> sum_list (map ?w (joined s))" using w1 w2 w3 by (simp add: joined')
  assume pos: "0 < sum_list (map ?w (joined s))"
  have some: "sweep_candidates policy now ?b s \<noteq> [] \<or> stranded_deliveries ?b s1 \<noteq> [] \<or> deletable_rows ?c ?b s2 \<noteq> []"
    (is ?some)
  proof (rule ccontr)
    assume none: "\<not> ?some"
    then have "s1 = s" using ph(1) by simp
    moreover have "s2 = s1" using none ph(2) by simp
    ultimately have "sum_list (map ?w (joined s)) = 0"
      using none no_candidates [where policy = policy and now = now and n = ?b and s = s] sweep_batch_pos by metis
    with pos show False by simp
  qed
  then have "0 < sw_payloads_purged r1 \<or> 0 < n \<or> 0 < sw_journal_rows_deleted r2"
    using purge_each_count [OF ph(1)] terminalize_each_count [OF ph(2)]
      delete_each_progress [OF ph(3) _ deletable_rows_keys [OF ph(5)]] by (elim disjE) simp_all
  then have "made_progress r"
    using delete_each_counts(1,2) [OF ph(3)] by (auto simp: ph(15) made_progress_def)
  moreover have "sum_list (map ?w (joined s')) < sum_list (map ?w (joined s))"
    using some w1 w2 w3 by (auto simp: joined' simp flip: length_greater_0_conv split: if_splits)
  ultimately show "made_progress r \<and> sum_list (map ?w (joined s')) < sum_list (map ?w (joined s))" by blast
qed

lemma sat_add_u64_zero [simp]: "sat_add_u64 a b = 0 \<longleftrightarrow> a = 0 \<and> b = 0"
  by (auto simp: sat_add_u64_def u64_max_def)

lemma count_where_zero: "count_where P xs = 0 \<longleftrightarrow> (\<forall>x\<in>set xs. \<not> P x)"
  by (simp add: count_where_def filter_empty_conv)

lemma remaining_zero:
  assumes "store_ok s"
  shows "remaining_candidates policy now (deletable_cutoff policy now) s = 0 \<longleftrightarrow> sweep_work policy now s = 0"
proof -
  have "count_where (purgeable policy now) (st_journal s) = 0 \<longleftrightarrow> (\<forall>p\<in>set (joined s). \<not> purgeable policy now (snd p))"
    unfolding count_where_zero joined_tables(2) [OF assms, symmetric] by simp
  then show ?thesis
    by (auto simp: remaining_candidates_def sweep_work_def sweep_weight_def count_where_zero)
qed

text \<open>A successful sweep keeps the store constraints; it does something whenever there is
  something to do, and changes nothing otherwise.\<close>
lemma sweep_work_step:
  assumes ok: "store_ok s" and run: "sweep_in_transaction sha policy now budget s = Inr (r, s')"
  shows "store_ok s'" "0 < sweep_work policy now s \<Longrightarrow> made_progress r \<and> sweep_work policy now s' < sweep_work policy now s"
    "sweep_work policy now s' \<le> sweep_work policy now s"
    "sw_remaining_candidates r = 0 \<longleftrightarrow> sweep_work policy now s' = 0"
proof -
  note w = sweep_weights [OF ok run]
  show ok': "store_ok s'" by (rule w(1))
  obtain r2 s3 where s3: "s' = snd (delete_aged_withheld (deletable_cutoff policy now) (sweep_batch policy budget) s3)"
    "st_withheld s3 = st_withheld s"
    "r = r2\<lparr>sw_withheld_rows_deleted := fst (delete_aged_withheld (deletable_cutoff policy now) (sweep_batch policy budget) s3),
       sw_remaining_candidates := remaining_candidates policy now (deletable_cutoff policy now) s'\<rparr>"
    by (rule sweep_phases [OF ok run]) blast
  note aged = aged_withheld_count [OF sweep_batch_pos [of policy budget],
      where cutoff = "deletable_cutoff policy now" and s = s3, folded s3(1), unfolded s3(2)]
  show "sweep_work policy now s' \<le> sweep_work policy now s" using w(2) aged(1) by (simp add: sweep_work_def)
  show "0 < sweep_work policy now s \<Longrightarrow> made_progress r \<and> sweep_work policy now s' < sweep_work policy now s"
    using w(2,3) aged by (auto simp: sweep_work_def s3(3) made_progress_def)
  show "sw_remaining_candidates r = 0 \<longleftrightarrow> sweep_work policy now s' = 0"
    using remaining_zero [OF ok'] by (simp add: s3(3))
qed

lemma sweep_expired_cases:
  assumes "sweep_expired sha policy checkpoint now budget s = (Inr r, s')"
  obtains r0 b where "sweep_in_transaction sha policy now budget s = Inr (r0, s')" "r = r0\<lparr>sw_wal_truncated := b\<rparr>"
  using assms by (auto simp: sweep_expired_def with_transaction_def res_bind_Inr_iff split: sum.splits prod.splits)

text \<open>Consecutive ticks of a due sweeper at one instant, until it is no longer due or a sweep
  fails.  The last result is returned; \<^const>\<open>None\<close> means that the ticks did not end.\<close>
fun tick_until_idle ::
  "nat \<Rightarrow> sha \<Rightarrow> retention_policy \<Rightarrow> bool journal_result \<Rightarrow> micros \<Rightarrow> retention_sweeper \<Rightarrow> journal_store \<Rightarrow>
    (retention_tick journal_result \<times> retention_sweeper \<times> journal_store) option" where
  "tick_until_idle 0 sha policy checkpoint now w s = None"
| "tick_until_idle (Suc n) sha policy checkpoint now w s =
    (case retention_tick_at sha policy checkpoint now w s of
      (res, w', s') \<Rightarrow> if sp_next_due w' \<le> now then tick_until_idle n sha policy checkpoint now w' s'
        else Some (res, w', s'))"

text \<open>The two ways in which such a run may end.\<close>
definition sweep_ended ::
  "retention_policy \<Rightarrow> micros \<Rightarrow> sweep_schedule \<Rightarrow> retention_tick journal_result \<Rightarrow> retention_sweeper \<Rightarrow>
    journal_store \<Rightarrow> bool" where
  "sweep_ended policy now schedule res w s = (case res of
      Inl e \<Rightarrow> sp_next_due w = sat_add_i64 now (ss_error_backoff schedule)
    | Inr (Swept r due) \<Rightarrow> sw_remaining_candidates r = 0 \<and> sweep_work policy now s = 0 \<and>
        sp_next_due w = sat_add_i64 now (ss_interval schedule)
    | Inr (NotDue _) \<Rightarrow> False)"

lemma sat_add_i64_later: "0 < b \<Longrightarrow> now < i64_max \<Longrightarrow> now < sat_add_i64 now b"
  by (auto simp: sat_add_i64_def)

lemma tick_until_idle_more:
  "tick_until_idle n sha policy checkpoint now w s = Some x \<Longrightarrow> n \<le> m \<Longrightarrow>
    tick_until_idle m sha policy checkpoint now w s = Some x"
proof (induction n arbitrary: m w s)
  case (Suc n)
  then obtain k where "m = Suc k" "n \<le> k" by (cases m) auto
  with Suc show ?case by (auto split: prod.splits if_splits)
qed simp

lemma sweep_expired_store_ok: "store_ok s \<Longrightarrow> store_ok (snd (sweep_expired sha policy checkpoint now budget s))"
  using sweep_work_step(1) [of s sha policy now budget]
  by (auto simp: sweep_expired_def with_transaction_def split: sum.splits prod.splits)

lemma sweep_expired_step:
  assumes "store_ok s" "sweep_expired sha policy checkpoint now budget s = (Inr r, s')"
  shows "sw_remaining_candidates r = 0 \<longleftrightarrow> sweep_work policy now s' = 0"
    "sw_remaining_candidates r \<noteq> 0 \<Longrightarrow> made_progress r \<and> sweep_work policy now s' < sweep_work policy now s"
proof -
  obtain r0 b where run: "sweep_in_transaction sha policy now budget s = Inr (r0, s')" "r = r0\<lparr>sw_wal_truncated := b\<rparr>"
    by (rule sweep_expired_cases [OF assms(2)])
  note step = sweep_work_step [OF assms(1) run(1)]
  show left: "sw_remaining_candidates r = 0 \<longleftrightarrow> sweep_work policy now s' = 0" using step(4) by (simp add: run(2))
  show "sw_remaining_candidates r \<noteq> 0 \<Longrightarrow> made_progress r \<and> sweep_work policy now s' < sweep_work policy now s"
    using step(2,3) left by (auto simp: run(2) made_progress_def)
qed

text \<open>C34. A sweeper that is due reaches the end of its backlog: ticking it again at the same
  instant, as long as it asks to be ticked at once, ends after at most one tick more than there
  is work, and then either a sweep has failed and the next attempt waits for the error backoff,
  or the last receipt reports nothing left to do and the next sweep waits for the interval.  In
  particular a sweep never reports remaining candidates without having acted on one.\<close>
theorem sweeper_converges:
  assumes "store_ok s" "sp_next_due w \<le> now" "now < i64_max"
    "0 < ss_interval (sp_schedule w)" "0 < ss_error_backoff (sp_schedule w)"
  shows "\<exists>res w' s'. tick_until_idle (Suc (sweep_work policy now s)) sha policy checkpoint now w s = Some (res, w', s') \<and>
    store_ok s' \<and> now < sp_next_due w' \<and>
    sweep_ended policy now (sp_schedule w) res w' s'"
  using assms
proof (induction "sweep_work policy now s" arbitrary: s w rule: less_induct)
  case less
  note later = sat_add_i64_later [OF less.prems(4,3)] sat_add_i64_later [OF less.prems(5,3)]
  let ?sweep = "sweep_expired sha policy checkpoint now (rp_sweep_batch_rows policy) s"
  obtain out s1 where sw: "?sweep = (out, s1)" by (cases ?sweep)
  have ok': "store_ok s1"
    using sweep_expired_store_ok [OF less.prems(1), of sha policy checkpoint now "rp_sweep_batch_rows policy"] sw by simp
  have due: "\<not> now < sp_next_due w" using less.prems(2) by simp
  show ?case
  proof (cases out)
    case (Inl e)
    with sw due ok' later show ?thesis by (simp add: retention_tick_at_def sweep_ended_def)
  next
    case (Inr r)
    with sw have run: "?sweep = (Inr r, s1)" by simp
    note step = sweep_expired_step [OF less.prems(1) run]
    show ?thesis
    proof (cases "sw_remaining_candidates r = 0")
      case True
      with due ok' later run step(1) show ?thesis
        by (simp add: retention_tick_at_def next_sweep_due_def Let_def sweep_ended_def)
    next
      case False
      let ?w = "w\<lparr>sp_next_due := now\<rparr>"
      have tick: "retention_tick_at sha policy checkpoint now w s = (Inr (Swept r now), ?w, s1)"
        using due run False step(2) by (simp add: retention_tick_at_def next_sweep_due_def Let_def)
      have less': "sweep_work policy now s1 < sweep_work policy now s" using step(2) False by simp
      have "\<exists>res w' s'. tick_until_idle (Suc (sweep_work policy now s1)) sha policy checkpoint now ?w s1 =
          Some (res, w', s') \<and> store_ok s' \<and> now < sp_next_due w' \<and> sweep_ended policy now (sp_schedule w) res w' s'"
        using less.hyps [OF less' ok', of ?w] less.prems(3-5) by (simp del: tick_until_idle.simps)
      then obtain res w' s' where ih:
        "tick_until_idle (Suc (sweep_work policy now s1)) sha policy checkpoint now ?w s1 = Some (res, w', s')"
        "store_ok s'" "now < sp_next_due w'" "sweep_ended policy now (sp_schedule w) res w' s'" by blast
      from tick_until_idle_more [OF ih(1), of "sweep_work policy now s"] less' tick ih(2-4) show ?thesis by auto
    qed
  qed
qed

subsection \<open>A sweep stays within the policy\<close>

lemma rewrite_keeps:
  assumes "store_ok s" "(d, j) \<in> set (joined s)" "\<not> P (d, j)"
  shows "(d, j) \<in> set (rewrite_rows (set (map fst (select_limit P key n (joined s)))) f g (joined s))"
proof -
  have "d \<notin> set (map fst (select_limit P key n (joined s)))"
  proof
    assume "d \<in> set (map fst (select_limit P key n (joined s)))"
    then have "P (d, journal_of s d)" by (rule selected_rows(3) [OF assms(1)])
    moreover have "j = journal_of s d" using set_joined [OF assms(1)] assms(2) by simp
    ultimately show False using assms(3) by simp
  qed
  with assms(2) show ?thesis by (auto simp: set_rewrite_rows)
qed

lemma sweep_pairs:
  assumes ok: "store_ok s" and run: "sweep_in_transaction sha policy now budget s = Inr (r, s')"
  shows "(d, j) \<in> set (joined s) \<Longrightarrow> \<not> purgeable policy now j \<Longrightarrow> j_payload_bytes j \<noteq> None \<Longrightarrow>
      j_content_forgotten_at j = None \<Longrightarrow> (d, j) \<in> set (joined s')"
    "(d', j') \<in> set (joined s') \<Longrightarrow> \<exists>d j. (d, j) \<in> set (joined s) \<and> settles d d' \<and>
      (j' = j \<or> purgeable policy now j \<and> j' = purge_row now j \<and> is_terminal (d_state d'))"
proof -
  let ?b = "sweep_batch policy budget" and ?c = "deletable_cutoff policy now"
  obtain s1 s2 s3 f g where ph: "store_ok s1" "store_ok s2"
    "\<forall>d\<in>set (sweep_candidates policy now ?b s). settles d (f d) \<and> is_terminal (d_state (f d))"
    "joined s1 = rewrite_rows (set (sweep_candidates policy now ?b s)) f (purge_row now) (joined s)"
    "\<forall>d\<in>set (stranded_deliveries ?b s1). settles d (g d) \<and> is_terminal (d_state (g d))"
    "joined s2 = rewrite_rows (set (stranded_deliveries ?b s1)) g (\<lambda>j. j) (joined s1)"
    "joined s3 = filter (\<lambda>(d, j). j_idempotency_key j \<notin> fst ` set (deletable_rows ?c ?b s2)) (joined s2)"
    "s' = snd (delete_aged_withheld ?c ?b s3)"
    by (rule sweep_phases [OF ok run]) blast
  have joined': "joined s' = joined s3" by (simp add: ph(8) delete_aged_withheld_def Let_def)
  show "(d, j) \<in> set (joined s')" if "(d, j) \<in> set (joined s)" "\<not> purgeable policy now j" "j_payload_bytes j \<noteq> None"
    "j_content_forgotten_at j = None"
  proof -
    have "(d, j) \<in> set (joined s1)"
      unfolding ph(4) sweep_candidates_def by (rule rewrite_keeps [OF ok that(1)]) (use that(2) in simp)
    then have "(d, j) \<in> set (joined s2)"
      unfolding ph(6) stranded_deliveries_def by (rule rewrite_keeps [OF ph(1)]) (use that(3) in \<open>simp add: stranded_def\<close>)
    moreover have "\<not> deletable ?c (d, j)" using that(4) by (simp add: deletable_def)
    ultimately show ?thesis using deletable_rows_mem [OF ph(2), of d j ?c ?b] unfolding joined' ph(7) by (simp add: conj_commute) blast
  qed
  show "\<exists>d j. (d, j) \<in> set (joined s) \<and> settles d d' \<and>
      (j' = j \<or> purgeable policy now j \<and> j' = purge_row now j \<and> is_terminal (d_state d'))"
    if "(d', j') \<in> set (joined s')"
  proof -
    have "(d', j') \<in> set (joined s2)" using that by (simp add: joined' ph(7))
    then obtain d1 where d1: "(d1, j') \<in> set (joined s1)" "settles d1 d'"
      unfolding ph(6) set_rewrite_rows using ph(5) by (auto split: if_splits)
    then obtain d j where dj: "(d, j) \<in> set (joined s)"
      "(d1, j') = (if d \<in> set (sweep_candidates policy now ?b s) then (f d, purge_row now j) else (d, j))"
      unfolding ph(4) set_rewrite_rows by blast
    show ?thesis
    proof (cases "d \<in> set (sweep_candidates policy now ?b s)")
      case True
      then have "purgeable policy now j"
        using selected_rows(3) [OF ok, of d "\<lambda>(d, j). purgeable policy now j" admission_order ?b] dj(1) set_joined [OF ok]
        by (simp add: sweep_candidates_def)
      moreover have "settles d d1" "is_terminal (d_state d1)" "j' = purge_row now j"
        using True dj(2) ph(3) by auto
      moreover from this(2) d1(2) have "d' = d1" by (auto simp: settles_def)
      ultimately show ?thesis using dj(1) by blast
    next
      case False
      with dj d1(2) show ?thesis by auto
    qed
  qed
qed

text \<open>C35. A sweep, whether or not its checkpoint succeeds, leaves every row alone whose content
  is present, not yet forgotten and not past its effective expiry, together with its delivery.
  Every row it leaves is an old row, unchanged or purged because its effective expiry had
  passed; purging one comes with a settled delivery.\<close>
theorem sweep_within_policy:
  assumes "store_ok s" "sweep_expired sha policy checkpoint now budget s = (res, s')"
  shows "(\<forall>(d, j)\<in>set (joined s). j_payload_bytes j \<noteq> None \<and> j_content_forgotten_at j = None \<and>
      now < effective_expiry policy j \<longrightarrow> (d, j) \<in> set (joined s')) \<and>
    (\<forall>(d', j')\<in>set (joined s'). \<exists>(d, j)\<in>set (joined s). j' = j \<or>
      effective_expiry policy j \<le> now \<and> j' = purge_row now j \<and> is_terminal (d_state d'))"
proof -
  consider "s' = s" | r where "sweep_in_transaction sha policy now budget s = Inr (r, s')"
    using assms(2) by (auto simp: sweep_expired_def with_transaction_def split: sum.splits prod.splits)
  then show ?thesis
  proof cases
    case 1
    then show ?thesis by auto
  next
    case (2 r)
    note pairs = sweep_pairs [OF assms(1) 2]
    have "(d, j) \<in> set (joined s')" if "(d, j) \<in> set (joined s)" "j_payload_bytes j \<noteq> None"
      "j_content_forgotten_at j = None" "now < effective_expiry policy j" for d j
      by (rule pairs(1) [OF that(1) _ that(2,3)]) (use that(4) in \<open>simp add: purgeable_def\<close>)
    moreover have "\<exists>(d, j)\<in>set (joined s). j' = j \<or>
        effective_expiry policy j \<le> now \<and> j' = purge_row now j \<and> is_terminal (d_state d')"
      if dj: "(d', j') \<in> set (joined s')" for d' j'
    proof -
      obtain d j where "(d, j) \<in> set (joined s)"
        "j' = j \<or> purgeable policy now j \<and> j' = purge_row now j \<and> is_terminal (d_state d')"
        using pairs(2) [OF dj] by blast
      then show ?thesis by (intro bexI [of _ "(d, j)"]) (auto simp: purgeable_def)
    qed
    ultimately show ?thesis by auto
  qed
qed

subsection \<open>A forgotten source\<close>

lemma source_deliveries_rows:
  assumes "store_ok s"
  shows "distinct (source_deliveries key s)"
    "set (source_deliveries key s) = {d \<in> set (st_delivery s). of_source key (journal_of s d) \<and> \<not> is_terminal (d_state d)}"
proof -
  have "distinct (map fst (filter (unsettled_of_source key) (joined s)))"
    using distinct_map_filter [of fst "joined s"] store_ok_distinct_delivery [OF assms] joined_tables(1) [OF assms] by simp
  then show "distinct (source_deliveries key s)" by (simp add: source_deliveries_def distinct_map)
  show "set (source_deliveries key s) = {d \<in> set (st_delivery s). of_source key (journal_of s d) \<and> \<not> is_terminal (d_state d)}"
    using set_joined [OF assms] by (force simp: source_deliveries_def unsettled_of_source_def)
qed

lemma forget_pairs:
  assumes ok: "store_ok s" and run: "forget_source_in_transaction sha q s = Inr (r, s')"
  shows "store_ok s'" "same_progress s s'" "st_withheld s' = filter (\<lambda>w. \<not> withheld_of_source (fq_forget_source_key q) w) (st_withheld s)"
    "\<exists>f. (\<forall>d. settles d (f d)) \<and>
      (\<forall>d. of_source (fq_forget_source_key q) (journal_of s d) \<longrightarrow> d \<in> set (st_delivery s) \<longrightarrow> is_terminal (d_state (f d))) \<and>
      joined s' = map (\<lambda>(d, j). if of_source (fq_forget_source_key q) j
        then (f d, purge_row (fq_requested_at q) j) else (d, j)) (joined s)"
proof -
  let ?k = "fq_forget_source_key q" and ?now = "fq_requested_at q"
  obtain n s1 where run1: "terminalize_each sha Forgotten observation_outcome.Cancelled (fq_reason q) ?now
      (source_deliveries ?k s) s = Inr (n, s1)"
    and s': "s' = s1\<lparr>st_journal := update_where (of_source ?k) (purge_row ?now) (st_journal s1),
      st_withheld := filter (\<lambda>w. \<not> withheld_of_source ?k w) (st_withheld s1)\<rparr>"
    using run by (auto simp: forget_source_in_transaction_def Let_def res_bind_Inr_iff terminalize_deliveries_def)
  obtain f where f: "store_ok s1" "same_progress s s1" "st_withheld s1 = st_withheld s"
    "\<forall>d\<in>set (source_deliveries ?k s). settles d (f d) \<and> is_terminal (d_state (f d))"
    "joined s1 = rewrite_rows (set (source_deliveries ?k s)) f (\<lambda>j. j) (joined s)"
    using terminalize_each_pairs [OF ok source_deliveries_rows(1) [OF ok] _ _ run1] source_deliveries_rows(2) [OF ok] by auto
  let ?s2 = "s1\<lparr>st_journal := update_where (of_source ?k) (purge_row ?now) (st_journal s1)\<rparr>"
  have s'2: "s' = ?s2\<lparr>st_withheld := filter (\<lambda>w. \<not> withheld_of_source ?k w) (st_withheld s1)\<rparr>" by (simp add: s')
  have ok2: "store_ok ?s2" by (rule store_ok_purge [OF f(1)])
  then show "store_ok s'" by (simp add: s'2 store_ok_def)
  show "same_progress s s'" using f(2) by (simp add: s' same_progress_def)
  show "st_withheld s' = filter (\<lambda>w. \<not> withheld_of_source ?k w) (st_withheld s)" by (simp add: s' f(3))
  define f' where "f' d = (if d \<in> set (source_deliveries ?k s) then f d else d)" for d
  have "joined s' = map (\<lambda>(d, j). (d, if of_source ?k j then purge_row ?now j else j)) (joined s1)"
    unfolding s'2 joined_withheld by (rule joined_purge [OF f(1)])
  also have "\<dots> = map (\<lambda>(d, j). if of_source ?k j then (f' d, purge_row ?now j) else (d, j)) (joined s)"
    using set_joined [OF ok] source_deliveries_rows(2) [OF ok, of ?k] unfolding f(5) rewrite_rows_def f'_def by auto
  finally have "joined s' = map (\<lambda>(d, j). if of_source ?k j then (f' d, purge_row ?now j) else (d, j)) (joined s)" .
  moreover have "\<forall>d. settles d (f' d)" using f(4) by (simp add: f'_def)
  moreover have "\<forall>d. of_source ?k (journal_of s d) \<longrightarrow> d \<in> set (st_delivery s) \<longrightarrow> is_terminal (d_state (f' d))"
    using f(4) source_deliveries_rows(2) [OF ok, of ?k] by (auto simp: f'_def)
  ultimately show "\<exists>f. (\<forall>d. settles d (f d)) \<and>
      (\<forall>d. of_source ?k (journal_of s d) \<longrightarrow> d \<in> set (st_delivery s) \<longrightarrow> is_terminal (d_state (f d))) \<and>
      joined s' = map (\<lambda>(d, j). if of_source ?k j then (f d, purge_row ?now j) else (d, j)) (joined s)" by blast
qed


subsection \<open>Examples\<close>

lemma sample_joined [simp]: "joined sample_leased_store = [(sample_leased_row, sample_journal 1 sample_digest)]"
  by (simp add: joined_def find_journal_key_def)

lemma sample_retention_facts [simp]:
  "effective_expiry sample_policy (sample_journal 1 sample_digest) = 1001"
  "j_content_forgotten_at (sample_journal 1 sample_digest) = None" "of_source ''forget'' (sample_journal 1 sample_digest)"
  by (simp_all add: effective_expiry_def sample_journal_def journal_row_of_def sample_admitted_def sample_policy_def of_source_def)

theorem sweeper_converges_witness:
  "\<exists>res w' s'. tick_until_idle (Suc (sweep_work sample_policy 2000 sample_leased_store)) zero_sha sample_policy (Inr True) 2000
      \<lparr>sp_schedule = \<lparr>ss_interval = 60, ss_error_backoff = 5\<rparr>, sp_next_due = 10\<rparr> sample_leased_store = Some (res, w', s') \<and>
    store_ok s' \<and> 2000 < sp_next_due w'"
  using sweeper_converges [OF sample_leased_store_ok,
      where w = "\<lparr>sp_schedule = \<lparr>ss_interval = 60, ss_error_backoff = 5\<rparr>, sp_next_due = 10\<rparr>" and now = 2000
        and policy = sample_policy and sha = zero_sha and checkpoint = "Inr True"]
  by (simp add: i64_max_def del: tick_until_idle.simps) blast

theorem sweep_within_policy_witness:
  "(sample_leased_row, sample_journal 1 sample_digest) \<in>
    set (joined (snd (sweep_expired zero_sha sample_policy (Inr True) 200 4 sample_leased_store)))"
  using sweep_within_policy [OF sample_leased_store_ok surjective_pairing,
      where sha = zero_sha and policy = sample_policy and checkpoint = "Inr True" and now = 200 and budget = 4]
  by (simp del: One_nat_def)

lemma sample_forget:
  "\<exists>r s'. forget_source zero_sha (Inr True) \<lparr>fq_forget_source_key = ''forget'', fq_reason = ''request'', fq_requested_at = 200\<rparr>
    sample_leased_store = (Inr r, s')"
proof -
  have obs: "observation_id_parse (''00000000-0000-7000-8000-0000000000'' @ decimal 11) =
      Inr (''00000000-0000-7000-8000-0000000000'' @ decimal 11)"
    using sample_observation_id by (simp add: sample_admitted_def)
  have "source_deliveries ''forget'' sample_leased_store = [sample_leased_row]"
    by (simp add: source_deliveries_def unsettled_of_source_def del: One_nat_def)
  then show ?thesis
    using obs
    by (simp add: forget_source_def forget_request_validate_def SOURCE_EVENT_ID_MAX_BYTES_def forget_source_in_transaction_def
        with_transaction_def Let_def terminalize_deliveries_def read_u32_def u32_max_def expire_delivery_def
        expire_request_of_def read_journal_row_def find_journal_observation_def highest_receipt_attempt_def
        insert_receipt_row_def count_where_def require_bounded_def require_non_empty_def del: One_nat_def)
qed


end
