(* ===== verification/Journal_Operations.thy ===== *)
theory Journal_Operations
  imports Journal_Replay Journal_Sweep
begin

text \<open>
  All operations of the journal together: admissions, withheld events and non-message
  checkpoints, leases, attempts, refusals, releases, reaps, sweeps and privacy deletions in any
  order.  The interface \<^verbatim>\<open>journal_operations\<close> states what each of them promises of the delivery
  table, and its lemmas carry this to every interleaving: rows only move along the delivery
  state machine, and no row is settled without the receipt that settled it.
\<close>

subsection \<open>Settled rows are backed by receipts\<close>

definition backed :: "journal_store \<Rightarrow> delivery_row \<Rightarrow> bool" where
  "backed s d \<longleftrightarrow> (\<exists>r\<in>set (st_receipts s). dr_observation_id r = d_observation_id d \<and>
    d_last_receipt_id d = Some (dr_receipt_id r) \<and> d_last_outcome d = Some (dr_outcome r) \<and>
    (d_state d \<in> {Expired, Exhausted, Forgotten} \<or> implied_state (dr_outcome r) = d_state d))"

definition evidence_ok :: "journal_store \<Rightarrow> bool" where
  "evidence_ok s \<longleftrightarrow> (\<forall>d\<in>set (st_delivery s). is_terminal (d_state d) \<longrightarrow> backed s d)"

text \<open>A step that keeps receipts and backs the rows it settles.\<close>
definition backs :: "journal_store \<Rightarrow> journal_store \<Rightarrow> bool" where
  "backs s s' \<longleftrightarrow> set (st_receipts s) \<subseteq> set (st_receipts s') \<and>
    (\<forall>d\<in>set (st_delivery s'). is_terminal (d_state d) \<longrightarrow> d \<in> set (st_delivery s) \<or> backed s' d)"

lemma backed_mono: "backed s d \<Longrightarrow> set (st_receipts s) \<subseteq> set (st_receipts s') \<Longrightarrow> backed s' d"
  unfolding backed_def by blast

lemma backs_refl [simp]: "backs s s"
  by (simp add: backs_def)

lemma backs_trans: "backs a b \<Longrightarrow> backs b c \<Longrightarrow> backs a c"
  unfolding backs_def by (blast intro: backed_mono)

lemma backs_same: "set (st_receipts s) \<subseteq> set (st_receipts s') \<Longrightarrow> st_delivery s' = st_delivery s \<Longrightarrow> backs s s'"
  by (simp add: backs_def)

lemma backs_evidence: "evidence_ok s \<Longrightarrow> backs s s' \<Longrightarrow> evidence_ok s'"
  unfolding evidence_ok_def backs_def by (blast intro: backed_mono)

lemma backs_update:
  assumes "set (st_receipts s) \<subseteq> set (st_receipts s')" "st_delivery s' = update_where P f (st_delivery s)"
    "\<And>d. d \<in> set (st_delivery s) \<Longrightarrow> P d \<Longrightarrow> is_terminal (d_state (f d)) \<Longrightarrow> backed s' (f d)"
  shows "backs s s'"
  using assms by (auto simp: backs_def set_update_where)

lemma transaction_backs: "(\<And>x s'. f s = Inr (x, s') \<Longrightarrow> backs s s') \<Longrightarrow> backs s (snd (with_transaction f s))"
  by (rule with_transaction_keeps [where P = "backs s"]) auto

lemma guarded_transaction_backs:
  "(\<And>x s'. f s = Inr (x, s') \<Longrightarrow> backs s s') \<Longrightarrow>
    backs s (snd (case check of Inl e \<Rightarrow> (Inl e, s) | Inr _ \<Rightarrow> with_transaction f s))"
  by (cases check) (simp_all add: transaction_backs)

subsection \<open>Attempts\<close>

lemma insert_receipt_backs:
  assumes "insert_receipt_row r s = Some s'"
  shows "backs s s'" "r\<lparr>dr_warnings := []\<rparr> \<in> set (st_receipts s')"
  using insert_receipt_row_Some(1) [OF assms] by (auto intro!: backs_same)

lemma watermark_frame_all:
  "st_receipts (advance_watermark_for j r s) = st_receipts s" "st_delivery (advance_watermark_for j r s) = st_delivery s"
  by (auto simp: advance_watermark_for_def advance_watermark_frame)

lemma settle_backs:
  assumes "x \<in> set (st_receipts s)" "dr_observation_id x = dr_observation_id r" "dr_receipt_id x = dr_receipt_id r"
    "dr_outcome x = dr_outcome r"
  shows "backs s (snd (settle_delivery r policy s))"
  by (rule backs_update [where P = "settle_hit r"])
    (use assms in \<open>auto simp: settle_delivery_def Let_def settle_row_def backed_def settle_hit_def intro!: bexI [of _ x]\<close>)

lemma record_attempt_backs: "backs s (snd (record_attempt sha policy r s))"
  unfolding record_attempt_def
proof (rule guarded_transaction_backs)
  fix out s' assume run: "record_attempt_in_transaction sha policy r s = Inr (out, s')"
  then obtain j where j: "read_journal_row s (dr_observation_id r) = Inr j"
    by (auto simp: record_attempt_in_transaction_def res_bind_Inr_iff)
  show "backs s s'"
  proof (cases "insert_receipt_row r s")
    case None
    then obtain standing where st: "read_receipt sha s (dr_observation_id r) (dr_attempt_number r) = Inr standing"
      "s' = advance_watermark_for j standing (snd (settle_delivery standing policy s))"
      using run j
      by (auto simp: record_attempt_in_transaction_def res_bind_Inr_iff case_prod_unfold Let_def split: if_splits)
    have "backs s (snd (settle_delivery standing policy s))"
      using read_receipt_slot [OF st(1)] by (intro settle_backs [of standing]) auto
    then show ?thesis using backs_trans backs_same by (metis st(2) subset_refl watermark_frame_all)
  next
    case (Some s1)
    let ?s2 = "advance_watermark_for j r s1"
    note ins = insert_receipt_backs [OF Some]
    have "backs s ?s2" using ins(1) backs_trans backs_same by (metis subset_refl watermark_frame_all)
    moreover have "backs ?s2 (snd (settle_delivery r policy ?s2))"
      by (rule settle_backs [of "r\<lparr>dr_warnings := []\<rparr>"]) (simp_all add: watermark_frame_all ins(2))
    moreover have "s' = snd (settle_delivery r policy ?s2)"
      using run j Some
      by (auto simp: record_attempt_in_transaction_def res_bind_Inr_iff case_prod_unfold Let_def split: if_splits)
    ultimately show ?thesis using backs_trans by blast
  qed
qed

lemma unsettled_backs:
  assumes "record_unsettled_attempt_in_transaction r lease retry s = Inr (out, s')"
  shows "backs s s'"
proof -
  let ?s1 = "s\<lparr>st_delivery := update_where (unsettled_hit r lease) (settle_row r Pending retry) (st_delivery s)\<rparr>"
  have "backs s ?s1" by (rule backs_update [where P = "unsettled_hit r lease"]) (auto simp: settle_row_def)
  moreover have "s' = ?s1 \<or> insert_receipt_row r ?s1 = Some s'"
    using assms
    by (auto simp: record_unsettled_attempt_in_transaction_def res_bind_Inr_iff Let_def split: if_splits option.splits)
  ultimately show ?thesis using insert_receipt_backs(1) backs_trans by blast
qed

lemma refusal_backs: "insert_attempt_refusal x s = Inr (out, s') \<Longrightarrow> backs s s'"
  by (auto simp: insert_attempt_refusal_def res_bind_Inr_iff split: if_splits intro!: backs_same)

lemma record_unsettled_backs: "backs s (snd (record_unsettled_attempt sha r lease retry s))"
  unfolding record_unsettled_attempt_def by (intro guarded_transaction_backs unsettled_backs)

lemma record_refusal_backs: "backs s (snd (record_attempt_refusal x s))"
  unfolding record_attempt_refusal_def by (intro guarded_transaction_backs refusal_backs)

lemma record_refused_terminal_backs: "backs s (snd (record_refused_terminal_attempt sha x r lease retry s))"
  unfolding record_refused_terminal_attempt_def
proof (rule guarded_transaction_backs)
  fix out s' assume run: "record_refused_terminal_in_transaction x r lease retry s = Inr (out, s')"
  then obtain attempt s1 where s1: "record_unsettled_attempt_in_transaction r lease retry s = Inr (attempt, s1)"
    by (auto simp: record_refused_terminal_in_transaction_def res_bind_Inr_iff)
  have "s' = s1 \<or> (\<exists>o1. insert_attempt_refusal x s1 = Inr (o1, s'))"
    using run s1 by (cases attempt) (auto simp: record_refused_terminal_in_transaction_def res_bind_Inr_iff)
  then show "backs s s'" using unsettled_backs [OF s1] refusal_backs backs_trans by blast
qed

lemma release_backs: "backs s (snd (release_lease lease retry s))"
  unfolding release_lease_def
proof (rule transaction_backs)
  fix u s' assume "release_lease_in_transaction lease retry s = Inr (u, s')"
  then have "s' = s\<lparr>st_delivery := update_where (release_hit lease)
      (\<lambda>d. (to_pending retry d)\<lparr>d_next_attempt_at := retry\<rparr>) (st_delivery s)\<rparr>"
    by (auto simp: release_lease_in_transaction_def split: if_splits)
  then show "backs s s'" by (intro backs_update [where P = "release_hit lease"]) (auto simp: to_pending_def)
qed

lemma reap_each_backs:
  "reap_each policy now ls reaped s = Inr (n, s') \<Longrightarrow> backs s s'"
proof (induction ls arbitrary: reaped s)
  case (Cons l ls)
  let ?s1 = "s\<lparr>st_delivery := update_where (reclaim_hit l) (to_pending now) (st_delivery s)\<rparr>"
  have one: "backs s ?s1" by (rule backs_update [where P = "reclaim_hit l"]) (auto simp: to_pending_def)
  have "(\<exists>k. reap_each policy now ls k s = Inr (n, s')) \<or> (\<exists>k. reap_each policy now ls k ?s1 = Inr (n, s')) \<or>
      (\<exists>k u s2. insert_attempt_orphan (orphan_of policy now l) ?s1 = Inr (u, s2) \<and> reap_each policy now ls k s2 = Inr (n, s'))"
    using Cons.prems by (auto simp: Let_def res_bind_Inr_iff split: if_splits)
  then show ?case
  proof (elim disjE exE conjE)
    fix k u s2 assume "insert_attempt_orphan (orphan_of policy now l) ?s1 = Inr (u, s2)" "reap_each policy now ls k s2 = Inr (n, s')"
    moreover from this(1) have "backs ?s1 s2"
      by (auto simp: insert_attempt_orphan_def split: if_splits intro!: backs_same)
    ultimately show ?thesis using one Cons.IH backs_trans by blast
  qed (use one Cons.IH backs_trans in blast)+
qed simp

lemma reap_backs: "backs s (snd (reap_expired_leases policy now budget s))"
  unfolding reap_expired_leases_def
  by (rule transaction_backs) (auto simp: reap_in_transaction_def res_bind_Inr_iff intro: reap_each_backs)

subsection \<open>Leases\<close>

lemma expire_delivery_backs:
  assumes "store_ok s" "d \<in> set (st_delivery s)"
    "expire_delivery sha (expire_request_of d st out why now) s = Inr (u, s')" "st \<in> {Expired, Exhausted, Forgotten}"
  shows "backs s s'"
proof -
  let ?q = "expire_request_of d st out why now"
  let ?hit = "\<lambda>x. d_idempotency_key x = er_idempotency_key ?q \<and> d_state x = er_current_state ?q"
  obtain j a s1 where s1: "insert_receipt_row (terminal_receipt sha ?q j a) s = Some s1"
    "s' = s1\<lparr>st_delivery := update_where ?hit (terminalize_row sha ?q a) (st_delivery s1)\<rparr>"
    using assms(3) by (auto simp: expire_delivery_def Let_def res_bind_Inr_iff split: if_splits option.splits)
  note ins = insert_receipt_row_Some(1) [OF s1(1)]
  have hit: "d_observation_id x = d_observation_id d" if "x \<in> set (st_delivery s)" "?hit x" for x
    using that store_ok_unique_delivery [OF assms(1) that(1) assms(2)] by (simp add: expire_request_of_def)
  show ?thesis
  proof (rule backs_update [where P = ?hit])
    fix x assume "x \<in> set (st_delivery s)" "?hit x"
    with hit assms(4) show "backed s' (terminalize_row sha ?q a x)"
      by (auto simp: s1(2) ins backed_def terminalize_row_def terminal_receipt_def expire_request_of_def)
  qed (auto simp: s1(2) ins)
qed

lemma terminalize_each_backs:
  assumes "store_ok s" "distinct ds" "set ds \<subseteq> set (st_delivery s)" "st \<in> {Expired, Exhausted, Forgotten}"
    "terminalize_each sha st out why now ds s = Inr (n, s')"
  shows "backs s s'"
  using assms
proof (induction ds arbitrary: s n)
  case (Cons d ds)
  obtain u s1 m where run: "expire_delivery sha (expire_request_of d st out why now) s = Inr (u, s1)"
    "terminalize_each sha st out why now ds s1 = Inr (m, s')"
    using Cons.prems(5) by (auto simp: res_bind_Inr_iff)
  have d: "d \<in> set (st_delivery s)" "st \<noteq> Leased" using Cons.prems(3,4) by auto
  note step = expire_delivery_step(1,2) [OF Cons.prems(1) d(1) run(1) d(2)]
  have "store_ok s1" "set ds \<subseteq> set (st_delivery s1)"
    using step Cons.prems(2,3) by (auto simp: delivery_step_def)
  with Cons.IH [OF _ _ _ Cons.prems(4) run(2)] Cons.prems(2)
    expire_delivery_backs [OF Cons.prems(1) d(1) run(1) Cons.prems(4)] backs_trans
  show ?case by simp
qed simp

lemma terminalize_deliveries_backs:
  assumes "store_ok s" "distinct ds" "set ds \<subseteq> {d \<in> set (st_delivery s). P d}" "st \<in> {Expired, Exhausted, Forgotten}"
    "terminalize_deliveries sha ds st out why now s = Inr (n, s')"
  shows "backs s s'"
proof (rule terminalize_each_backs [OF assms(1,2) _ assms(4)])
  show "set ds \<subseteq> set (st_delivery s)" using assms(3) by blast
  show "terminalize_each sha st out why now ds s = Inr (n, s')"
    using assms(5) by (auto simp: terminalize_deliveries_def res_bind_Inr_iff)
qed

lemma claim_each_rows:
  "d \<in> set (snd (claim_each q cs ds)) \<Longrightarrow> d \<in> set ds \<or> d_state d = Leased"
proof (induction cs arbitrary: ds)
  case (Cons c cs)
  then have "d \<in> set (update_where (claim_hit c) (claim_row q (fst c)) ds) \<or> d_state d = Leased"
    by (simp add: split_beta)
  then show ?case by (auto simp: set_update_where claim_row_def)
qed simp

lemma lease_pending_backs:
  assumes "store_ok s"
  shows "backs s (snd (lease_pending sha policy q s))"
  unfolding lease_pending_def
proof (rule guarded_transaction_backs)
  fix batch s' assume "lease_pending_in_transaction sha policy q s = Inr (batch, s')"
  then obtain n1 s1 n2 s2 cs where run:
    "terminalize_deliveries sha (select_past_deadline s q) Expired DeadlineExceeded
      ''observation_deadline_elapsed'' (lr_now q) s = Inr (n1, s1)"
    "terminalize_deliveries sha (select_attempts_exhausted s1 q policy) Exhausted ProviderUnavailable
      ''max_delivery_attempts_consumed'' (lr_now q) s1 = Inr (n2, s2)"
    "s' = s2\<lparr>st_delivery := snd (claim_each q cs (st_delivery s2))\<rparr>"
    by (auto simp: lease_pending_in_transaction_def res_bind_Inr_iff split_beta Let_def)
  note rows1 = select_past_deadline_rows [OF assms, of q]
  have "queue_step s s1" by (rule terminalize_deliveries_step [OF assms rows1 _ _ run(1)]) simp_all
  then have ok1: "store_ok s1" by (simp add: queue_step_def delivery_step_def)
  note rows2 = select_attempts_exhausted_rows [OF ok1, of q policy]
  have "backs s s1" by (rule terminalize_deliveries_backs [OF assms rows1 _ run(1)]) simp
  moreover have "backs s1 s2" by (rule terminalize_deliveries_backs [OF ok1 rows2 _ run(2)]) simp
  moreover have "backs s2 s'" using claim_each_rows by (fastforce simp: run(3) backs_def)
  ultimately show "backs s s'" using backs_trans by blast
qed

subsection \<open>Retention\<close>

lemma purge_each_backs:
  assumes "store_ok s" "distinct ds" "set ds \<subseteq> set (st_delivery s)" "purge_each sha now ds r s = Inr (r', s')"
  shows "backs s s'"
  using assms
proof (induction ds arbitrary: s r)
  case (Cons d ds)
  obtain r1 s1 where run: "(if \<not> is_terminal (d_state d)
        then res_bind (expire_delivery sha (expire_request_of d Expired DeadlineExceeded ''retention_expiry'' now) s)
          (\<lambda>(_, s1). Inr (r\<lparr>sw_deliveries_expired := sat_add_u32 (sw_deliveries_expired r) 1\<rparr>, s1))
        else Inr (r, s)) = Inr (r1, s1)"
    "purge_each sha now ds (r1\<lparr>sw_payloads_purged := sat_add_u32 (sw_payloads_purged r1) 1\<rparr>)
      (purge_content (d_idempotency_key d) now s1) = Inr (r', s')"
    using Cons.prems(4) by (auto simp: res_bind_Inr_iff simp del: One_nat_def)
  have d: "d \<in> set (st_delivery s)" using Cons.prems(3) by simp
  define s2 where "s2 = purge_content (d_idempotency_key d) now s1"
  note one = purge_one_pairs [OF Cons.prems(1) d run(1), folded s2_def]
  obtain d' where d': "settles d d'" "joined s2 = rewrite_rows {d} (\<lambda>_. d') (purge_row now) (joined s)" using one(4) by blast
  have sub: "set ds \<subseteq> set (st_delivery s2)" "distinct ds"
    using rewrite_row_delivery(1) [OF Cons.prems(1) one(1) d'(2) d settles_identity [OF d'(1)]] Cons.prems(2,3) by auto
  have "backs s s1"
    using run(1) expire_delivery_backs [OF Cons.prems(1) d]
    by (auto simp: res_bind_Inr_iff simp del: One_nat_def split: if_splits)
  moreover have "backs s1 s2" by (rule backs_same) (simp_all add: s2_def purge_content_def)
  moreover have "backs s2 s'" by (rule Cons.IH [OF one(1) sub(2,1) run(2) [folded s2_def]])
  ultimately show ?case using backs_trans by blast
qed simp

lemma delete_each_evidence:
  assumes "evidence_ok s" "\<forall>(key, obs)\<in>set sel. \<forall>d\<in>set (st_delivery s). d_observation_id d = obs \<longrightarrow> d_idempotency_key d = key"
    "delete_each sel r s = Inr (r', s')"
  shows "evidence_ok s'"
  using assms
proof (induction sel arbitrary: s r)
  case (Cons p sel)
  obtain key obs where p: "p = (key, obs)" by (cases p)
  have "evidence_ok (delete_journal_row key obs s)"
    using Cons.prems(1,2) by (fastforce simp: p evidence_ok_def backed_def delete_journal_row_def)
  moreover have "\<forall>(key', obs')\<in>set sel. \<forall>d\<in>set (st_delivery (delete_journal_row key obs s)).
      d_observation_id d = obs' \<longrightarrow> d_idempotency_key d = key'"
    using Cons.prems(2) by (auto simp: delete_journal_row_def)
  moreover obtain r1 where "delete_each sel r1 (delete_journal_row key obs s) = Inr (r', s')"
    using Cons.prems(3) by (auto simp: p res_bind_Inr_iff)
  ultimately show ?case using Cons.IH by blast
qed simp

lemma deletable_rows_pairs:
  assumes "store_ok s" "(key, obs) \<in> set (deletable_rows cutoff n s)" "d \<in> set (st_delivery s)" "d_observation_id d = obs"
  shows "d_idempotency_key d = key"
proof -
  obtain x where x: "x \<in> set (select_limit (deletable cutoff) forgotten_order n (joined s))"
    "key = j_idempotency_key (snd x)" "obs = j_observation_id (snd x)"
    using assms(2) unfolding deletable_rows_def by (auto simp: split_beta)
  have mem: "(fst x, snd x) \<in> set (joined s)" using conjunct1 [OF select_limit_mem [OF x(1)]] by simp
  note b = joined_belongs [OF assms(1) mem]
  have "fst x \<in> set (st_delivery s)" using mem iffD1 [OF set_joined [OF assms(1)]] by blast
  then have "d = fst x"
    using store_ok_unique_delivery [OF assms(1,3)] b assms(4) x(3) by (simp add: belongs_to_def)
  with b x(2) show ?thesis by (simp add: belongs_to_def)
qed

lemma sweep_evidence:
  assumes "store_ok s" "evidence_ok s"
  shows "evidence_ok (snd (sweep_expired sha policy checkpoint now budget s))"
proof -
  have keep: "evidence_ok s'" if run: "sweep_in_transaction sha policy now budget s = Inr (r, s')" for r s'
  proof -
    let ?b = "sweep_batch policy budget" and ?c = "deletable_cutoff policy now"
    obtain r1 s1 n s2 r2 s3 where ph:
      "purge_each sha now (sweep_candidates policy now ?b s) default_sweep_receipt s = Inr (r1, s1)"
      "terminalize_each sha Forgotten observation_outcome.Cancelled ''content_forgotten'' now
        (stranded_deliveries ?b s1) s1 = Inr (n, s2)"
      "delete_each (deletable_rows ?c ?b s2) (r1\<lparr>sw_deliveries_forgotten := n\<rparr>) s2 = Inr (r2, s3)"
      "store_ok s1" "store_ok s2" "s' = snd (delete_aged_withheld ?c ?b s3)"
      by (rule sweep_phases [OF assms(1) run]) blast
    have "backs s s1"
      by (rule purge_each_backs [OF assms(1) _ _ ph(1)])
        (use selected_rows(1,2) [OF assms(1), of "\<lambda>(d, j). purgeable policy now j" admission_order ?b] in
          \<open>simp_all only: sweep_candidates_def\<close>)
    moreover have "backs s1 s2"
      by (rule terminalize_each_backs [OF ph(4) _ _ _ ph(2)])
        (use selected_rows(1,2) [OF ph(4), of stranded admission_order ?b] in
          \<open>simp_all only: stranded_deliveries_def insert_iff simp_thms\<close>)
    ultimately have "evidence_ok s2" using assms(2) backs_evidence by blast
    then have "evidence_ok s3"
      by (rule delete_each_evidence [OF _ _ ph(3)]) (use deletable_rows_pairs [OF ph(5)] in blast)
    then show ?thesis by (simp add: ph(6) delete_aged_withheld_def Let_def evidence_ok_def backed_def)
  qed
  show ?thesis
    using assms(2) keep by (auto simp: sweep_expired_def with_transaction_def split: sum.splits prod.splits)
qed

lemma forget_backs:
  assumes "store_ok s"
  shows "backs s (snd (forget_source sha checkpoint q s))"
proof -
  have keep: "backs s s'" if run: "forget_source_in_transaction sha q s = Inr (r, s')" for r s'
  proof -
    obtain n s1 where run1: "terminalize_deliveries sha (source_deliveries (fq_forget_source_key q) s) Forgotten
        observation_outcome.Cancelled (fq_reason q) (fq_requested_at q) s = Inr (n, s1)"
      and s': "st_receipts s' = st_receipts s1" "st_delivery s' = st_delivery s1"
      using run by (auto simp: forget_source_in_transaction_def Let_def res_bind_Inr_iff)
    note rows = source_deliveries_rows [OF assms, of "fq_forget_source_key q"]
    have "backs s s1"
      by (rule terminalize_deliveries_backs [OF assms rows(1) _ _ run1, where P = "\<lambda>_. True"]) (auto simp: rows(2))
    then show ?thesis using backs_trans backs_same s' by (metis subset_refl)
  qed
  then show ?thesis
    by (auto simp: forget_source_def with_transaction_def split: sum.splits prod.splits)
qed

subsection \<open>Rows along the delivery state machine\<close>

inductive reaches :: "delivery_state \<Rightarrow> delivery_state \<Rightarrow> bool" where
  reaches_refl: "reaches st st"
| reaches_step: "reaches st st' \<Longrightarrow> can_transition_to st' st'' \<Longrightarrow> reaches st st''"

inductive_cases reachesE: "reaches st st'"

lemma reaches_once: "can_transition_to st st' \<Longrightarrow> reaches st st'"
  using reaches_refl reaches_step by blast

lemma reaches_trans: "reaches b c \<Longrightarrow> reaches a b \<Longrightarrow> reaches a c"
  by (induction rule: reaches.induct) (auto intro: reaches_step)

lemma terminal_transition: "is_terminal st \<Longrightarrow> can_transition_to st st' \<Longrightarrow> st' = Forgotten"
  by (cases st) auto

text \<open>Nothing leaves a settled state except into \<^verbatim>\<open>Forgotten\<close>.\<close>
lemma terminal_reaches: "reaches st st' \<Longrightarrow> is_terminal st \<Longrightarrow> st' = st \<or> st' = Forgotten"
  by (induction rule: reaches.induct) (auto dest: terminal_transition)

definition descends :: "delivery_row \<Rightarrow> delivery_row \<Rightarrow> bool" where
  "descends d d' \<longleftrightarrow> same_identity d d' \<and> reaches (d_state d) (d_state d') \<and> d_attempt_number d \<le> d_attempt_number d'"

lemma descends_refl: "descends d d"
  by (simp add: descends_def same_identity_def reaches_refl)

lemma evolves_descends: "evolves d d' \<Longrightarrow> descends d d'"
  by (auto simp: descends_def evolves_def reaches_refl reaches_once)

lemma descends_trans: "descends a b \<Longrightarrow> descends b c \<Longrightarrow> descends a c"
  by (auto simp: descends_def same_identity_def intro: reaches_trans)

text \<open>A row of a later store is the later form of a row of the earlier one, or of a fresh
  admission.\<close>
definition descended :: "journal_store \<Rightarrow> delivery_row \<Rightarrow> bool" where
  "descended s d' \<longleftrightarrow> (\<exists>d. (d \<in> set (st_delivery s) \<or> fresh_delivery d) \<and> descends d d')"

lemma descended_mem: "d \<in> set (st_delivery s) \<Longrightarrow> descended s d"
  using descends_refl unfolding descended_def by blast

lemma descended_evolves: "d \<in> set (st_delivery s) \<Longrightarrow> evolves d d' \<Longrightarrow> descended s d'"
  using evolves_descends unfolding descended_def by blast

lemma descended_step: "delivery_step s s' \<Longrightarrow> d' \<in> set (st_delivery s') \<Longrightarrow> descended s d'"
  unfolding delivery_step_def using list_all2_memD2 [of evolves "st_delivery s" "st_delivery s'" d'] descended_evolves by blast

lemma descended_grows: "grows (st_delivery s) (st_delivery s') \<Longrightarrow> d' \<in> set (st_delivery s') \<Longrightarrow> descended s d'"
  unfolding grows_def
proof (elim exE conjE)
  fix moved new
  assume rows: "st_delivery s' = moved @ new" "list_all2 evolves (st_delivery s) moved" "list_all fresh_delivery new"
    and d': "d' \<in> set (st_delivery s')"
  show "descended s d'"
  proof (cases "d' \<in> set moved")
    case True
    then show ?thesis using list_all2_memD2 [OF rows(2), of d'] descended_evolves by blast
  next
    case False
    then have "fresh_delivery d'" using d' rows(1,3) by (auto simp: list_all_iff)
    then show ?thesis using descends_refl unfolding descended_def by blast
  qed
qed

lemma settles_descended: "d \<in> set (st_delivery s) \<Longrightarrow> settles d d' \<Longrightarrow> descended s d'"
  by (auto simp: settles_def intro: descended_evolves descended_mem)

lemma sweep_descended:
  assumes "store_ok s" "d' \<in> set (st_delivery (snd (sweep_expired sha policy checkpoint now budget s)))"
  shows "descended s d'"
proof -
  have "descended s d'" if run: "sweep_in_transaction sha policy now budget s = Inr (r, s')" and d': "d' \<in> set (st_delivery s')" for r s'
  proof -
    have "(d', journal_of s' d') \<in> set (joined s')" using iffD2 [OF set_joined [OF sweep_work_step(1) [OF assms(1) run]]] d' by simp
    then obtain d j where "(d, j) \<in> set (joined s)" "settles d d'" using sweep_pairs(2) [OF assms(1) run] by meson
    then show ?thesis using settles_descended conjunct1 [OF iffD1 [OF set_joined [OF assms(1)]]] by blast
  qed
  then show ?thesis
    using assms(2) descended_mem by (auto simp: sweep_expired_def with_transaction_def split: sum.splits prod.splits)
qed

lemma forget_descended:
  assumes "store_ok s" "d' \<in> set (st_delivery (snd (forget_source sha checkpoint q s)))"
  shows "descended s d'"
proof -
  have "descended s d'" if run: "forget_source_in_transaction sha q s = Inr (r, s')" and d': "d' \<in> set (st_delivery s')" for r s'
  proof -
    obtain f where f: "\<forall>d. settles d (f d)" "joined s' = map (\<lambda>(d, j). if of_source (fq_forget_source_key q) j
        then (f d, purge_row (fq_requested_at q) j) else (d, j)) (joined s)"
      using forget_pairs(4) [OF assms(1) run] by blast
    have "(d', journal_of s' d') \<in> set (joined s')" using iffD2 [OF set_joined [OF forget_pairs(1) [OF assms(1) run]]] d' by simp
    then obtain d j where "(d, j) \<in> set (joined s)" "d' = f d \<or> d' = d"
      unfolding f(2) by (auto split: if_splits)
    then have "d \<in> set (st_delivery s)" "settles d d'"
      using conjunct1 [OF iffD1 [OF set_joined [OF assms(1)]]] f(1) by auto
    then show ?thesis by (rule settles_descended)
  qed
  then show ?thesis
    using assms(2) descended_mem by (auto simp: forget_source_def with_transaction_def split: sum.splits prod.splits)
qed

lemma forget_store_ok: "store_ok s \<Longrightarrow> store_ok (snd (forget_source sha checkpoint q s))"
  using forget_pairs(1) [of s sha q]
  by (auto simp: forget_source_def with_transaction_def split: sum.splits prod.splits)

subsection \<open>Interleavings of journal operations\<close>

text \<open>One call of the journal's public interface, with the arguments its caller chooses.  The
  outcome of the checkpoint that follows a sweep or a deletion comes from the database.\<close>
datatype journal_event =
    IngressEvent ingress_event
  | LeaseEvent lease_request
  | AttemptEvent delivery_receipt
  | UnsettledEvent delivery_receipt string micros
  | RefusalEvent attempt_refusal
  | RefusedTerminalEvent attempt_refusal delivery_receipt string micros
  | ReleaseEvent string micros
  | ReapEvent micros nat
  | SweepEvent "bool journal_result" micros nat
  | ForgetEvent "bool journal_result" forget_request

fun run_journal :: "sha \<Rightarrow> retention_policy \<Rightarrow> journal_event \<Rightarrow> journal_store \<Rightarrow> journal_store" where
  "run_journal sha policy (IngressEvent e) s = run_ingress sha policy e s"
| "run_journal sha policy (LeaseEvent q) s = snd (lease_pending sha policy q s)"
| "run_journal sha policy (AttemptEvent r) s = snd (record_attempt sha policy r s)"
| "run_journal sha policy (UnsettledEvent r lease retry) s = snd (record_unsettled_attempt sha r lease retry s)"
| "run_journal sha policy (RefusalEvent x) s = snd (record_attempt_refusal x s)"
| "run_journal sha policy (RefusedTerminalEvent x r lease retry) s =
    snd (record_refused_terminal_attempt sha x r lease retry s)"
| "run_journal sha policy (ReleaseEvent lease retry) s = snd (release_lease lease retry s)"
| "run_journal sha policy (ReapEvent now budget) s = snd (reap_expired_leases policy now budget s)"
| "run_journal sha policy (SweepEvent checkpoint now budget) s = snd (sweep_expired sha policy checkpoint now budget s)"
| "run_journal sha policy (ForgetEvent checkpoint q) s = snd (forget_source sha checkpoint q s)"

text \<open>What the journal promises of each of its operations, and what follows for any sequence of
  them.\<close>
locale journal_operations =
  fixes run :: "'event \<Rightarrow> journal_store \<Rightarrow> journal_store"
  assumes keeps_ok: "store_ok s \<Longrightarrow> store_ok (run e s)"
    and keeps_rows: "store_ok s \<Longrightarrow> d' \<in> set (st_delivery (run e s)) \<Longrightarrow> descended s d'"
    and keeps_evidence: "store_ok s \<Longrightarrow> evidence_ok s \<Longrightarrow> evidence_ok (run e s)"
begin

lemma fold_ok: "store_ok s \<Longrightarrow> store_ok (fold run es s)"
  by (induction es arbitrary: s) (simp_all add: keeps_ok)

lemma fold_evidence: "store_ok s \<Longrightarrow> evidence_ok s \<Longrightarrow> evidence_ok (fold run es s)"
  by (induction es arbitrary: s) (simp_all add: keeps_ok keeps_evidence)

lemma fold_rows: "store_ok s \<Longrightarrow> d' \<in> set (st_delivery (fold run es s)) \<Longrightarrow> descended s d'"
proof (induction es arbitrary: s)
  case (Cons e es)
  from Cons.prems(2) have later: "descended (run e s) d'" by (intro Cons.IH keeps_ok [OF Cons.prems(1)]) simp
  then obtain d where d: "d \<in> set (st_delivery (run e s)) \<or> fresh_delivery d" "descends d d'"
    unfolding descended_def by blast
  show ?case
  proof (cases "d \<in> set (st_delivery (run e s))")
    case True
    from keeps_rows [OF Cons.prems(1) True] d(2) show ?thesis
      unfolding descended_def by (blast intro: descends_trans)
  next
    case False
    with d show ?thesis unfolding descended_def by blast
  qed
qed (simp add: descended_mem)

end

lemma append_receipts: "st_receipts (snd (append_admitted_at sha policy a now s)) = st_receipts s"
  unfolding append_admitted_at_def
  by (rule with_transaction_keeps [where P = "\<lambda>s'. st_receipts s' = st_receipts s"])
    (auto dest!: append_stopped_or_rows simp: append_rows_frame(1))

lemma ingress_frame:
  assumes "store_ok s"
  shows "st_receipts (run_ingress sha policy e s) = st_receipts s \<and>
    grows (st_delivery s) (st_delivery (run_ingress sha policy e s))"
proof (cases e)
  case (AdmitEvent a now)
  then show ?thesis by (simp add: append_receipts append_grows [OF assms])
next
  case (WithholdEvent w now)
  then show ?thesis
    using record_withheld_cases [of sha w now s] by (auto dest!: record_withheld_effect simp: grows_refl)
next
  case (NonMessageEvent k src now)
  then show ?thesis
    using record_non_message_cases [of k src now s] by (auto dest!: record_non_message_effect simp: grows_refl)
qed

lemma ingress_backs:
  assumes "store_ok s"
  shows "backs s (run_ingress sha policy e s)"
proof (cases e)
  case (AdmitEvent a now)
  have "backs s s'" if "append_admitted_in_transaction sha policy a now s = Inr (out, s')" for out s'
    using append_stopped_or_rows [OF that] append_rows_effect(4) [OF assms] append_rows_frame(1)
    by (auto simp: backs_def delivery_row_of_def)
  then show ?thesis by (simp add: AdmitEvent append_admitted_at_def transaction_backs)
next
  case (WithholdEvent w now)
  then show ?thesis
    using record_withheld_cases [of sha w now s] by (auto dest!: record_withheld_effect intro!: backs_same)
next
  case (NonMessageEvent k src now)
  then show ?thesis
    using record_non_message_cases [of k src now s] by (auto dest!: record_non_message_effect intro!: backs_same)
qed

lemmas operation_steps = lease_pending_step record_attempt_step record_unsettled_step record_refusal_step
  record_refused_terminal_step release_step reap_step

lemmas operation_backs = ingress_backs lease_pending_backs record_attempt_backs record_unsettled_backs
  record_refusal_backs record_refused_terminal_backs release_backs reap_backs forget_backs

lemma delivery_step_ok: "delivery_step s s' \<Longrightarrow> store_ok s'"
  by (simp add: delivery_step_def)

interpretation journal: journal_operations "run_journal sha policy" for sha policy
proof unfold_locales
  fix e s d'
  assume ok: "store_ok s"
  show "store_ok (run_journal sha policy e s)"
    by (cases e) (simp_all add: ok ingress.keeps_ok sweep_expired_store_ok forget_store_ok
        operation_steps [OF ok, THEN delivery_step_ok])
  show "d' \<in> set (st_delivery (run_journal sha policy e s)) \<Longrightarrow> descended s d'"
    by (cases e) (auto dest: descended_step [OF operation_steps(1) [OF ok]] descended_step [OF operation_steps(2) [OF ok]]
        descended_step [OF operation_steps(3) [OF ok]] descended_step [OF operation_steps(4) [OF ok]]
        descended_step [OF operation_steps(5) [OF ok]] descended_step [OF operation_steps(6) [OF ok]]
        descended_step [OF operation_steps(7) [OF ok]] descended_grows [OF conjunct2 [OF ingress_frame [OF ok]]]
        sweep_descended [OF ok] forget_descended [OF ok])
  show "evidence_ok s \<Longrightarrow> evidence_ok (run_journal sha policy e s)"
    by (cases e) (simp_all add: ok sweep_evidence operation_backs [THEN backs_evidence [rotated]])
qed


text \<open>C3. No observation is settled without evidence, in any interleaving: starting from a store
  in which every settled row has its receipt, every row that is settled afterwards names a stored
  receipt of its own observation that carries the row's outcome, and the state is the one that
  outcome implies unless the delivery was expired, exhausted or forgotten.\<close>
theorem settled_rows_have_receipts:
  assumes "store_ok s" "evidence_ok s" "d \<in> set (st_delivery (fold (run_journal sha policy) es s))"
    and "is_terminal (d_state d)"
  shows "\<exists>r\<in>set (st_receipts (fold (run_journal sha policy) es s)). dr_observation_id r = d_observation_id d \<and>
    d_last_receipt_id d = Some (dr_receipt_id r) \<and> d_last_outcome d = Some (dr_outcome r) \<and>
    (d_state d \<in> {Expired, Exhausted, Forgotten} \<or> implied_state (dr_outcome r) = d_state d)"
  using journal.fold_evidence [OF assms(1,2)] assms(3,4) unfolding evidence_ok_def backed_def by blast

definition sample_forget_request :: forget_request where
  "sample_forget_request = \<lparr>fq_forget_source_key = ''forget'', fq_reason = ''request'', fq_requested_at = 200\<rparr>"

lemma sample_forgotten:
  obtains d where "d \<in> set (st_delivery (fold (run_journal zero_sha sample_policy)
      [ForgetEvent (Inr True) sample_forget_request] sample_leased_store))" "is_terminal (d_state d)"
proof -
  obtain r s' where run: "forget_source zero_sha (Inr True) sample_forget_request sample_leased_store = (Inr r, s')"
    using sample_forget unfolding sample_forget_request_def by blast
  then obtain x where tx: "forget_source_in_transaction zero_sha sample_forget_request sample_leased_store = Inr (x, s')"
    by (auto simp: forget_source_def with_transaction_def split: sum.splits prod.splits)
  obtain f where f: "is_terminal (d_state (f sample_leased_row))"
    "joined s' = [(f sample_leased_row, purge_row 200 (sample_journal 1 sample_digest))]"
    using forget_pairs(4) [OF sample_leased_store_ok tx]
    by (auto simp: sample_forget_request_def journal_of_def find_journal_key_def simp del: One_nat_def)
  then have "f sample_leased_row \<in> set (st_delivery s')"
    using set_joined [OF forget_pairs(1) [OF sample_leased_store_ok tx]] by (metis list.set_intros(1))
  with f(1) run that show thesis by simp
qed


theorem settled_rows_have_receipts_witness:
  "\<exists>r\<in>set (st_receipts (fold (run_journal zero_sha sample_policy)
      [ForgetEvent (Inr True) sample_forget_request] sample_leased_store)).
    dr_observation_id r \<in> d_observation_id ` set (st_delivery (fold (run_journal zero_sha sample_policy)
      [ForgetEvent (Inr True) sample_forget_request] sample_leased_store))"
proof -
  obtain d where d: "d \<in> set (st_delivery (fold (run_journal zero_sha sample_policy)
      [ForgetEvent (Inr True) sample_forget_request] sample_leased_store))" "is_terminal (d_state d)" by (rule sample_forgotten)
  have "evidence_ok sample_leased_store" by (simp add: evidence_ok_def)
  from settled_rows_have_receipts [OF sample_leased_store_ok this d] d(1) show ?thesis by (auto simp: image_iff)
qed

end
