(* ===== verification/Delivery_Runtime.thy ===== *)
theory Delivery_Runtime
  imports Journal_Inspect Journal_Operations
begin

text \<open>
  The delivery runtime (\<^verbatim>\<open>runtime/delivery.rs\<close>, \<^verbatim>\<open>runtime/wake.rs\<close>, \<^verbatim>\<open>runtime/error.rs\<close>): one
  dispatch round leases a batch, hands each item to the provider adapter and records what came
  back; a drain repeats rounds within its bounds; a shutdown pass reaps and reports.  The adapter,
  the clock, the shared cancellation token and the other processes that use the same journal are
  the environment of a round: for each leased item it says whether the token was cancelled before
  and after the call, what the adapter returned, and which journal operations ran meanwhile.
\<close>

subsection \<open>Errors\<close>

type_synonym adapter_failure = string

datatype runtime_error =
    Journal observation_journal_error
  | InvalidDispatchRequest string
  | Admission string nat adapter_failure
  | AdmissionIdentityMismatch string nat string string string
  | UnorderedIngressBatch nat nat
  | LoadClassMismatch string nat string string
  | RecoveryCancelled string
  | RecoveryDeadlineExceeded string
  | StreamMismatch string string

record terminal_mismatch =
  tm_field :: string
  tm_expected :: string
  tm_provided :: string

definition mismatch_text :: "terminal_mismatch \<Rightarrow> string" where
  "mismatch_text m = ''provider terminal '' @ tm_field m @ '' does not describe the leased delivery: expected '' @
    tm_expected m @ '', provider returned '' @ tm_provided m"

definition signed_decimal :: "int \<Rightarrow> string" where
  "signed_decimal n = (if n < 0 then ''-'' @ decimal (nat (- n)) else decimal (nat n))"

text \<open>The display text of a journal error; the text of a provider-contract error is a parameter.\<close>
primrec journal_error_text :: "(api_error \<Rightarrow> string) \<Rightarrow> observation_journal_error \<Rightarrow> string" where
  "journal_error_text api (Api e) = ''provider API value is invalid: '' @ api e"
| "journal_error_text api (Storage detail) = ''observation journal storage failure: '' @ detail"
| "journal_error_text api (SourceCheckpointConflict n) =
    ''source eligibility checkpoint conflicts at sequence '' @ decimal n"
| "journal_error_text api (Serialization field detail) =
    ''could not serialize observation journal field '' @ field @ '': '' @ detail"
| "journal_error_text api (InvalidDigest field) =
    ''observation journal field '' @ field @ '' is not a lowercase sha-256 digest''"
| "journal_error_text api (observation_journal_error.EmptyField field) =
    ''observation journal field '' @ field @ '' must not be empty''"
| "journal_error_text api (FieldTooLarge field n) =
    ''observation journal field '' @ field @ '' exceeds '' @ decimal n @ '' bytes''"
| "journal_error_text api (IdempotencyKeyMismatch expected provided) =
    ''idempotency key '' @ provided @ '' does not match derived key '' @ expected"
| "journal_error_text api ExtensionsDigestMismatch = ''extensions digest does not match the carried extensions''"
| "journal_error_text api EnvelopeDigestMismatch = ''envelope digest does not match the admitted envelope''"
| "journal_error_text api (UnsettledSource field) =
    ''source is not canonically settled: '' @ field @ '' is missing or invalid''"
| "journal_error_text api (UnknownWireValue field wire) = ''unknown '' @ field @ '' wire value '' @ wire"
| "journal_error_text api (TerminalNotAdmissible code) =
    ''terminal code '' @ code @ '' is not admissible for an observation delivery''"
| "journal_error_text api (AcknowledgementWithoutProviderReceipt outcome) =
    ''outcome '' @ outcome @ '' requires a provider receipt digest''"
| "journal_error_text api (UnboundDuplicateAcknowledgement field) = ''duplicate acknowledgement is missing '' @ field"
| "journal_error_text api DuplicateAcknowledgementKeyMismatch =
    ''duplicate acknowledgement names a different idempotency key than the delivered observation''"
| "journal_error_text api (DuplicateAcknowledgementIncoherent outcome effect) =
    ''receipt outcome '' @ outcome @ '' disagrees with committed effect '' @ effect @ '' about duplication''"
| "journal_error_text api (AttemptRefusalBindingMismatch field) =
    ''attempt refusal '' @ field @ '' does not match the leased delivery''"
| "journal_error_text api (ReceiptDigestMismatch field) =
    ''delivery receipt '' @ field @ '' does not match the journalled observation''"
| "journal_error_text api (InvalidRetentionPolicy field) = ''retention policy field '' @ field @ '' is invalid''"
| "journal_error_text api (InvalidSweepSchedule field) = ''retention sweep schedule field '' @ field @ '' is invalid''"
| "journal_error_text api (InvalidDispatchPolicy field) = ''dispatch policy field '' @ field @ '' is invalid''"
| "journal_error_text api (InvalidBackpressurePolicy field) = ''backpressure policy field '' @ field @ '' is invalid''"
| "journal_error_text api (InvalidObservationId detail) = ''observation id is not a lowercase uuid v7: '' @ detail"
| "journal_error_text api (DeadlineBeforeAdmission deadline admitted) =
    ''deadline '' @ signed_decimal deadline @ '' is not after admission '' @ signed_decimal admitted"
| "journal_error_text api (UnknownObservation obs) = ''observation '' @ obs @ '' is not present in the journal''"
| "journal_error_text api (UnknownLease lease) = ''dispatch lease '' @ lease @ '' is not held by any delivery row''"
| "journal_error_text api (SchemaAhead found supported) =
    ''observation journal schema '' @ signed_decimal found @ '' is ahead of supported schema '' @ signed_decimal supported"
| "journal_error_text api (LegacyWithheldEvidenceUnmigratable rows) =
    ''observation journal schema migration cannot preserve '' @ decimal rows @ '' legacy withheld rows''"
| "journal_error_text api (Corrupt table field) =
    ''observation journal row in '' @ table @ ''.'' @ field @ '' is corrupt''"
| "journal_error_text api (ValueOutOfRange field) = ''observation journal field '' @ field @ '' is out of range''"
| "journal_error_text api LockPoisoned = ''observation journal connection lock is poisoned''"
| "journal_error_text api (OperationCancelled op) = ''observation journal operation '' @ op @ '' was cancelled''"
| "journal_error_text api (BudgetExhausted op) =
    ''observation journal operation '' @ op @ '' exhausted its remaining budget''"

subsection \<open>The wake edge\<close>

record wake_state =
  wk_pending :: bool
  wk_shutdown :: bool
  wk_cancelled :: bool

datatype wake_outcome = Work | TimedOut | ShutdownRequested

definition wake_new :: wake_state where
  "wake_new = \<lparr>wk_pending = False, wk_shutdown = False, wk_cancelled = False\<rparr>"

definition signal :: "wake_state \<Rightarrow> wake_state" where
  "signal w = w\<lparr>wk_pending := True\<rparr>"

definition request_shutdown :: "wake_state \<Rightarrow> wake_state" where
  "request_shutdown w = w\<lparr>wk_cancelled := True, wk_shutdown := True\<rparr>"

text \<open>The state as the waiter finds it once it holds the lock again: a signal or a shutdown
  request has landed, or the bound has elapsed.\<close>
definition wait :: "wake_state \<Rightarrow> wake_outcome \<times> wake_state" where
  "wait w = (if wk_shutdown w then (ShutdownRequested, w)
     else if wk_pending w then (Work, w\<lparr>wk_pending := False\<rparr>)
     else (TimedOut, w))"

subsection \<open>Attempts and reports\<close>

datatype delivery_attempt =
    RejectedTerminal terminal_record refusal_category string "string option" "string option" adapter_failure micros micros
  | Answered terminal_record micros micros
  | Unanswered
  | CancelledByShutdown micros micros

record dispatch_request =
  dq_lease :: lease_request
  dq_retry_backoff :: retry_backoff
  dq_attempt_budget :: micros

record delivery_failure =
  df_observation_id :: string
  df_attempt_number :: nat
  df_lease_released :: bool
  df_cause :: adapter_failure

record batch_report =
  br_leased :: nat
  br_receipts_recorded :: nat
  br_duplicate_receipts :: nat
  br_leases_lost :: nat
  br_leases_released :: nat
  br_settled_terminal :: nat
  br_retry_scheduled :: nat
  br_cancelled_before_dispatch :: nat
  br_cancelled_in_flight :: nat
  br_refusals_recorded :: nat
  br_duplicate_refusals :: nat
  br_failures :: "delivery_failure list"

definition default_report :: batch_report where
  "default_report = \<lparr>br_leased = 0, br_receipts_recorded = 0, br_duplicate_receipts = 0, br_leases_lost = 0,
    br_leases_released = 0, br_settled_terminal = 0, br_retry_scheduled = 0, br_cancelled_before_dispatch = 0,
    br_cancelled_in_flight = 0, br_refusals_recorded = 0, br_duplicate_refusals = 0, br_failures = []\<rparr>"

definition report_absorb :: "batch_report \<Rightarrow> batch_report \<Rightarrow> batch_report" where
  "report_absorb a b = \<lparr>br_leased = sat_add_u32 (br_leased a) (br_leased b),
    br_receipts_recorded = sat_add_u32 (br_receipts_recorded a) (br_receipts_recorded b),
    br_duplicate_receipts = sat_add_u32 (br_duplicate_receipts a) (br_duplicate_receipts b),
    br_leases_lost = sat_add_u32 (br_leases_lost a) (br_leases_lost b),
    br_leases_released = sat_add_u32 (br_leases_released a) (br_leases_released b),
    br_settled_terminal = sat_add_u32 (br_settled_terminal a) (br_settled_terminal b),
    br_retry_scheduled = sat_add_u32 (br_retry_scheduled a) (br_retry_scheduled b),
    br_cancelled_before_dispatch = sat_add_u32 (br_cancelled_before_dispatch a) (br_cancelled_before_dispatch b),
    br_cancelled_in_flight = sat_add_u32 (br_cancelled_in_flight a) (br_cancelled_in_flight b),
    br_refusals_recorded = sat_add_u32 (br_refusals_recorded a) (br_refusals_recorded b),
    br_duplicate_refusals = sat_add_u32 (br_duplicate_refusals a) (br_duplicate_refusals b),
    br_failures = br_failures a @ br_failures b\<rparr>"

text \<open>A step of the runtime: an error ends the round, and what the journal already committed
  stays committed.\<close>
type_synonym 'a runtime = "journal_store \<Rightarrow> (runtime_error + 'a) \<times> journal_store"

definition rt_bind :: "'a runtime \<Rightarrow> ('a \<Rightarrow> 'b runtime) \<Rightarrow> 'b runtime" where
  "rt_bind m f s = (case m s of (Inl e, s') \<Rightarrow> (Inl e, s') | (Inr x, s') \<Rightarrow> f x s')"

definition rt_return :: "'a \<Rightarrow> 'a runtime" where
  "rt_return x s = (Inr x, s)"

definition rt_result :: "'a journal_result \<Rightarrow> 'a runtime" where
  "rt_result r s = (case r of Inl e \<Rightarrow> (Inl (Journal e), s) | Inr x \<Rightarrow> (Inr x, s))"

definition journal_call :: "(journal_store \<Rightarrow> 'a journal_result \<times> journal_store) \<Rightarrow> 'a runtime" where
  "journal_call op s = (case op s of (Inl e, s') \<Rightarrow> (Inl (Journal e), s') | (Inr x, s') \<Rightarrow> (Inr x, s'))"

subsection \<open>Recording what came back\<close>

definition release :: "string \<Rightarrow> micros \<Rightarrow> bool runtime" where
  "release lease retry_after s = (case release_lease lease retry_after s of
      (Inr _, s') \<Rightarrow> (Inr True, s')
    | (Inl (UnknownLease _), s') \<Rightarrow> (Inr False, s')
    | (Inl e, s') \<Rightarrow> (Inl (Journal e), s'))"

definition count_release :: "bool \<Rightarrow> batch_report \<Rightarrow> batch_report" where
  "count_release released r =
    (if released then r\<lparr>br_leases_released := sat_add_u32 (br_leases_released r) 1\<rparr>
     else r\<lparr>br_leases_lost := sat_add_u32 (br_leases_lost r) 1\<rparr>)"

definition count_terminal :: "delivery_state \<Rightarrow> batch_report \<Rightarrow> batch_report" where
  "count_terminal st r = (if is_terminal st then r\<lparr>br_settled_terminal := sat_add_u32 (br_settled_terminal r) 1\<rparr> else r)"

definition count_retry :: "micros option \<Rightarrow> batch_report \<Rightarrow> batch_report" where
  "count_retry next r = (if next \<noteq> None then r\<lparr>br_retry_scheduled := sat_add_u32 (br_retry_scheduled r) 1\<rparr> else r)"

fun account_recorded :: "attempt_outcome \<Rightarrow> batch_report \<Rightarrow> batch_report" where
  "account_recorded (Recorded st next) r =
    count_retry next (count_terminal st (r\<lparr>br_receipts_recorded := sat_add_u32 (br_receipts_recorded r) 1\<rparr>))"
| "account_recorded (DuplicateReceipt st) r =
    count_terminal st (r\<lparr>br_duplicate_receipts := sat_add_u32 (br_duplicate_receipts r) 1\<rparr>)"
| "account_recorded (LeaseLost _) r =
    r\<lparr>br_receipts_recorded := sat_add_u32 (br_receipts_recorded r) 1,
      br_leases_lost := sat_add_u32 (br_leases_lost r) 1\<rparr>"

definition runtime_record :: "sha \<Rightarrow> retention_policy \<Rightarrow> delivery_receipt \<Rightarrow> batch_report \<Rightarrow> batch_report runtime" where
  "runtime_record sha policy receipt r =
    rt_bind (journal_call (record_attempt sha policy receipt)) (\<lambda>outcome. rt_return (account_recorded outcome r))"

fun account_unsettled_outcome :: "attempt_outcome \<Rightarrow> batch_report \<Rightarrow> bool \<times> batch_report" where
  "account_unsettled_outcome (Recorded st next) r =
    (True, count_retry next (count_terminal st (r\<lparr>br_receipts_recorded := sat_add_u32 (br_receipts_recorded r) 1,
      br_leases_released := sat_add_u32 (br_leases_released r) 1\<rparr>)))"
| "account_unsettled_outcome (DuplicateReceipt st) r =
    (False, count_terminal st (r\<lparr>br_duplicate_receipts := sat_add_u32 (br_duplicate_receipts r) 1\<rparr>))"
| "account_unsettled_outcome (LeaseLost _) r =
    (False, r\<lparr>br_leases_lost := sat_add_u32 (br_leases_lost r) 1\<rparr>)"

definition record_unsettled ::
  "sha \<Rightarrow> leased_observation \<Rightarrow> delivery_receipt \<Rightarrow> micros \<Rightarrow> batch_report \<Rightarrow> (bool \<times> batch_report) runtime" where
  "record_unsettled sha item receipt retry_after r =
    rt_bind (journal_call (record_unsettled_attempt sha receipt (lo_lease_id item) retry_after)) (\<lambda>outcome.
    rt_return (account_unsettled_outcome outcome r))"

definition record_cancelled ::
  "sha \<Rightarrow> leased_observation \<Rightarrow> micros \<Rightarrow> micros \<Rightarrow> micros \<Rightarrow> batch_report \<Rightarrow> batch_report runtime" where
  "record_cancelled sha item started finished retry_after r =
    rt_bind (rt_result (from_cancelled sha item started finished)) (\<lambda>receipt.
    rt_bind (record_unsettled sha item receipt retry_after r) (\<lambda>(_, r'). rt_return r'))"

definition count_refusal :: "attempt_refusal_outcome \<Rightarrow> batch_report \<Rightarrow> batch_report" where
  "count_refusal out r = (case out of
      RefusalRecorded \<Rightarrow> r\<lparr>br_refusals_recorded := sat_add_u32 (br_refusals_recorded r) 1\<rparr>
    | RefusalAlreadyRecorded \<Rightarrow> r\<lparr>br_duplicate_refusals := sat_add_u32 (br_duplicate_refusals r) 1\<rparr>
    | RefusalLeaseLost \<Rightarrow> r)"

definition persist_rejected_terminal ::
  "sha \<Rightarrow> leased_observation \<Rightarrow> attempt_refusal \<Rightarrow> delivery_receipt \<Rightarrow> micros \<Rightarrow> batch_report \<Rightarrow>
    (bool \<times> batch_report) runtime" where
  "persist_rejected_terminal sha item refusal receipt retry_after r =
    rt_bind (journal_call (record_refused_terminal_attempt sha refusal receipt (lo_lease_id item) retry_after))
      (\<lambda>(refused, outcome). rt_return (account_unsettled_outcome outcome (count_refusal refused r)))"

definition push_failure :: "leased_observation \<Rightarrow> bool \<Rightarrow> adapter_failure \<Rightarrow> batch_report \<Rightarrow> batch_report" where
  "push_failure item released cause r =
    r\<lparr>br_failures := br_failures r @ [\<lparr>df_observation_id = lo_observation_id item,
      df_attempt_number = lo_attempt_number item, df_lease_released = released, df_cause = cause\<rparr>]\<rparr>"

definition fail_attempt :: "leased_observation \<Rightarrow> adapter_failure \<Rightarrow> micros \<Rightarrow> batch_report \<Rightarrow> batch_report runtime" where
  "fail_attempt item cause retry_after r =
    rt_bind (release (lo_lease_id item) retry_after) (\<lambda>released.
    rt_return (push_failure item released cause (count_release released r)))"

subsection \<open>Judging a terminal\<close>

definition verify_terminal :: "leased_observation \<Rightarrow> terminal_record \<Rightarrow> terminal_mismatch + unit" where
  "verify_terminal leased t =
    (if tr_operation t \<noteq> Observe
     then Inl \<lparr>tm_field = ''operation_kind'', tm_expected = operation_as_wire Observe,
       tm_provided = operation_as_wire (tr_operation t)\<rparr>
     else if tr_provider_id t \<noteq> pt_provider_id (lo_target leased)
     then Inl \<lparr>tm_field = ''provider_id'', tm_expected = pt_provider_id (lo_target leased),
       tm_provided = tr_provider_id t\<rparr>
     else if tr_exact_scope_sha256 t \<noteq> lo_exact_scope_sha256 leased
     then Inl \<lparr>tm_field = ''exact_scope_sha256'', tm_expected = lo_exact_scope_sha256 leased,
       tm_provided = tr_exact_scope_sha256 t\<rparr>
     else Inr ())"

definition refusal_record ::
  "leased_observation \<Rightarrow> terminal_record \<Rightarrow> refusal_category \<Rightarrow> string \<Rightarrow> string option \<Rightarrow> string option \<Rightarrow>
    string \<Rightarrow> micros \<Rightarrow> micros \<Rightarrow> attempt_refusal" where
  "refusal_record item t category field expected provided detail started finished =
    (let finished = max finished started in
     \<lparr>ar_observation_id = lo_observation_id item, ar_attempt_number = lo_attempt_number item,
      ar_idempotency_key = lo_idempotency_key item, ar_provider_id = pt_provider_id (lo_target item),
      ar_provider_instance_id = bound_text (pt_provider_instance_id (lo_target item)),
      ar_registration_revision = pt_registration_revision (lo_target item),
      ar_exact_scope_sha256 = lo_exact_scope_sha256 item, ar_category = category,
      ar_refused_field = bound_text field, ar_expected = map_option bound_text expected,
      ar_provided = map_option bound_text provided, ar_detail = bound_text detail,
      ar_terminal_operation = operation_as_wire (tr_operation t),
      ar_terminal_code = terminal_code_as_wire (tr_terminal_code t),
      ar_terminal_operation_id = bound_text (tr_operation_id t),
      ar_provider_receipt_digest = bound_digest (tr_provider_receipt_sha256 t),
      ar_started_at = started, ar_finished_at = finished, ar_recorded_at = finished\<rparr>)"

text \<open>A terminal that is not accepted as delivery evidence: the refusal and an unknown-effect
  receipt are stored together, and the failure is reported.\<close>
definition refuse_terminal ::
  "sha \<Rightarrow> leased_observation \<Rightarrow> attempt_refusal \<Rightarrow> adapter_failure \<Rightarrow> micros \<Rightarrow> micros \<Rightarrow> micros \<Rightarrow>
    batch_report \<Rightarrow> batch_report runtime" where
  "refuse_terminal sha item refusal cause started finished retry_after r =
    rt_bind (rt_result (from_refused_terminal sha item started finished)) (\<lambda>receipt.
    rt_bind (persist_rejected_terminal sha item refusal receipt retry_after r) (\<lambda>(released, r').
    rt_return (push_failure item released cause r')))"

subsection \<open>One round\<close>

record round_env =
  re_cancelled_at_start :: bool
  re_cancelled_before :: "leased_observation \<Rightarrow> bool"
  re_deliver :: "leased_observation \<Rightarrow> micros \<Rightarrow> adapter_failure + delivery_attempt"
  re_meanwhile :: "leased_observation \<Rightarrow> journal_event list"
  re_cancelled_after :: "leased_observation \<Rightarrow> bool"

definition count_in_flight :: "batch_report \<Rightarrow> batch_report" where
  "count_in_flight r = r\<lparr>br_cancelled_in_flight := sat_add_u32 (br_cancelled_in_flight r) 1\<rparr>"

definition release_unattempted :: "leased_observation \<Rightarrow> micros \<Rightarrow> batch_report \<Rightarrow> batch_report runtime" where
  "release_unattempted item now r =
    rt_bind (release (lo_lease_id item) now) (\<lambda>released.
    rt_return ((count_release released r)\<lparr>br_cancelled_before_dispatch :=
      sat_add_u32 (br_cancelled_before_dispatch (count_release released r)) 1\<rparr>))"

definition release_unanswered :: "leased_observation \<Rightarrow> micros \<Rightarrow> batch_report \<Rightarrow> batch_report runtime" where
  "release_unanswered item retry_after r =
    rt_bind (release (lo_lease_id item) retry_after) (\<lambda>released. rt_return (count_release released r))"

text \<open>What becomes of an attempt that returned; \<^verbatim>\<open>cancelled\<close> is the token as read then.\<close>
fun settle_attempt ::
  "sha \<Rightarrow> retention_policy \<Rightarrow> (api_error \<Rightarrow> string) \<Rightarrow> leased_observation \<Rightarrow> bool \<Rightarrow> micros \<Rightarrow> micros \<Rightarrow>
    delivery_attempt \<Rightarrow> batch_report \<Rightarrow> batch_report runtime" where
  "settle_attempt sha policy api item cancelled now retry_after Unanswered r = release_unanswered item retry_after r"
| "settle_attempt sha policy api item cancelled now retry_after (CancelledByShutdown started finished) r =
    (if cancelled then record_cancelled sha item started finished now (count_in_flight r)
     else release_unanswered item retry_after r)"
| "settle_attempt sha policy api item cancelled now retry_after
    (RejectedTerminal t category field expected provided cause started finished) r =
    (if cancelled then record_cancelled sha item started finished now (count_in_flight r)
     else refuse_terminal sha item (refusal_record item t category field expected provided cause started finished)
       cause started finished retry_after r)"
| "settle_attempt sha policy api item cancelled now retry_after (Answered t started finished) r =
    (if cancelled then record_cancelled sha item started finished now (count_in_flight r)
     else case verify_terminal item t of
       Inl m \<Rightarrow> refuse_terminal sha item
         (refusal_record item t TerminalIdentityMismatch (tm_field m) (Some (tm_expected m)) (Some (tm_provided m))
           (mismatch_text m) started finished)
         (mismatch_text m) started finished retry_after r
     | Inr _ \<Rightarrow> (case from_terminal sha t item started finished of
         Inl cause \<Rightarrow> refuse_terminal sha item
           (refusal_record item t ReceiptNotAdmissible ''terminal_record'' None
             (Some (terminal_code_as_wire (tr_terminal_code t))) (journal_error_text api cause) started finished)
           (journal_error_text api cause) started finished retry_after r
       | Inr receipt \<Rightarrow> runtime_record sha policy receipt r))"

definition dispatch_item ::
  "sha \<Rightarrow> retention_policy \<Rightarrow> (api_error \<Rightarrow> string) \<Rightarrow> round_env \<Rightarrow> dispatch_request \<Rightarrow> leased_observation \<Rightarrow>
    batch_report \<Rightarrow> batch_report runtime" where
  "dispatch_item sha policy api env q item r s =
    (let now = lr_now (dq_lease q); retry_after = next_attempt_at (dq_retry_backoff q) now (lo_attempt_number item);
         deadline = min (min (sat_add_i64 now (dq_attempt_budget q)) (lo_deadline item)) (lo_lease_expires_at item)
     in if re_cancelled_before env item then release_unattempted item now r s
        else
          let s1 = fold (run_journal sha policy) (re_meanwhile env item) s
          in case re_deliver env item deadline of
            Inl cause \<Rightarrow> fail_attempt item cause retry_after r s1
          | Inr attempt \<Rightarrow> settle_attempt sha policy api item (re_cancelled_after env item) now retry_after attempt r s1)"

fun dispatch_items ::
  "sha \<Rightarrow> retention_policy \<Rightarrow> (api_error \<Rightarrow> string) \<Rightarrow> round_env \<Rightarrow> dispatch_request \<Rightarrow> leased_observation list \<Rightarrow>
    batch_report \<Rightarrow> batch_report runtime" where
  "dispatch_items sha policy api env q [] r = rt_return r"
| "dispatch_items sha policy api env q (item # items) r =
    rt_bind (dispatch_item sha policy api env q item r) (dispatch_items sha policy api env q items)"

definition dispatch_batch ::
  "sha \<Rightarrow> retention_policy \<Rightarrow> (api_error \<Rightarrow> string) \<Rightarrow> round_env \<Rightarrow> dispatch_request \<Rightarrow> batch_report runtime" where
  "dispatch_batch sha policy api env q s =
    (if dq_attempt_budget q \<le> 0 then (Inl (InvalidDispatchRequest ''attempt_budget_micros''), s)
     else rt_bind (rt_result (backoff_validate (dq_retry_backoff q))) (\<lambda>_.
       if re_cancelled_at_start env then rt_return default_report
       else rt_bind (journal_call (lease_pending sha policy (dq_lease q))) (\<lambda>leased.
         dispatch_items sha policy api env q leased
           (default_report\<lparr>br_leased := min (length leased) u32_max\<rparr>))) s)"

subsection \<open>Draining\<close>

datatype drain_stop = Quiesced | RoundBudgetReached | BudgetElapsed | CallerYield | DrainShutdownRequested

record drain_report =
  dn_rounds :: nat
  dn_totals :: batch_report
  dn_stop :: drain_stop

definition default_drain_report :: drain_report where
  "default_drain_report = \<lparr>dn_rounds = 0, dn_totals = default_report, dn_stop = Quiesced\<rparr>"

definition more_work_pending :: "drain_report \<Rightarrow> bool" where
  "more_work_pending r \<longleftrightarrow> dn_stop r \<noteq> Quiesced"

text \<open>What one iteration of the drain reads from its environment.\<close>
record drain_tick =
  dt_cancelled :: bool
  dt_continue :: bool
  dt_cancelled_after :: bool
  dt_now :: micros
  dt_round :: round_env

partial_function (option) drain_loop ::
  "sha \<Rightarrow> retention_policy \<Rightarrow> (api_error \<Rightarrow> string) \<Rightarrow> dispatch_request \<Rightarrow> drain_bounds \<Rightarrow> (nat \<Rightarrow> drain_tick) \<Rightarrow>
    nat \<Rightarrow> drain_report \<Rightarrow> journal_store \<Rightarrow> ((runtime_error + drain_report) \<times> journal_store) option" where
  "drain_loop sha policy api template bounds ticks k report s =
    (let tick = ticks k in
     if dt_cancelled tick then Some (Inr (report\<lparr>dn_stop := DrainShutdownRequested\<rparr>), s)
     else if \<not> dt_continue tick then
       Some (Inr (report\<lparr>dn_stop := if dt_cancelled_after tick then DrainShutdownRequested else CallerYield\<rparr>), s)
     else if db_max_rounds bounds \<le> dn_rounds report then Some (Inr (report\<lparr>dn_stop := RoundBudgetReached\<rparr>), s)
     else if db_deadline bounds \<le> dt_now tick then Some (Inr (report\<lparr>dn_stop := BudgetElapsed\<rparr>), s)
     else case dispatch_batch sha policy api (dt_round tick) (template\<lparr>dq_lease := (dq_lease template)\<lparr>lr_now := dt_now tick\<rparr>\<rparr>) s of
         (Inl e, s') \<Rightarrow> Some (Inl e, s')
       | (Inr round, s') \<Rightarrow>
           let report' = report\<lparr>dn_rounds := sat_add_u32 (dn_rounds report) 1, dn_totals := report_absorb (dn_totals report) round\<rparr>
           in if br_leased round = 0 then Some (Inr (report'\<lparr>dn_stop := Quiesced\<rparr>), s')
              else drain_loop sha policy api template bounds ticks (Suc k) report' s')"

definition drain ::
  "sha \<Rightarrow> retention_policy \<Rightarrow> (api_error \<Rightarrow> string) \<Rightarrow> dispatch_request \<Rightarrow> drain_bounds \<Rightarrow> (nat \<Rightarrow> drain_tick) \<Rightarrow>
    journal_store \<Rightarrow> ((runtime_error + drain_report) \<times> journal_store) option" where
  "drain sha policy api template bounds ticks s =
    (if db_max_rounds bounds = 0 then Some (Inl (InvalidDispatchRequest ''max_rounds''), s)
     else drain_loop sha policy api template bounds ticks 0 default_drain_report s)"

subsection \<open>Reaping and shutdown\<close>

definition runtime_reap :: "retention_policy \<Rightarrow> micros \<Rightarrow> nat \<Rightarrow> nat runtime" where
  "runtime_reap policy now budget = journal_call (reap_expired_leases policy now budget)"

record shutdown_request =
  sq_provider_id :: string
  sq_now :: micros
  sq_reap_budget :: nat

record shutdown_report =
  sd_leases_reaped :: nat
  sd_leases_outstanding :: nat
  sd_quiesced :: bool

definition shutdown ::
  "retention_policy \<Rightarrow> shutdown_request \<Rightarrow> wake_state \<times> journal_store \<Rightarrow>
    (runtime_error + shutdown_report) \<times> wake_state \<times> journal_store" where
  "shutdown policy q = (\<lambda>(w, s).
    let (out, s') = rt_bind (journal_call (reap_expired_leases policy (sq_now q) (sq_reap_budget q))) (\<lambda>reaped s1.
        rt_bind (rt_result (inspect (default_inspection_filter\<lparr>if_provider_id := Some (sq_provider_id q),
            if_states := [Leased], if_limit := 1\<rparr>) s1)) (\<lambda>page.
          rt_return \<lparr>sd_leases_reaped = reaped, sd_leases_outstanding = ip_total_rows page,
            sd_quiesced = (ip_total_rows page = 0)\<rparr>) s1) s
    in (out, request_shutdown w, s'))"

end
