(* ===== verification/Delivery_Drain.thy ===== *)
theory Delivery_Drain
  imports Delivery_Runtime
begin

text \<open>
  Correctness of the delivery runtime.  Every round and every drain refines the journal's
  interface: the store it leaves is one that a sequence of journal operations leaves, so all
  journal invariants carry over, and a drain returns within its round bound.
\<close>

subsection \<open>The runtime refines the journal\<close>

definition journal_trace :: "sha \<Rightarrow> retention_policy \<Rightarrow> journal_store \<Rightarrow> journal_store \<Rightarrow> bool" where
  "journal_trace sha policy s s' \<longleftrightarrow> (\<exists>es. s' = fold (run_journal sha policy) es s)"

lemma journal_trace_refl [simp]: "journal_trace sha policy s s"
  unfolding journal_trace_def by (rule exI [of _ "[]"]) simp

lemma journal_trace_trans: "journal_trace sha policy a b \<Longrightarrow> journal_trace sha policy b c \<Longrightarrow> journal_trace sha policy a c"
  unfolding journal_trace_def
proof (elim exE)
  fix es es' assume "b = fold (run_journal sha policy) es a" "c = fold (run_journal sha policy) es' b"
  then show "\<exists>es. c = fold (run_journal sha policy) es a" by (intro exI [of _ "es @ es'"]) simp
qed

lemma journal_trace_event: "journal_trace sha policy s (run_journal sha policy e s)"
  unfolding journal_trace_def by (rule exI [of _ "[e]"]) simp

lemma journal_trace_fold: "journal_trace sha policy s (fold (run_journal sha policy) es s)"
  unfolding journal_trace_def by blast

text \<open>A runtime step whose effect on the store is a sequence of journal operations.\<close>
definition refines_journal :: "sha \<Rightarrow> retention_policy \<Rightarrow> 'a runtime \<Rightarrow> bool" where
  "refines_journal sha policy m \<longleftrightarrow> (\<forall>s. journal_trace sha policy s (snd (m s)))"

lemma refines_bind [intro!]:
  assumes "refines_journal sha policy m" "\<And>x. refines_journal sha policy (f x)"
  shows "refines_journal sha policy (rt_bind m f)"
proof -
  have "journal_trace sha policy s (snd (rt_bind m f s))" for s
  proof -
    obtain out s1 where run: "m s = (out, s1)" by (cases "m s")
    then have first: "journal_trace sha policy s s1" using assms(1) by (metis refines_journal_def snd_conv)
    show ?thesis
    proof (cases out)
      case (Inr x)
      have "journal_trace sha policy s1 (snd (f x s1))" using assms(2) by (simp add: refines_journal_def)
      with first show ?thesis by (simp add: rt_bind_def run Inr) (rule journal_trace_trans)
    qed (simp add: rt_bind_def run first)
  qed
  then show ?thesis by (simp add: refines_journal_def)
qed

lemma refines_return [intro!, simp]: "refines_journal sha policy (rt_return x)"
  by (simp add: refines_journal_def rt_return_def)

lemma refines_result [intro!, simp]: "refines_journal sha policy (rt_result r)"
  by (simp add: refines_journal_def rt_result_def split: sum.split)

lemma snd_journal_call [simp]: "snd (journal_call op s) = snd (op s)"
  by (cases "op s") (simp add: journal_call_def split: sum.split)

lemma snd_release [simp]: "snd (release lease retry s) = snd (release_lease lease retry s)"
  by (cases "release_lease lease retry s") (simp add: release_def split: sum.split observation_journal_error.split)

lemma refines_calls [intro!, simp]:
  "refines_journal sha policy (release lease retry)"
  "refines_journal sha policy (journal_call (record_attempt sha policy receipt))"
  "refines_journal sha policy (journal_call (record_unsettled_attempt sha receipt lease retry))"
  "refines_journal sha policy (journal_call (record_refused_terminal_attempt sha refusal receipt lease retry))"
  "refines_journal sha policy (journal_call (lease_pending sha policy q))"
  unfolding refines_journal_def snd_journal_call snd_release
  using journal_trace_event [of sha policy _ "ReleaseEvent lease retry"] journal_trace_event [of sha policy _ "AttemptEvent receipt"]
    journal_trace_event [of sha policy _ "UnsettledEvent receipt lease retry"]
    journal_trace_event [of sha policy _ "RefusedTerminalEvent refusal receipt lease retry"]
    journal_trace_event [of sha policy _ "LeaseEvent q"]
  by simp_all

lemma refines_split [intro]: "(\<And>a b. refines_journal sha policy (f a b)) \<Longrightarrow> refines_journal sha policy (case x of (a, b) \<Rightarrow> f a b)"
  by (cases x) simp

lemmas runtime_steps = record_unsettled_def record_cancelled_def persist_rejected_terminal_def fail_attempt_def
  refuse_terminal_def release_unattempted_def release_unanswered_def runtime_record_def

lemma settle_attempt_refines: "refines_journal sha policy (settle_attempt sha policy api item cancelled now retry attempt r)"
  by (cases attempt) (auto simp: runtime_steps split: sum.split)

lemma refinesD: "refines_journal sha policy m \<Longrightarrow> journal_trace sha policy s (snd (m s))"
  by (simp add: refines_journal_def)

lemma dispatch_item_refines: "refines_journal sha policy (dispatch_item sha policy api env q item r)"
proof -
  have steps: "refines_journal sha policy (release_unattempted item now r)"
    "refines_journal sha policy (fail_attempt item cause retry r)" for now cause retry
    by (auto simp: runtime_steps)
  have later: "journal_trace sha policy s (snd (m (fold (run_journal sha policy) es s)))"
    if "refines_journal sha policy m" for m :: "batch_report runtime" and es s
    by (rule journal_trace_trans [OF journal_trace_fold refinesD [OF that]])
  have "journal_trace sha policy s (snd (dispatch_item sha policy api env q item r s))" for s
    unfolding dispatch_item_def Let_def
    by (simp add: refinesD [OF steps(1)] later [OF steps(2)] later [OF settle_attempt_refines] split: sum.split)
  then show ?thesis by (simp add: refines_journal_def)
qed

lemma dispatch_items_refines: "refines_journal sha policy (dispatch_items sha policy api env q items r)"
  by (induction items arbitrary: r) (auto intro: dispatch_item_refines)

lemma dispatch_batch_refines: "refines_journal sha policy (dispatch_batch sha policy api env q)"
proof -
  let ?m = "rt_bind (rt_result (backoff_validate (dq_retry_backoff q))) (\<lambda>_.
       if re_cancelled_at_start env then rt_return default_report
       else rt_bind (journal_call (lease_pending sha policy (dq_lease q))) (\<lambda>leased.
         dispatch_items sha policy api env q leased (default_report\<lparr>br_leased := min (length leased) u32_max\<rparr>)))"
  have "refines_journal sha policy ?m" by (auto intro: dispatch_items_refines)
  then show ?thesis
    by (cases "dq_attempt_budget q \<le> 0") (simp_all add: refines_journal_def dispatch_batch_def split del: if_split)
qed

subsection \<open>Failures are bounded by the batch\<close>

lemma pack_batch_items:
  "pack_batch sha q rows picked bytes = Inr res \<Longrightarrow> length picked \<le> lr_max_items q \<Longrightarrow> 0 < lr_max_items q \<Longrightarrow>
    length res \<le> lr_max_items q"
proof (induction rows arbitrary: picked bytes)
  case (Cons row rows)
  obtain d j where row: "row = (d, j)" by force
  show ?case
  proof (cases "lr_max_items q \<le> length picked")
    case False
    obtain item where run: "(let c = (item, d_state d, lo_attempt_number item - 1); w = leased_queue_bytes item
      in if picked = [] \<and> lr_max_bytes q < w then Inr [c]
         else if lr_max_bytes q < sat_add_u64 bytes w then pack_batch sha q rows picked bytes
         else pack_batch sha q rows (picked @ [c]) (sat_add_u64 bytes w)) = Inr res"
      using Cons.prems(1) False by (auto simp: row Let_def res_bind_Inr_iff)
    show ?thesis using run Cons.IH Cons.prems(2,3) False by (force simp: Let_def split: if_splits)
  qed (use Cons.prems row in simp)
qed simp

lemma claim_each_length: "length (fst (claim_each q cs ds)) \<le> length cs"
  by (induction cs arbitrary: ds) (auto simp: split_beta Let_def le_SucI)

lemma lease_batch_items:
  assumes "lease_pending sha policy q s = (Inr batch, s')"
  shows "length batch \<le> lr_max_items q"
proof -
  obtain s2 cs where run: "pack_batch sha q (select_ready s2 q policy) [] 0 = Inr cs"
    "claim_each q cs (st_delivery s2) = (batch, st_delivery s')"
    by (rule lease_phases [OF lease_run(1) [OF assms]])
  have "length batch \<le> length cs" using claim_each_length [of q cs "st_delivery s2"] run(2) by simp
  also have "length cs \<le> lr_max_items q" by (rule pack_batch_items [OF run(1) _ lease_run(2) [OF assms]]) simp
  finally show ?thesis .
qed

lemma rt_bind_Inr:
  assumes "rt_bind m f s = (Inr y, s')"
  obtains x s1 where "m s = (Inr x, s1)" "f x s1 = (Inr y, s')"
  using assms by (auto simp: rt_bind_def split: prod.splits sum.splits)

lemma report_failures [simp]:
  "br_failures (count_release b r) = br_failures r" "br_failures (count_terminal st r) = br_failures r"
  "br_failures (count_retry n r) = br_failures r" "br_failures (count_refusal out r) = br_failures r"
  "br_failures (account_recorded outcome r) = br_failures r"
  "br_failures (snd (account_unsettled_outcome outcome r)) = br_failures r"
  "br_failures (count_in_flight r) = br_failures r" "length (br_failures (push_failure item b cause r)) = Suc (length (br_failures r))"
  "br_failures default_report = []" "br_failures (report_absorb a c) = br_failures a @ br_failures c"
  by (auto simp: count_release_def count_terminal_def count_retry_def count_refusal_def count_in_flight_def push_failure_def
      default_report_def report_absorb_def split: attempt_refusal_outcome.split)
    (cases outcome; simp add: count_terminal_def count_retry_def)+

lemma unsettled_failures: "account_unsettled_outcome outcome r = (b, r') \<Longrightarrow> br_failures r' = br_failures r"
  using report_failures(6) [of outcome r] by simp

text \<open>Every attempt that returned ends in one of four ways.\<close>
lemma settle_attempt_cases:
  obtains (unanswered) "settle_attempt sha policy api item cancelled now retry attempt r = release_unanswered item retry r"
  | (cancelled) started finished where "cancelled"
      "settle_attempt sha policy api item cancelled now retry attempt r =
        record_cancelled sha item started finished now (count_in_flight r)"
  | (refused) refusal cause started finished where "\<not> cancelled"
      "settle_attempt sha policy api item cancelled now retry attempt r =
        refuse_terminal sha item refusal cause started finished retry r"
  | (answered) t started finished receipt where "\<not> cancelled" "attempt = Answered t started finished"
      "verify_terminal item t = Inr ()" "from_terminal sha t item started finished = Inr receipt"
      "settle_attempt sha policy api item cancelled now retry attempt r = runtime_record sha policy receipt r"
proof (cases attempt)
  case (Answered t started finished)
  with refused answered show thesis
    by (cases cancelled; cases "verify_terminal item t"; cases "from_terminal sha t item started finished")
      (auto intro: cancelled)
qed (cases cancelled; auto intro: unanswered cancelled refused)+

definition adds_failures :: "nat \<Rightarrow> batch_report \<Rightarrow> batch_report runtime \<Rightarrow> bool" where
  "adds_failures n r m \<longleftrightarrow> (\<forall>s r' s'. m s = (Inr r', s') \<longrightarrow> length (br_failures r') \<le> length (br_failures r) + n)"

lemma step_failures:
  "adds_failures 1 r (release_unanswered item retry r)" "adds_failures 1 r (release_unattempted item now r)"
  "adds_failures 1 r (fail_attempt item cause retry r)" "adds_failures 1 r (runtime_record sha policy receipt r)"
  "adds_failures 1 r (record_cancelled sha item started finished now (count_in_flight r))"
  "adds_failures 1 r (refuse_terminal sha item refusal cause started finished retry r)"
  unfolding adds_failures_def
  by (auto simp: runtime_steps rt_return_def rt_result_def split: sum.splits elim!: rt_bind_Inr
      dest!: unsettled_failures)

lemma settle_attempt_failures:
  "adds_failures 1 r (settle_attempt sha policy api item cancelled now retry attempt r)"
  by (rule settle_attempt_cases [of sha policy api item cancelled now retry attempt r]) (simp_all add: step_failures del: One_nat_def)

lemma dispatch_item_failures: "adds_failures 1 r (dispatch_item sha policy api env q item r)"
  unfolding adds_failures_def dispatch_item_def Let_def
  using step_failures(2,3) [of r] settle_attempt_failures [of r] unfolding adds_failures_def
  by (simp split: sum.split del: One_nat_def)

lemma dispatch_items_failures: "adds_failures (length items) r (dispatch_items sha policy api env q items r)"
proof (induction items arbitrary: r)
  case (Cons item items)
  show ?case
    unfolding adds_failures_def
  proof (intro allI impI)
    fix s r' s' assume "dispatch_items sha policy api env q (item # items) r s = (Inr r', s')"
    then obtain r1 s1 where "dispatch_item sha policy api env q item r s = (Inr r1, s1)"
      "dispatch_items sha policy api env q items r1 s1 = (Inr r', s')" by (auto elim: rt_bind_Inr)
    then have "length (br_failures r1) \<le> length (br_failures r) + 1" "length (br_failures r') \<le> length (br_failures r1) + length items"
      using dispatch_item_failures Cons.IH unfolding adds_failures_def by blast+
    then show "length (br_failures r') \<le> length (br_failures r) + length (item # items)" by simp
  qed
qed (simp add: adds_failures_def rt_return_def)

lemma dispatch_batch_run:
  assumes "dispatch_batch sha policy api env q s = (Inr r, s')"
  obtains (cancelled) "re_cancelled_at_start env" "r = default_report" "s' = s"
  | (leased) batch s1 where "\<not> re_cancelled_at_start env" "lease_pending sha policy (dq_lease q) s = (Inr batch, s1)"
      "dispatch_items sha policy api env q batch (default_report\<lparr>br_leased := min (length batch) u32_max\<rparr>) s1 = (Inr r, s')"
  using assms unfolding dispatch_batch_def
  by (auto simp: rt_result_def rt_return_def journal_call_def split: if_splits sum.splits prod.splits elim!: rt_bind_Inr)

lemma dispatch_batch_failures:
  assumes "dispatch_batch sha policy api env q s = (Inr r, s')"
  shows "length (br_failures r) \<le> lr_max_items (dq_lease q)"
  using assms
proof (cases rule: dispatch_batch_run)
  case (leased batch s1)
  then have "length (br_failures r) \<le> length batch"
    using dispatch_items_failures [of batch "default_report\<lparr>br_leased := min (length batch) u32_max\<rparr>"]
    unfolding adds_failures_def by fastforce
  with lease_batch_items [OF leased(2)] show ?thesis by simp
qed simp

subsection \<open>Drains\<close>

lemma drain_loop_trace:
  assumes "drain_loop sha policy api template bounds ticks k report s = Some out"
  shows "journal_trace sha policy s (snd out)"
proof (rule drain_loop.raw_induct [where P = "\<lambda>sha policy api template bounds ticks k report s out. journal_trace sha policy s (snd out)", OF _ assms])
  fix loop sha policy api template bounds ticks k report s out
  assume IH: "\<And>sha policy api template bounds ticks k report s out.
      loop sha policy api template bounds ticks k report s = Some out \<Longrightarrow> journal_trace sha policy s (snd out)"
    and body: "(let tick = ticks k in
     if dt_cancelled tick then Some (Inr (report\<lparr>dn_stop := DrainShutdownRequested\<rparr>), s)
     else if \<not> dt_continue tick then
       Some (Inr (report\<lparr>dn_stop := if dt_cancelled_after tick then DrainShutdownRequested else CallerYield\<rparr>), s)
     else if db_max_rounds bounds \<le> dn_rounds report then Some (Inr (report\<lparr>dn_stop := RoundBudgetReached\<rparr>), s)
     else if db_deadline bounds \<le> dt_now tick then Some (Inr (report\<lparr>dn_stop := BudgetElapsed\<rparr>), s)
     else case dispatch_batch sha policy api (dt_round tick) (template\<lparr>dq_lease := (dq_lease template)\<lparr>lr_now := dt_now tick\<rparr>\<rparr>) s of
         (Inl e, s') \<Rightarrow> Some (Inl e, s')
       | (Inr round, s') \<Rightarrow>
           let report' = report\<lparr>dn_rounds := sat_add_u32 (dn_rounds report) 1, dn_totals := report_absorb (dn_totals report) round\<rparr>
           in if br_leased round = 0 then Some (Inr (report'\<lparr>dn_stop := Quiesced\<rparr>), s')
              else loop sha policy api template bounds ticks (Suc k) report' s') = Some out"
  let ?q = "template\<lparr>dq_lease := (dq_lease template)\<lparr>lr_now := dt_now (ticks k)\<rparr>\<rparr>"
  obtain res s1 where run: "dispatch_batch sha policy api (dt_round (ticks k)) ?q s = (res, s1)"
    by (cases "dispatch_batch sha policy api (dt_round (ticks k)) ?q s")
  then have first: "journal_trace sha policy s s1" using refinesD [OF dispatch_batch_refines] by (metis snd_conv)
  have "snd out = s \<or> snd out = s1 \<or> (\<exists>report'. loop sha policy api template bounds ticks (Suc k) report' s1 = Some out)"
    using body unfolding Let_def run by (auto split: if_splits sum.splits)
  then show "journal_trace sha policy s (snd out)"
    using first IH journal_trace_trans [OF first] by (metis journal_trace_refl)
qed


text \<open>The loop stops without another round, or it runs one.\<close>
definition drain_stops :: "drain_bounds \<Rightarrow> drain_tick \<Rightarrow> nat \<Rightarrow> bool" where
  "drain_stops bounds tick rounds \<longleftrightarrow> dt_cancelled tick \<or> \<not> dt_continue tick \<or> db_max_rounds bounds \<le> rounds \<or>
    db_deadline bounds \<le> dt_now tick"

definition stop_reason :: "drain_bounds \<Rightarrow> drain_tick \<Rightarrow> nat \<Rightarrow> drain_stop" where
  "stop_reason bounds tick rounds =
    (if dt_cancelled tick then DrainShutdownRequested
     else if \<not> dt_continue tick then (if dt_cancelled_after tick then DrainShutdownRequested else CallerYield)
     else if db_max_rounds bounds \<le> rounds then RoundBudgetReached else BudgetElapsed)"

lemma stop_reason_not_quiesced [simp]: "stop_reason bounds tick rounds \<noteq> Quiesced"
  by (simp add: stop_reason_def)

lemma drain_loop_stop:
  assumes "drain_stops bounds (ticks k) (dn_rounds report)"
  shows "drain_loop sha policy api template bounds ticks k report s =
    Some (Inr (report\<lparr>dn_stop := stop_reason bounds (ticks k) (dn_rounds report)\<rparr>), s)"
  using assms unfolding drain_stops_def stop_reason_def by (subst drain_loop.simps) (auto simp: Let_def)

lemma drain_loop_round:
  assumes "\<not> drain_stops bounds (ticks k) (dn_rounds report)"
    "dispatch_batch sha policy api (dt_round (ticks k)) (template\<lparr>dq_lease := (dq_lease template)\<lparr>lr_now := dt_now (ticks k)\<rparr>\<rparr>) s = (out, s1)"
  shows "drain_loop sha policy api template bounds ticks k report s = (case out of Inl e \<Rightarrow> Some (Inl e, s1)
    | Inr round \<Rightarrow>
        let report' = report\<lparr>dn_rounds := sat_add_u32 (dn_rounds report) 1, dn_totals := report_absorb (dn_totals report) round\<rparr>
        in if br_leased round = 0 then Some (Inr (report'\<lparr>dn_stop := Quiesced\<rparr>), s1)
           else drain_loop sha policy api template bounds ticks (Suc k) report' s1)"
  using assms unfolding drain_stops_def
  by (subst drain_loop.simps) (simp add: Let_def split: sum.split split del: if_split)

lemma drain_loop_returns:
  assumes "db_max_rounds bounds \<le> u32_max" "dn_rounds report \<le> db_max_rounds bounds"
    "length (br_failures (dn_totals report)) \<le> dn_rounds report * lr_max_items (dq_lease template)"
  shows "\<exists>res s'. drain_loop sha policy api template bounds ticks k report s = Some (res, s') \<and>
    (\<forall>rep. res = Inr rep \<longrightarrow> dn_rounds rep \<le> db_max_rounds bounds \<and>
      length (br_failures (dn_totals rep)) \<le> dn_rounds rep * lr_max_items (dq_lease template))"
  using assms(2,3)
proof (induction "db_max_rounds bounds - dn_rounds report" arbitrary: k report s rule: less_induct)
  case less
  let ?q = "template\<lparr>dq_lease := (dq_lease template)\<lparr>lr_now := dt_now (ticks k)\<rparr>\<rparr>"
  show ?case
  proof (cases "drain_stops bounds (ticks k) (dn_rounds report)")
    case True
    then show ?thesis using less.prems by (simp add: drain_loop_stop)
  next
    case False
    obtain out s1 where run: "dispatch_batch sha policy api (dt_round (ticks k)) ?q s = (out, s1)"
      by (cases "dispatch_batch sha policy api (dt_round (ticks k)) ?q s")
    note step = drain_loop_round [where ticks = ticks and k = k, OF False run]
    show ?thesis
    proof (cases out)
      case (Inr round)
      define report' where "report' = report\<lparr>dn_rounds := sat_add_u32 (dn_rounds report) 1,
        dn_totals := report_absorb (dn_totals report) round\<rparr>"
      have rounds: "dn_rounds report' = dn_rounds report + 1" "dn_rounds report < db_max_rounds bounds"
        using False assms(1) by (auto simp: report'_def sat_add_u32_def drain_stops_def)
      have failures: "length (br_failures (dn_totals report')) \<le> dn_rounds report' * lr_max_items (dq_lease template)"
        using less.prems(2) dispatch_batch_failures [OF run [unfolded Inr]] rounds by (simp add: report'_def)
      show ?thesis
        unfolding step Inr sum.case Let_def report'_def [symmetric]
        using less.hyps [of report' "Suc k" s1] rounds failures by auto
    qed (simp add: step)
  qed
qed

text \<open>C12. A drain returns: with a round bound that fits its counter it comes back after at most
  that many rounds, whatever the clock, the adapter and the other processes do, and it reports at
  most one failure per item a round may lease.\<close>
theorem drain_terminates:
  assumes "db_max_rounds bounds \<le> u32_max"
  shows "\<exists>res s'. drain sha policy api template bounds ticks s = Some (res, s') \<and>
    (\<forall>report. res = Inr report \<longrightarrow> dn_rounds report \<le> db_max_rounds bounds \<and>
      length (br_failures (dn_totals report)) \<le> db_max_rounds bounds * lr_max_items (dq_lease template))"
proof (cases "db_max_rounds bounds = 0")
  case False
  from drain_loop_returns [OF assms, of default_drain_report template sha policy api ticks 0 s]
  obtain res s' where run: "drain_loop sha policy api template bounds ticks 0 default_drain_report s = Some (res, s')"
    "\<And>rep. res = Inr rep \<Longrightarrow> dn_rounds rep \<le> db_max_rounds bounds \<and>
      length (br_failures (dn_totals rep)) \<le> dn_rounds rep * lr_max_items (dq_lease template)"
    by (auto simp: default_drain_report_def)
  have "length (br_failures (dn_totals rep)) \<le> db_max_rounds bounds * lr_max_items (dq_lease template)" if "res = Inr rep" for rep
    using run(2) [OF that] by (meson mult_le_mono1 order_trans)
  with run False show ?thesis by (auto simp: drain_def)
qed (simp add: drain_def)

subsection \<open>Examples\<close>

text \<open>A provider that answers every delivery with the same terminal, and a drain that keeps asking.\<close>
definition sample_round :: round_env where
  "sample_round = \<lparr>re_cancelled_at_start = False, re_cancelled_before = \<lambda>_. False,
    re_deliver = \<lambda>_ _. Inr (Answered sample_terminal 5 7), re_meanwhile = \<lambda>_. [], re_cancelled_after = \<lambda>_. False\<rparr>"

definition sample_dispatch :: dispatch_request where
  "sample_dispatch = \<lparr>dq_lease = sample_lease_request, dq_retry_backoff = backoff_of sample_policy, dq_attempt_budget = 10\<rparr>"

definition sample_tick :: drain_tick where
  "sample_tick = \<lparr>dt_cancelled = False, dt_continue = True, dt_cancelled_after = False, dt_now = 5, dt_round = sample_round\<rparr>"

definition sample_bounds :: drain_bounds where
  "sample_bounds = \<lparr>db_max_rounds = 3, db_deadline = 40\<rparr>"

lemma sample_drain_facts [simp]:
  "db_max_rounds sample_bounds = 3" "db_deadline sample_bounds = 40" "dq_lease sample_dispatch = sample_lease_request"
  "dq_attempt_budget sample_dispatch = 10" "backoff_validate (dq_retry_backoff sample_dispatch) = Inr ()"
  "re_meanwhile sample_round item = []" "\<not> re_cancelled_at_start sample_round" "dt_round sample_tick = sample_round"
  "dt_now sample_tick = 5" "\<not> dt_cancelled sample_tick" "dt_continue sample_tick"
  "dq_lease_update (\<lambda>_. sample_lease_request) sample_dispatch = sample_dispatch"
  "lr_now_update (\<lambda>_. 5) sample_lease_request = sample_lease_request"
  by (simp_all add: sample_bounds_def sample_dispatch_def sample_round_def sample_tick_def sample_lease_request_def
      backoff_validate_def backoff_of_def sample_policy_def)

theorem drain_terminates_witness:
  "\<exists>res s'. drain zero_sha sample_policy (\<lambda>_. '''') sample_dispatch sample_bounds (\<lambda>_. sample_tick) sample_store = Some (res, s')"
  using drain_terminates [of sample_bounds zero_sha sample_policy "\<lambda>_. ''''" sample_dispatch "\<lambda>_. sample_tick" sample_store]
  by (auto simp: u32_max_def)


end
