(* ===== verification/Delivery_Leases.thy ===== *)
theory Delivery_Leases
  imports Delivery_Drain
begin

text \<open>
  What a dispatch round does with the leases it takes: without interference from other processes
  a completed round leaves none of them behind.
\<close>

subsection \<open>Leases that leasing creates\<close>

definition leased_rows :: "journal_store \<Rightarrow> delivery_row set" where
  "leased_rows s = {d \<in> set (st_delivery s). d_state d = Leased}"

lemma expire_delivery_rows:
  assumes "expire_delivery sha q s = Inr (u, s')" "d \<in> set (st_delivery s')"
  shows "d \<in> set (st_delivery s) \<or> d_state d = er_next_state q"
proof -
  obtain hit r s1 attempt where run: "insert_receipt_row r s = Some s1"
    "s' = s1\<lparr>st_delivery := update_where hit (terminalize_row sha q attempt) (st_delivery s1)\<rparr>"
    using assms(1) by (auto simp: expire_delivery_def Let_def res_bind_Inr_iff split: if_splits option.splits)
  have "st_delivery s1 = st_delivery s" using insert_receipt_row_Some(1) [OF run(1)] by simp
  with assms(2) show ?thesis by (auto simp: run(2) set_update_where terminalize_row_def)
qed

lemma terminalize_each_rows:
  "terminalize_each sha st out why now ds s = Inr (n, s') \<Longrightarrow> d \<in> set (st_delivery s') \<Longrightarrow> d \<in> set (st_delivery s) \<or> d_state d = st"
proof (induction ds arbitrary: s n)
  case (Cons x ds)
  then obtain u s1 n1 where "expire_delivery sha (expire_request_of x st out why now) s = Inr (u, s1)"
    "terminalize_each sha st out why now ds s1 = Inr (n1, s')"
    by (auto simp: res_bind_Inr_iff)
  with Cons.IH [OF this(2) Cons.prems(2)] show ?case
    using expire_delivery_rows by (fastforce simp: expire_request_of_def)
qed simp

lemma terminalize_deliveries_leases:
  "terminalize_deliveries sha ds st out why now s = Inr (n, s') \<Longrightarrow> st \<noteq> Leased \<Longrightarrow> leased_rows s' \<subseteq> leased_rows s"
  using terminalize_each_rows by (fastforce simp: terminalize_deliveries_def res_bind_Inr_iff leased_rows_def)

text \<open>The row of a leased item, as long as nobody else has touched it.\<close>
definition row_of_lease :: "leased_observation \<Rightarrow> delivery_row \<Rightarrow> bool" where
  "row_of_lease item d \<longleftrightarrow> d_observation_id d = lo_observation_id item \<and> d_idempotency_key d = lo_idempotency_key item \<and>
    d_attempt_number d = lo_attempt_number item \<and> d_lease_id d = Some (lo_lease_id item) \<and>
    d_last_provider_instance_id d = Some (pt_provider_instance_id (lo_target item))"

lemma decode_leased_instance:
  "decode_leased sha j d inst owner at lapse = Inr item \<Longrightarrow> pt_provider_instance_id (lo_target item) = inst"
  by (auto simp: decode_leased_def Let_def res_bind_Inr_iff split: option.splits)

lemma claimed_row:
  assumes "claimable sha q ds (d, j) c" "belongs_to j d" "claim_hit c d"
  shows "row_of_lease (fst c) (claim_row q (fst c) d)"
proof -
  obtain item st n where c: "c = (item, st, n)" by (cases c)
  have dec: "decode_leased sha j d (lr_provider_instance_id q) (lr_lease_owner q) (lr_now q)
      (sat_add_i64 (lr_now q) (lr_lease_duration q)) = Inr item" "n = lo_attempt_number item - 1"
    using assms(1) by (auto simp: c claimable_def candidate_of_def)
  have "d_attempt_number d < u32_max"
    using decode_leased_facts(3,6) [OF dec(1)] dec(2) assms(3)
    by (auto simp: c claim_hit_def sat_add_u32_def u32_max_def min_def split: if_splits)
  then show ?thesis
    using decode_leased_facts [OF dec(1)] decode_leased_instance [OF dec(1)] dec(2) assms(2,3)
    by (auto simp: c row_of_lease_def claim_row_def claim_hit_def belongs_to_def sat_add_u32_def)
qed

lemma claim_each_leases:
  assumes "list_all2 (claimable sha q ds) rows cs" "\<forall>(d, j)\<in>set rows. belongs_to j d" "distinct (map fst rows)"
    "distinct (map d_idempotency_key ds)" "claim_each q cs ds = (leased, ds')" "x \<in> set ds'"
  shows "x \<in> set ds \<or> (\<exists>item\<in>set leased. row_of_lease item x)"
  using assms
proof (induction cs arbitrary: ds rows leased ds' rule: list.induct)
  case Nil
  then show ?case by simp
next
  case (Cons c cs)
  from Cons.prems(1) obtain d j rows' where rows: "rows = (d, j) # rows'" "claimable sha q ds (d, j) c"
    "list_all2 (claimable sha q ds) rows' cs" by (auto simp: list_all2_Cons2)
  let ?ds1 = "update_where (claim_hit c) (claim_row q (fst c)) ds"
  obtain rest where rest: "claim_each q cs ?ds1 = (rest, ds')"
    "leased = (if count_where (claim_hit c) ds = 1 then fst c # rest else rest)"
    using Cons.prems(5) by (auto split: prod.splits)
  note one = claim_one [OF rows(2) Cons.prems(4)]
  have other: "y \<noteq> d" if "(y, k) \<in> set rows'" for y k
    using that Cons.prems(3) rows(1) by force
  have "list_all2 (claimable sha q ?ds1) rows' cs"
  proof (rule list.rel_mono_strong [OF rows(3)])
    fix r c' assume "r \<in> set rows'" "claimable sha q ds r c'"
    then show "claimable sha q ?ds1 r c'" using one(3) other by (auto simp: claimable_def)
  qed
  moreover have "distinct (map d_idempotency_key ?ds1)" using one(2) Cons.prems(4) by simp
  ultimately have "x \<in> set ?ds1 \<or> (\<exists>item\<in>set rest. row_of_lease item x)"
    using Cons.IH [OF _ _ _ _ rest(1) Cons.prems(6)] Cons.prems(2,3) rows(1) by auto
  moreover have "x \<in> set ds \<or> (\<exists>item\<in>set leased. row_of_lease item x)" if new: "x \<in> set ?ds1" "x \<notin> set ds"
  proof -
    obtain y where y: "y \<in> set ds" "claim_hit c y" "x = claim_row q (fst c) y"
      using new by (auto simp: set_update_where)
    then have "y = d" using claim_hit_row(1) [OF rows(2) _ _ Cons.prems(4)] by blast
    moreover have "count_where (claim_hit c) ds \<le> 1"
      by (rule count_where_distinct_key [OF Cons.prems(4)]) (auto simp: claim_hit_def)
    moreover have "0 < count_where (claim_hit c) ds" using count_where_pos y(1,2) by blast
    ultimately show ?thesis using claimed_row [OF rows(2)] Cons.prems(2) rows(1) y rest(2) by (auto simp: le_Suc_eq)
  qed
  ultimately show ?case using rest(2) by (cases "x \<in> set ds") auto
qed

lemma lease_pending_leases:
  assumes ok: "store_ok s" and run: "lease_pending sha policy q s = (Inr batch, s')" and d: "d \<in> leased_rows s'"
  shows "d \<in> leased_rows s \<or> (\<exists>item\<in>set batch. row_of_lease item d)"
proof -
  obtain n1 s1 n2 s2 cs where ph:
    "terminalize_deliveries sha (select_past_deadline s q) Expired DeadlineExceeded
      ''observation_deadline_elapsed'' (lr_now q) s = Inr (n1, s1)"
    "terminalize_deliveries sha (select_attempts_exhausted s1 q policy) Exhausted ProviderUnavailable
      ''max_delivery_attempts_consumed'' (lr_now q) s1 = Inr (n2, s2)"
    "pack_batch sha q (select_ready s2 q policy) [] 0 = Inr cs"
    "claim_each q cs (st_delivery s2) = (batch, st_delivery s')"
    by (rule lease_phases [OF lease_run(1) [OF run]])
  have one: "queue_step s s1"
    by (rule terminalize_deliveries_step [OF ok select_past_deadline_rows [OF ok] _ _ ph(1)]) simp_all
  then have ok1: "store_ok s1" by (simp add: queue_step_def delivery_step_def)
  have "queue_step s1 s2"
    by (rule terminalize_deliveries_step [OF ok1 select_attempts_exhausted_rows [OF ok1] _ _ ph(2)]) simp_all
  then have ok2: "store_ok s2" by (simp add: queue_step_def delivery_step_def)
  have kept: "leased_rows s2 \<subseteq> leased_rows s"
    using terminalize_deliveries_leases [OF ph(1)] terminalize_deliveries_leases [OF ph(2)] by auto
  have "picked_from sha q (select_ready s2 q policy) cs"
    using pack_batch_picked [where seen = "[]", OF ph(3) picked_from_refl] by simp
  then obtain rows where rows: "list_all2 (claimable sha q (st_delivery s2)) rows cs" "distinct (map fst rows)"
    "set rows \<subseteq> set (select_ready s2 q policy)" by (rule lease_selection [OF ok2])
  have "\<forall>(x, j)\<in>set rows. belongs_to j x"
  proof (clarify)
    fix x j assume "(x, j) \<in> set rows"
    then have "(x, j) \<in> set (joined s2)"
      using rows(3) select_limit_subset [of "lease_ready q" "\<lambda>(d, j). queue_order d" "scan_limit q policy" "joined s2"]
      unfolding select_ready_def by blast
    then show "belongs_to j x" by (rule joined_belongs [OF ok2])
  qed
  from claim_each_leases [OF rows(1) this rows(2) conjunct1 [OF store_ok_delivery_keys [OF ok2]] ph(4), of d] d
  have "d \<in> set (st_delivery s2) \<or> (\<exists>item\<in>set batch. row_of_lease item d)" by (simp add: leased_rows_def)
  with kept d show ?thesis by (auto simp: leased_rows_def)
qed

subsection \<open>Leases that recording ends\<close>

text \<open>A step that ends the item's lease and starts none.\<close>
definition frees :: "leased_observation \<Rightarrow> journal_store \<Rightarrow> journal_store \<Rightarrow> bool" where
  "frees item s s' \<longleftrightarrow> leased_rows s' \<subseteq> leased_rows s \<and> (\<forall>d\<in>leased_rows s'. d_observation_id d \<noteq> lo_observation_id item)"

definition held_as :: "leased_observation \<Rightarrow> journal_store \<Rightarrow> bool" where
  "held_as item s \<longleftrightarrow> (\<forall>d\<in>leased_rows s. d_observation_id d = lo_observation_id item \<longrightarrow> row_of_lease item d)"

lemma frees_update:
  assumes "st_delivery s' = update_where P f (st_delivery s)" "\<And>d. d_state (f d) \<noteq> Leased"
    "\<And>d. d \<in> leased_rows s \<Longrightarrow> d_observation_id d = lo_observation_id item \<Longrightarrow> P d"
  shows "frees item s s'"
  using assms by (auto simp: frees_def leased_rows_def set_update_where)

lemma release_frees:
  assumes "held_as item s" "release (lo_lease_id item) retry s = (Inr b, s')"
  shows "frees item s s'"
proof -
  have hit: "release_hit (lo_lease_id item) d" if "d \<in> leased_rows s" "d_observation_id d = lo_observation_id item" for d
    using assms(1) that by (auto simp: held_as_def row_of_lease_def release_hit_def leased_rows_def)
  show ?thesis
  proof (cases "count_where (release_hit (lo_lease_id item)) (st_delivery s) = 0")
    case True
    then have "s' = s" using assms(2) by (auto simp: release_def release_lease_def with_transaction_def release_lease_in_transaction_def)
    moreover have "\<not> release_hit (lo_lease_id item) d" if "d \<in> set (st_delivery s)" for d
      using True that count_where_pos [of "release_hit (lo_lease_id item)" "st_delivery s"] by auto
    ultimately show ?thesis using hit by (auto simp: frees_def leased_rows_def)
  next
    case False
    then have "st_delivery s' = update_where (release_hit (lo_lease_id item))
        (\<lambda>d. (to_pending retry d)\<lparr>d_next_attempt_at := retry\<rparr>) (st_delivery s)"
      using assms(2) by (auto simp: release_def release_lease_def with_transaction_def release_lease_in_transaction_def)
    then show ?thesis by (rule frees_update) (use hit in \<open>auto simp: to_pending_def\<close>)
  qed
qed

lemma settle_frees:
  assumes "held_as item s" "st_delivery s1 = st_delivery s" "receipt_slot r = (lo_observation_id item, lo_attempt_number item)"
  shows "frees item s (snd (settle_delivery r policy s1))"
proof -
  obtain st at where st: "can_transition_to Leased st"
    "snd (settle_delivery r policy s1) = s1\<lparr>st_delivery := update_where (settle_hit r) (settle_row r st at) (st_delivery s1)\<rparr>"
    by (rule settle_delivery_eq)
  have "st \<noteq> Leased" using st(1) by auto
  then show ?thesis
    using assms by (intro frees_update [where P = "settle_hit r"])
      (auto simp: st(2) held_as_def row_of_lease_def settle_hit_def receipt_slot_def settle_row_def leased_rows_def)
qed

lemma frees_same: "st_delivery s2 = st_delivery s1 \<Longrightarrow> frees item s s2 = frees item s s1"
  by (simp add: frees_def leased_rows_def)

lemma journal_call_Inr: "journal_call op s = (Inr x, s') \<longleftrightarrow> op s = (Inr x, s')"
  by (auto simp: journal_call_def split: prod.splits sum.splits)

lemma record_attempt_cases:
  assumes "record_attempt_in_transaction sha policy r s = Inr (outcome, s')"
  obtains (duplicate) j standing where "insert_receipt_row r s = None"
      "read_receipt sha s (dr_observation_id r) (dr_attempt_number r) = Inr standing"
      "s' = advance_watermark_for j standing (snd (settle_delivery standing policy s))"
  | (fresh) j s1 where "insert_receipt_row r s = Some s1"
      "s' = snd (settle_delivery r policy (advance_watermark_for j r s1))"
proof -
  obtain j where body: "(case insert_receipt_row r s of
      None \<Rightarrow> res_bind (read_receipt sha s (dr_observation_id r) (dr_attempt_number r)) (\<lambda>standing.
        let (settled, s1) = settle_delivery standing policy s in
        res_bind (if sm_advanced settled then Inr (sm_state settled) else read_delivery_state s1 (dr_observation_id r))
          (\<lambda>state. Inr (DuplicateReceipt state, advance_watermark_for j standing s1)))
    | Some s1 \<Rightarrow> let (settled, s2) = settle_delivery r policy (advance_watermark_for j r s1) in
        if \<not> sm_advanced settled then Inr (LeaseLost (dr_receipt_id r), s2)
        else Inr (Recorded (sm_state settled)
          (if is_terminal (sm_state settled) then None else Some (sm_next_attempt_at settled)), s2)) = Inr (outcome, s')"
    using assms by (auto simp: record_attempt_in_transaction_def res_bind_Inr_iff)
  show thesis
  proof (cases "insert_receipt_row r s")
    case None
    then show thesis using body duplicate by (auto simp: res_bind_Inr_iff split_beta Let_def)
  next
    case (Some s1)
    then have "s' = snd (settle_delivery r policy (advance_watermark_for j r s1))"
      using body by (auto simp: split_beta Let_def split: if_splits)
    with Some show thesis by (rule fresh)
  qed
qed

lemma record_attempt_frees:
  assumes held: "held_as item s" and slot: "receipt_slot r = (lo_observation_id item, lo_attempt_number item)"
    and run: "record_attempt sha policy r s = (Inr outcome, s')"
  shows "frees item s s'"
proof -
  have "record_attempt_in_transaction sha policy r s = Inr (outcome, s')"
    using run by (auto simp: record_attempt_def with_transaction_ok split: sum.splits)
  then show ?thesis
  proof (cases rule: record_attempt_cases)
    case (duplicate j standing)
    have "receipt_slot standing = (lo_observation_id item, lo_attempt_number item)"
      using read_receipt_slot [OF duplicate(2)] slot by (simp add: receipt_slot_def)
    from settle_frees [OF held refl this] show ?thesis
      using frees_same [of "advance_watermark_for j standing (snd (settle_delivery standing policy s))"]
      by (simp add: duplicate(3) watermark_frame_all)
  next
    case (fresh j s1)
    have "st_delivery (advance_watermark_for j r s1) = st_delivery s"
      using insert_receipt_row_Some(1) [OF fresh(1)] by (simp add: watermark_frame_all)
    from settle_frees [OF held this slot] show ?thesis by (simp add: fresh(2))
  qed
qed

text \<open>A host receipt for the item: it names the lease it answers.\<close>
definition host_receipt_for :: "leased_observation \<Rightarrow> delivery_receipt \<Rightarrow> bool" where
  "host_receipt_for item r \<longleftrightarrow> dr_observation_id r = lo_observation_id item \<and> dr_idempotency_key r = lo_idempotency_key item \<and>
    dr_attempt_number r = lo_attempt_number item \<and>
    dr_provider_instance_id r = Some (pt_provider_instance_id (lo_target item))"

lemma unsettled_frees:
  assumes "held_as item s" "host_receipt_for item r"
    "record_unsettled_attempt_in_transaction r (lo_lease_id item) retry s = Inr (outcome, s')"
  shows "frees item s s'"
proof -
  have "st_delivery s' = update_where (unsettled_hit r (lo_lease_id item)) (settle_row r Pending retry) (st_delivery s)"
    using assms(3) by (auto simp: record_unsettled_attempt_in_transaction_def Let_def res_bind_Inr_iff
        split: if_splits option.splits dest!: insert_receipt_row_Some(1))
  then show ?thesis
    by (rule frees_update) (use assms(1,2) in \<open>auto simp: settle_row_def unsettled_hit_def host_receipt_for_def held_as_def
        row_of_lease_def leased_rows_def\<close>)
qed

lemma record_unsettled_frees:
  assumes "held_as item s" "host_receipt_for item r"
    "record_unsettled_attempt sha r (lo_lease_id item) retry s = (Inr outcome, s')"
  shows "frees item s s'"
  using assms(3) by (intro unsettled_frees [OF assms(1,2)])
    (auto simp: record_unsettled_attempt_def with_transaction_ok split: sum.splits)

lemma record_refused_frees:
  assumes "held_as item s" "host_receipt_for item r"
    "record_refused_terminal_attempt sha x r (lo_lease_id item) retry s = (Inr out, s')"
  shows "frees item s s'"
proof -
  have "record_refused_terminal_in_transaction x r (lo_lease_id item) retry s = Inr (out, s')"
    using assms(3) by (auto simp: record_refused_terminal_attempt_def with_transaction_ok split: sum.splits)
  then obtain outcome s1 where run: "record_unsettled_attempt_in_transaction r (lo_lease_id item) retry s = Inr (outcome, s1)"
    and body: "(case outcome of LeaseLost _ \<Rightarrow> Inr ((RefusalLeaseLost, outcome), s1)
      | _ \<Rightarrow> res_bind (insert_attempt_refusal x s1) (\<lambda>(refusal, s2). Inr ((refusal, outcome), s2))) = Inr (out, s')"
    by (auto simp: record_refused_terminal_in_transaction_def res_bind_Inr_iff)
  have "st_delivery s' = st_delivery s1"
    using body by (cases outcome) (auto simp: res_bind_Inr_iff insert_attempt_refusal_def split: if_splits)
  note run = run this
  show ?thesis using unsettled_frees [OF assms(1,2) run(1)] frees_same [OF run(2)] by simp
qed

lemma host_receipts:
  "from_cancelled sha item started finished = Inr r \<Longrightarrow> host_receipt_for item r"
  "from_refused_terminal sha item started finished = Inr r \<Longrightarrow> host_receipt_for item r"
  by (auto simp: from_cancelled_def from_refused_terminal_def validated_def res_bind_Inr_iff host_receipt_def host_receipt_for_def)

lemma from_terminal_slot:
  "from_terminal sha t item started finished = Inr r \<Longrightarrow> receipt_slot r = (lo_observation_id item, lo_attempt_number item)"
  by (auto simp: from_terminal_def Let_def validated_def res_bind_Inr_iff receipt_slot_def)

subsection \<open>One item and one round\<close>

definition frees_lease :: "leased_observation \<Rightarrow> 'a runtime \<Rightarrow> bool" where
  "frees_lease item m \<longleftrightarrow> (\<forall>s x s'. held_as item s \<longrightarrow> m s = (Inr x, s') \<longrightarrow> frees item s s')"

lemma step_frees:
  "frees_lease item (release_unanswered item retry r)" "frees_lease item (release_unattempted item now r)"
  "frees_lease item (fail_attempt item cause retry r)"
  "frees_lease item (record_cancelled sha item started finished now r)"
  "frees_lease item (refuse_terminal sha item refusal cause started finished retry r)"
  "from_terminal sha t item started finished = Inr receipt \<Longrightarrow> frees_lease item (runtime_record sha policy receipt r)"
  unfolding frees_lease_def
  by (auto simp: runtime_steps rt_return_def rt_result_def journal_call_Inr split: sum.splits elim!: rt_bind_Inr
      intro: release_frees record_attempt_frees [OF _ from_terminal_slot] record_unsettled_frees [OF _ host_receipts(1)]
        record_refused_frees [OF _ host_receipts(2)])

lemma settle_attempt_frees: "frees_lease item (settle_attempt sha policy api item cancelled now retry attempt r)"
  by (rule settle_attempt_cases [of sha policy api item cancelled now retry attempt r]) (simp_all add: step_frees)

lemma dispatch_item_frees:
  assumes "re_meanwhile env item = []"
  shows "frees_lease item (dispatch_item sha policy api env q item r)"
  unfolding frees_lease_def dispatch_item_def Let_def
  using step_frees(2,3) [of item] settle_attempt_frees [of item] assms unfolding frees_lease_def
  by (simp split: sum.split)

lemma dispatch_items_free:
  assumes "\<And>item. re_meanwhile env item = []" "\<forall>item\<in>set items. held_as item s"
    "dispatch_items sha policy api env q items r s = (Inr r', s')"
  shows "leased_rows s' \<subseteq> leased_rows s \<and> (\<forall>item\<in>set items. \<forall>d\<in>leased_rows s'. d_observation_id d \<noteq> lo_observation_id item)"
  using assms(2,3)
proof (induction items arbitrary: r s)
  case (Cons item items)
  then obtain r1 s1 where run: "dispatch_item sha policy api env q item r s = (Inr r1, s1)"
    "dispatch_items sha policy api env q items r1 s1 = (Inr r', s')" by (auto elim: rt_bind_Inr)
  have first: "frees item s s1"
    using dispatch_item_frees [OF assms(1), of item] run(1) Cons.prems(1) unfolding frees_lease_def by auto
  then have "\<forall>i\<in>set items. held_as i s1" using Cons.prems(1) by (auto simp: frees_def held_as_def)
  from Cons.IH [OF this run(2)] first show ?case by (auto simp: frees_def)
qed (simp add: rt_return_def)

lemma leased_batch_held:
  assumes ok: "store_ok s" and run: "lease_pending sha policy q s = (Inr batch, s')" and item: "item \<in> set batch"
  shows "held_as item s'"
  unfolding held_as_def
proof (intro ballI impI)
  fix d assume d: "d \<in> leased_rows s'" "d_observation_id d = lo_observation_id item"
  obtain x where x: "x \<in> set (st_delivery s)" "is_deliverable (d_state x)" "d_idempotency_key x = lo_idempotency_key item"
    "d_observation_id x = lo_observation_id item" using lease_batch_row [OF ok run item] by blast
  have "d \<notin> leased_rows s"
  proof
    assume "d \<in> leased_rows s"
    then have "d = x" using store_ok_unique_delivery [OF ok] x d(2) by (auto simp: leased_rows_def)
    with x(2) \<open>d \<in> leased_rows s\<close> show False by (simp add: leased_rows_def)
  qed
  then obtain item' where item': "item' \<in> set batch" "row_of_lease item' d"
    using lease_pending_leases [OF ok run d(1)] by blast
  obtain y where y: "y \<in> set (st_delivery s)" "d_idempotency_key y = lo_idempotency_key item'"
    "d_observation_id y = lo_observation_id item'" using lease_batch_row [OF ok run item'(1)] by blast
  have "d_observation_id y = d_observation_id x" using item'(2) d(2) x(4) y(3) by (simp add: row_of_lease_def)
  then have "y = x" using store_ok_unique_delivery [OF ok y(1) x(1)] by auto
  then have "item' = item"
    using lease_batch_distinct [OF ok run] item item'(1) x(3) y(2) by (auto simp: distinct_map inj_on_def)
  with item'(2) show "row_of_lease item d" by simp
qed

text \<open>C9. A round leaves no lease behind: after a completed dispatch round during which no other
  process touched the journal, every row that is leased was already leased, unchanged, before the
  round.\<close>
theorem round_leaves_no_lease:
  assumes "store_ok s" "\<And>item. re_meanwhile env item = []" "dispatch_batch sha policy api env q s = (Inr r, s')"
    and "d \<in> set (st_delivery s')" "d_state d = Leased"
  shows "d \<in> set (st_delivery s)"
  using assms(3)
proof (cases rule: dispatch_batch_run)
  case (leased batch s1)
  have "\<forall>item\<in>set batch. held_as item s1" using leased_batch_held [OF assms(1) leased(2)] by blast
  from dispatch_items_free [OF assms(2) this leased(3)]
  have rows: "d \<in> leased_rows s1" "\<forall>item\<in>set batch. d_observation_id d \<noteq> lo_observation_id item"
    using assms(4,5) by (auto simp: leased_rows_def)
  from lease_pending_leases [OF assms(1) leased(2) rows(1)] rows(2) show ?thesis
    by (auto simp: row_of_lease_def leased_rows_def)
qed (use assms(4) in simp)

subsection \<open>Examples\<close>

lemma sample_nothing_to_lease:
  "lease_pending zero_sha sample_policy sample_lease_request sample_leased_store = (Inr [], sample_leased_store)"
  by (simp add: lease_pending_def sql_i64_def i64_max_def with_transaction_def lease_pending_in_transaction_def
      select_past_deadline_def select_limit_def select_attempts_exhausted_def select_ready_def lease_ready_def
      terminalize_deliveries_def Let_def)

lemma sample_quiet_round:
  "dispatch_batch zero_sha sample_policy (\<lambda>_. '''') sample_round sample_dispatch sample_leased_store =
    (Inr default_report, sample_leased_store)"
  by (simp add: dispatch_batch_def rt_bind_def rt_result_def rt_return_def journal_call_def sample_nothing_to_lease
      default_report_def)

theorem round_leaves_no_lease_witness: "sample_leased_row \<in> set (st_delivery sample_leased_store)"
  by (rule round_leaves_no_lease [OF sample_leased_store_ok _ sample_quiet_round]) simp_all

end
