(* ===== verification/Delivery_Evidence.thy ===== *)
theory Delivery_Evidence
  imports Delivery_Leases
begin

text \<open>
  The evidence a round writes.  An acknowledging receipt enters the journal only as the receipt of
  a terminal the provider itself returned for that delivery, under a control that was not
  cancelled.
\<close>

subsection \<open>New receipts\<close>

definition new_receipts :: "(delivery_receipt \<Rightarrow> bool) \<Rightarrow> journal_store \<Rightarrow> journal_store \<Rightarrow> bool" where
  "new_receipts P s s' \<longleftrightarrow> (\<forall>x\<in>set (st_receipts s'). x \<in> set (st_receipts s) \<or> P x)"

lemma new_receipts_refl [simp]: "new_receipts P s s"
  by (simp add: new_receipts_def)

lemma new_receipts_trans: "new_receipts P a b \<Longrightarrow> new_receipts P b c \<Longrightarrow> new_receipts P a c"
  unfolding new_receipts_def by blast

lemma new_receipts_same: "st_receipts s' = st_receipts s \<Longrightarrow> new_receipts P s s'"
  by (simp add: new_receipts_def)

lemma new_receipts_mono: "new_receipts P s s' \<Longrightarrow> (\<And>x. P x \<Longrightarrow> Q x) \<Longrightarrow> new_receipts Q s s'"
  unfolding new_receipts_def by blast

lemma transaction_receipts: "(\<And>x s'. f s = Inr (x, s') \<Longrightarrow> new_receipts P s s') \<Longrightarrow> new_receipts P s (snd (with_transaction f s))"
  by (rule with_transaction_keeps [where P = "new_receipts P s"]) auto

lemma guarded_transaction_receipts:
  "(\<And>x s'. check = Inr u \<Longrightarrow> f s = Inr (x, s') \<Longrightarrow> new_receipts P s s') \<Longrightarrow>
    new_receipts P s (snd (case check of Inl e \<Rightarrow> (Inl e, s) | Inr _ \<Rightarrow> with_transaction f s))"
  for check :: "'e + unit"
  by (cases check) (simp_all add: transaction_receipts)

lemma insert_receipt_new: "insert_receipt_row r s = Some s' \<Longrightarrow> new_receipts (\<lambda>x. x = r\<lparr>dr_warnings := []\<rparr>) s s'"
  by (auto simp: new_receipts_def dest!: insert_receipt_row_Some(1))

lemma settle_receipts [simp]: "st_receipts (snd (settle_delivery r policy s)) = st_receipts s"
  by (rule settle_delivery_eq [of r policy s]) simp

lemma record_attempt_new:
  "new_receipts (\<lambda>x. x = r\<lparr>dr_warnings := []\<rparr>) s (snd (record_attempt sha policy r s))"
  unfolding record_attempt_def
proof (rule guarded_transaction_receipts)
  fix out s' assume "record_attempt_in_transaction sha policy r s = Inr (out, s')"
  then show "new_receipts (\<lambda>x. x = r\<lparr>dr_warnings := []\<rparr>) s s'"
  proof (cases rule: record_attempt_cases)
    case (duplicate j standing)
    then show ?thesis by (simp add: new_receipts_same watermark_frame_all)
  next
    case (fresh j s1)
    then show ?thesis using insert_receipt_new [OF fresh(1)] by (simp add: new_receipts_def watermark_frame_all)
  qed
qed

text \<open>The outcomes that settle a delivery as taken over by the provider.\<close>
definition confirms :: "delivery_receipt \<Rightarrow> bool" where
  "confirms x \<longleftrightarrow> implied_state (dr_outcome x) \<in> {Acknowledged, delivery_state.DuplicateAcknowledged}"

lemma unsettled_new:
  assumes "record_unsettled_attempt_in_transaction r lease retry s = Inr (out, s')"
  shows "new_receipts (\<lambda>x. x = r\<lparr>dr_warnings := []\<rparr>) s s'"
proof -
  let ?s1 = "s\<lparr>st_delivery := update_where (unsettled_hit r lease) (settle_row r Pending retry) (st_delivery s)\<rparr>"
  have "s' = ?s1 \<or> insert_receipt_row r ?s1 = Some s'"
    using assms by (auto simp: record_unsettled_attempt_in_transaction_def Let_def res_bind_Inr_iff split: if_splits option.splits)
  then show ?thesis using insert_receipt_new [of r ?s1 s'] by (auto simp: new_receipts_def)
qed

lemma unsettled_outcome: "validate_unsettled_attempt_receipt sha r = Inr u \<Longrightarrow> dr_outcome r \<in> {Cancelled, EffectUnknown}"
  by (auto simp: validate_unsettled_attempt_receipt_def res_bind_Inr_iff split: if_splits)

lemma record_unsettled_new: "new_receipts (\<lambda>x. \<not> confirms x) s (snd (record_unsettled_attempt sha r lease retry s))"
  unfolding record_unsettled_attempt_def
proof (rule guarded_transaction_receipts)
  fix out s' assume run: "validate_unsettled_attempt_receipt sha r = Inr ()"
    "record_unsettled_attempt_in_transaction r lease retry s = Inr (out, s')"
  show "new_receipts (\<lambda>x. \<not> confirms x) s s'"
    by (rule new_receipts_mono [OF unsettled_new [OF run(2)]]) (use unsettled_outcome [OF run(1)] in \<open>auto simp: confirms_def\<close>)
qed

lemma record_refused_new: "new_receipts (\<lambda>x. \<not> confirms x) s (snd (record_refused_terminal_attempt sha y r lease retry s))"
  unfolding record_refused_terminal_attempt_def
proof (rule guarded_transaction_receipts)
  fix out s'
  assume check: "first_error [refusal_validate y, validate_unsettled_attempt_receipt sha r,
        if dr_outcome r \<noteq> EffectUnknown then Inl (Corrupt RECEIPT ''unsettled_attempt_evidence'') else Inr (),
        refusal_pairs_receipt y r,
        res_bind (sql_i64 (ar_registration_revision y) ''registration_revision'') (\<lambda>_. Inr ())] = Inr ()"
    and run: "record_refused_terminal_in_transaction y r lease retry s = Inr (out, s')"
  obtain attempt s1 where s1: "record_unsettled_attempt_in_transaction r lease retry s = Inr (attempt, s1)"
    using run by (auto simp: record_refused_terminal_in_transaction_def res_bind_Inr_iff)
  have same: "st_receipts s' = st_receipts s1"
    using run s1 by (cases attempt) (auto simp: record_refused_terminal_in_transaction_def res_bind_Inr_iff
        insert_attempt_refusal_def split: if_splits)
  have "dr_outcome r = EffectUnknown" using check by (auto simp: first_error_ok split: if_splits)
  then have "new_receipts (\<lambda>x. \<not> confirms x) s s1"
    by (intro new_receipts_mono [OF unsettled_new [OF s1]]) (simp add: confirms_def)
  then show "new_receipts (\<lambda>x. \<not> confirms x) s s'" using same by (simp add: new_receipts_def)
qed

lemma release_new: "new_receipts P s (snd (release_lease lease retry s))"
  unfolding release_lease_def
  by (rule transaction_receipts) (auto simp: release_lease_in_transaction_def split: if_splits intro!: new_receipts_same)

lemma expire_delivery_new:
  assumes "expire_delivery sha q s = Inr (u, s')"
  shows "new_receipts (\<lambda>x. dr_outcome x = er_outcome q) s s'"
proof -
  obtain hit j s1 attempt where run: "insert_receipt_row (terminal_receipt sha q j attempt) s = Some s1"
    "s' = s1\<lparr>st_delivery := update_where hit (terminalize_row sha q attempt) (st_delivery s1)\<rparr>"
    using assms by (auto simp: expire_delivery_def Let_def res_bind_Inr_iff split: if_splits option.splits)
  from insert_receipt_new [OF run(1)] show ?thesis by (auto simp: run(2) new_receipts_def terminal_receipt_def)
qed

lemma terminalize_new:
  assumes "terminalize_deliveries sha ds st out why now s = Inr (n, s')"
  shows "new_receipts (\<lambda>x. dr_outcome x = out) s s'"
proof -
  have "terminalize_each sha st out why now ds s = Inr (n, s') \<Longrightarrow> new_receipts (\<lambda>x. dr_outcome x = out) s s'" for s n
  proof (induction ds arbitrary: s n)
    case (Cons d ds)
    then obtain u s1 n1 where run: "expire_delivery sha (expire_request_of d st out why now) s = Inr (u, s1)"
      "terminalize_each sha st out why now ds s1 = Inr (n1, s')" by (auto simp: res_bind_Inr_iff)
    have "new_receipts (\<lambda>x. dr_outcome x = out) s s1" using expire_delivery_new [OF run(1)] by (simp add: expire_request_of_def)
    from new_receipts_trans [OF this Cons.IH [OF run(2)]] show ?case .
  qed simp
  with assms show ?thesis by (auto simp: terminalize_deliveries_def res_bind_Inr_iff)
qed

lemma lease_pending_new: "new_receipts (\<lambda>x. \<not> confirms x) s (snd (lease_pending sha policy q s))"
  unfolding lease_pending_def
proof (rule guarded_transaction_receipts)
  fix leased s' assume "lease_pending_in_transaction sha policy q s = Inr (leased, s')"
  then obtain n1 s1 n2 s2 where ph:
    "terminalize_deliveries sha (select_past_deadline s q) Expired DeadlineExceeded
      ''observation_deadline_elapsed'' (lr_now q) s = Inr (n1, s1)"
    "terminalize_deliveries sha (select_attempts_exhausted s1 q policy) Exhausted ProviderUnavailable
      ''max_delivery_attempts_consumed'' (lr_now q) s1 = Inr (n2, s2)"
    "s' = s2\<lparr>st_delivery := st_delivery s'\<rparr>"
    by (rule lease_phases) blast
  have "new_receipts (\<lambda>x. \<not> confirms x) s s2"
    by (rule new_receipts_trans [OF new_receipts_mono [OF terminalize_new [OF ph(1)]] new_receipts_mono [OF terminalize_new [OF ph(2)]]])
      (auto simp: confirms_def)
  then show "new_receipts (\<lambda>x. \<not> confirms x) s s'" by (subst ph(3)) (simp add: new_receipts_def)
qed

subsection \<open>Acknowledgements come from the provider\<close>

definition provider_answer :: "sha \<Rightarrow> round_env \<Rightarrow> delivery_receipt \<Rightarrow> bool" where
  "provider_answer sha env x \<longleftrightarrow> (\<exists>item deadline t started finished.
    re_deliver env item deadline = Inr (Answered t started finished) \<and> \<not> re_cancelled_after env item \<and>
    verify_terminal item t = Inr () \<and> from_terminal sha t item started finished = Inr x)"

definition writes :: "(delivery_receipt \<Rightarrow> bool) \<Rightarrow> 'a runtime \<Rightarrow> bool" where
  "writes P m \<longleftrightarrow> (\<forall>s. new_receipts P s (snd (m s)))"

lemma writes_bind [intro!]:
  assumes "writes P m" "\<And>x. writes P (f x)"
  shows "writes P (rt_bind m f)"
proof -
  have "new_receipts P s (snd (rt_bind m f s))" for s
  proof -
    obtain out s1 where run: "m s = (out, s1)" by (cases "m s")
    then have first: "new_receipts P s s1" using assms(1) by (metis writes_def snd_conv)
    show ?thesis
    proof (cases out)
      case (Inr x)
      have "new_receipts P s1 (snd (f x s1))" using assms(2) by (simp add: writes_def)
      from new_receipts_trans [OF first this] show ?thesis by (simp add: rt_bind_def run Inr)
    qed (simp add: rt_bind_def run first)
  qed
  then show ?thesis by (simp add: writes_def)
qed

lemma writes_plain [intro!, simp]: "writes P (rt_return x)" "writes P (rt_result r)" "writes P (release lease retry)"
  by (simp_all add: writes_def rt_return_def rt_result_def release_new split: sum.split)

lemma writes_split [intro]: "(\<And>a b. writes P (f a b)) \<Longrightarrow> writes P (case x of (a, b) \<Rightarrow> f a b)"
  by (cases x) simp

definition evidence :: "sha \<Rightarrow> round_env \<Rightarrow> delivery_receipt \<Rightarrow> bool" where
  "evidence sha env x \<longleftrightarrow> confirms x \<longrightarrow> provider_answer sha env x"

lemma writes_unsettled [intro!, simp]:
  "writes (evidence sha env) (journal_call (record_unsettled_attempt sha r lease retry))"
  "writes (evidence sha env) (journal_call (record_refused_terminal_attempt sha y r lease retry))"
  "writes (evidence sha env) (journal_call (lease_pending sha policy q))"
  unfolding writes_def snd_journal_call
  using new_receipts_mono [OF record_unsettled_new, of "evidence sha env"] new_receipts_mono [OF record_refused_new, of "evidence sha env"]
    new_receipts_mono [OF lease_pending_new, of "evidence sha env"]
  by (simp_all add: evidence_def)

lemma from_terminal_warnings: "from_terminal sha t item started finished = Inr x \<Longrightarrow> x\<lparr>dr_warnings := []\<rparr> = x"
  by (auto simp: from_terminal_def Let_def validated_def res_bind_Inr_iff)

lemma writes_answer:
  assumes "re_deliver env item deadline = Inr (Answered t started finished)" "\<not> re_cancelled_after env item"
    "verify_terminal item t = Inr ()" "from_terminal sha t item started finished = Inr receipt"
  shows "writes (evidence sha env) (runtime_record sha policy receipt r)"
proof -
  have "evidence sha env receipt" using assms unfolding evidence_def provider_answer_def by blast
  then have "writes (evidence sha env) (journal_call (record_attempt sha policy receipt))"
    unfolding writes_def snd_journal_call
    using new_receipts_mono [OF record_attempt_new] from_terminal_warnings [OF assms(4)] by metis
  then show ?thesis by (auto simp: runtime_record_def)
qed

lemma step_writes:
  "writes P (release_unanswered item retry r)" "writes P (release_unattempted item now r)" "writes P (fail_attempt item cause retry r)"
  "writes (evidence sha env) (record_cancelled sha item started finished now r)"
  "writes (evidence sha env) (refuse_terminal sha item refusal cause started finished retry r)"
  by (auto simp: runtime_steps)

lemma settle_attempt_writes:
  assumes "re_deliver env item deadline = Inr attempt"
  shows "writes (evidence sha env) (settle_attempt sha policy api item (re_cancelled_after env item) now retry attempt r)"
  by (rule settle_attempt_cases [of sha policy api item "re_cancelled_after env item" now retry attempt r])
    (use assms in \<open>auto simp: step_writes intro: writes_answer\<close>)

lemma dispatch_items_writes:
  assumes "\<And>item. re_meanwhile env item = []"
  shows "writes (evidence sha env) (dispatch_items sha policy api env q items r)"
proof (induction items arbitrary: r)
  case (Cons item items)
  have "writes (evidence sha env) (dispatch_item sha policy api env q item r)" for r
    unfolding writes_def dispatch_item_def Let_def assms
    using step_writes(2,3) [of "evidence sha env" item] settle_attempt_writes [of env item] unfolding writes_def
    by (simp split: sum.split)
  with Cons.IH show ?case by auto
qed simp

text \<open>C7. No acknowledgement is invented: a receipt that acknowledges a delivery and that a round
  added to the journal, whether the round completed or failed, is the receipt of a terminal that the
  adapter returned for a delivery with that identity, under a control that was not cancelled.\<close>
theorem acknowledgement_from_provider:
  assumes "\<And>item. re_meanwhile env item = []"
    and "x \<in> set (st_receipts (snd (dispatch_batch sha policy api env q s)))" "x \<notin> set (st_receipts s)"
    and "implied_state (dr_outcome x) \<in> {Acknowledged, delivery_state.DuplicateAcknowledged}"
  shows "\<exists>item deadline t started finished.
    re_deliver env item deadline = Inr (Answered t started finished) \<and> \<not> re_cancelled_after env item \<and>
    tr_operation t = Observe \<and> tr_provider_id t = pt_provider_id (lo_target item) \<and>
    tr_exact_scope_sha256 t = lo_exact_scope_sha256 item \<and> from_terminal sha t item started finished = Inr x"
proof -
  let ?m = "rt_bind (rt_result (backoff_validate (dq_retry_backoff q))) (\<lambda>_.
       if re_cancelled_at_start env then rt_return default_report
       else rt_bind (journal_call (lease_pending sha policy (dq_lease q))) (\<lambda>leased.
         dispatch_items sha policy api env q leased (default_report\<lparr>br_leased := min (length leased) u32_max\<rparr>)))"
  have "writes (evidence sha env) ?m" by (auto intro: dispatch_items_writes [OF assms(1)])
  then have "writes (evidence sha env) (dispatch_batch sha policy api env q)"
    by (cases "dq_attempt_budget q \<le> 0") (simp_all add: writes_def dispatch_batch_def split del: if_split)
  then have "evidence sha env x" using assms(2,3) by (auto simp: writes_def new_receipts_def)
  then obtain item deadline t started finished where "re_deliver env item deadline = Inr (Answered t started finished)"
    "\<not> re_cancelled_after env item" "verify_terminal item t = Inr ()" "from_terminal sha t item started finished = Inr x"
    using assms(4) unfolding evidence_def confirms_def provider_answer_def by blast
  moreover from this have "tr_operation t = Observe" "tr_provider_id t = pt_provider_id (lo_target item)"
    "tr_exact_scope_sha256 t = lo_exact_scope_sha256 item" by (auto simp: verify_terminal_def split: if_splits)
  ultimately show ?thesis by blast
qed

subsection \<open>Examples\<close>

lemma sample_answer:
  "\<exists>r. from_terminal zero_sha sample_terminal (sample_leased_item 1 sample_digest 1) 5 7 = Inr r \<and>
    dr_outcome r = DuplicateAcknowledged \<and> receipt_validate zero_sha r = Inr () \<and>
    dr_observation_id r = j_observation_id (sample_journal 1 sample_digest) \<and>
    receipt_matches_journal (sample_journal 1 sample_digest) r = Inr () \<and>
    dr_state_generation_before r = Some 1 \<and> dr_state_generation_after r = Some 1 \<and> r\<lparr>dr_warnings := []\<rparr> = r"
  by (simp add: from_terminal_def sample_terminal_def sample_leased_item_def leased_of_def Let_def
      check_duplicate_binding_def validated_def receipt_validate_def requires_provider_receipt_def
      receipt_id_derive_def sample_admitted_def require_bounded_def require_non_empty_def
      require_sha256_def SOURCE_EVENT_ID_MAX_BYTES_def receipt_matches_journal_def sample_journal_def journal_row_of_def
      sql_i64_def i64_max_def)

lemma first_receipt_stored:
  assumes "receipt_validate sha r = Inr ()" "st_journal s = [j]" "dr_observation_id r = j_observation_id j"
    "receipt_matches_journal j r = Inr ()" "st_receipts s = []" "r\<lparr>dr_warnings := []\<rparr> = r"
    "dr_state_generation_before r = Some 1" "dr_state_generation_after r = Some 1"
  shows "r \<in> set (st_receipts (snd (record_attempt sha policy r s)))"
  using assms
  by (simp add: record_attempt_def with_transaction_def record_attempt_in_transaction_def read_journal_row_def
      find_journal_observation_def optional_sql_def insert_receipt_row_def advance_watermark_for_def
      advance_watermark_frame split_beta Let_def settle_delivery_def first_error_ok sql_i64_def i64_max_def)

lemma sample_answered_round:
  "\<exists>r. dr_outcome r = DuplicateAcknowledged \<and>
    r \<in> set (st_receipts (snd (dispatch_batch zero_sha sample_policy (\<lambda>_. '''') sample_round sample_dispatch sample_store)))"
proof -
  let ?item = "sample_leased_item 1 sample_digest 1"
  obtain s1 where lease: "lease_pending zero_sha sample_policy sample_lease_request sample_store = (Inr [?item], s1)"
    "st_journal s1 = [sample_journal 1 sample_digest]" "st_receipts s1 = []"
    using sample_lease by (auto simp: sample_store_waiting)
  obtain r where r: "from_terminal zero_sha sample_terminal ?item 5 7 = Inr r" "dr_outcome r = DuplicateAcknowledged"
    "receipt_validate zero_sha r = Inr ()" "dr_observation_id r = j_observation_id (sample_journal 1 sample_digest)"
    "receipt_matches_journal (sample_journal 1 sample_digest) r = Inr ()" "r\<lparr>dr_warnings := []\<rparr> = r"
    "dr_state_generation_before r = Some 1" "dr_state_generation_after r = Some 1"
    using sample_answer by blast
  have match: "verify_terminal ?item sample_terminal = Inr ()"
    by (simp add: verify_terminal_def sample_terminal_def sample_leased_item_def leased_of_def sample_admitted_def
        exact_scope_sha256_def)
  have "r \<in> set (st_receipts (snd (record_attempt zero_sha sample_policy r s1)))"
    by (rule first_receipt_stored [OF r(3) lease(2) r(4,5) lease(3) r(6,7,8)])
  then have "r \<in> set (st_receipts (snd (dispatch_batch zero_sha sample_policy (\<lambda>_. '''') sample_round sample_dispatch sample_store)))"
    using match r(1)
    by (simp add: dispatch_batch_def rt_bind_def rt_result_def rt_return_def journal_call_def lease(1)
        dispatch_item_def sample_round_def runtime_record_def Let_def split_beta split: sum.split)
  with r(2) show ?thesis by blast
qed

theorem acknowledgement_from_provider_witness:
  "\<exists>item deadline t started finished. re_deliver sample_round item deadline = Inr (Answered t started finished) \<and>
    tr_operation t = Observe \<and> tr_provider_id t = pt_provider_id (lo_target item)"
proof -
  obtain r where "dr_outcome r = DuplicateAcknowledged"
    "r \<in> set (st_receipts (snd (dispatch_batch zero_sha sample_policy (\<lambda>_. '''') sample_round sample_dispatch sample_store)))"
    using sample_answered_round by blast
  with acknowledgement_from_provider [of sample_round r zero_sha sample_policy "\<lambda>_. ''''" sample_dispatch sample_store]
  obtain item deadline t started finished where "re_deliver sample_round item deadline = Inr (Answered t started finished)"
    "tr_operation t = Observe" "tr_provider_id t = pt_provider_id (lo_target item)"
    by (auto simp: sample_store_rows)
  then show ?thesis by blast
qed

end
