(* ===== verification/Delivery_Idle.thy ===== *)
theory Delivery_Idle
  imports Delivery_Evidence
begin

text \<open>
  What \<^verbatim>\<open>DrainStopV1::Quiesced\<close> means: a round that leased nothing proves that nothing could be
  leased, provided the round really asked the journal.  A shutdown that lands between the drain's
  own check and the round's leaves the same report although work is waiting.
\<close>

subsection \<open>An empty batch\<close>

lemma pack_batch_keeps:
  "pack_batch sha q rows picked bytes = Inr res \<Longrightarrow> picked \<noteq> [] \<Longrightarrow> res \<noteq> []"
proof (induction rows arbitrary: picked bytes)
  case (Cons row rows)
  obtain d j where row: "row = (d, j)" by force
  show ?case
  proof (cases "lr_max_items q \<le> length picked")
    case False
    then show ?thesis using Cons.prems Cons.IH by (auto simp: row Let_def res_bind_Inr_iff split: if_splits)
  qed (use Cons.prems row in simp)
qed simp

lemma pack_batch_nonempty:
  assumes "pack_batch sha q rows [] 0 = Inr res" "rows \<noteq> []" "0 < lr_max_items q"
  shows "res \<noteq> []"
proof -
  obtain d j rest where rows: "rows = (d, j) # rest" using assms(2) by (metis list.exhaust surj_pair)
  show ?thesis
    using assms(1,3)
    by (auto simp: rows Let_def res_bind_Inr_iff sat_add_u64_def split: if_splits dest: pack_batch_keeps)
qed

lemma claim_each_nonempty:
  assumes "list_all2 (claimable sha q ds) rows cs" "cs \<noteq> []" "distinct (map d_idempotency_key ds)"
    "\<forall>(d, j)\<in>set rows. d_attempt_number d < u32_max"
  shows "fst (claim_each q cs ds) \<noteq> []"
proof -
  obtain c cs' where cs: "cs = c # cs'" using assms(2) by (meson list.exhaust)
  with assms(1) obtain d j rows' where rows: "rows = (d, j) # rows'" "claimable sha q ds (d, j) c"
    by (auto simp: list_all2_Cons2)
  have "claim_hit c d" using claim_hit_self(1) [OF rows(2)] assms(4) rows(1) by simp
  then have "0 < count_where (claim_hit c) ds" using count_where_pos claimable_facts(1) [OF rows(2)] by blast
  moreover have "count_where (claim_hit c) ds \<le> 1"
    by (rule count_where_distinct_key [OF assms(3)]) (auto simp: claim_hit_def)
  ultimately show ?thesis by (simp add: cs split_beta Let_def le_Suc_eq)
qed

lemma empty_batch_idle:
  assumes ok: "store_ok s" and run: "lease_pending sha policy q s = (Inr [], s')"
    and fits: "\<forall>d\<in>set (st_delivery s'). d_attempt_number d < u32_max"
  shows "\<forall>x\<in>set (joined s'). \<not> lease_ready q x"
proof -
  obtain s2 cs rows where lease: "queue_step s s2" "pack_batch sha q (select_ready s2 q policy) [] 0 = Inr cs"
    "list_all2 (claimable sha q (st_delivery s2)) rows cs" "claim_each q cs (st_delivery s2) = ([], st_delivery s')"
    "s' = s2\<lparr>st_delivery := st_delivery s'\<rparr>" "distinct (map fst rows)"
    by (rule lease_transaction [OF ok lease_run(1) [OF run]]) blast
  have ok2: "store_ok s2" using lease(1) by (simp add: queue_step_def delivery_step_def)
  note keys = conjunct1 [OF store_ok_delivery_keys [OF ok2]]
  have "cs = []"
  proof (rule ccontr)
    assume cs: "cs \<noteq> []"
    have "\<not> (\<forall>(d, j)\<in>set rows. d_attempt_number d < u32_max)"
    proof
      assume "\<forall>(d, j)\<in>set rows. d_attempt_number d < u32_max"
      from claim_each_nonempty [OF lease(3) cs keys this] lease(4) show False by simp
    qed
    then obtain d j where d: "(d, j) \<in> set rows" "\<not> d_attempt_number d < u32_max" by auto
    have mem: "d \<in> set (st_delivery s2)" using list_all2_memD [OF lease(3) d(1)] claimable_facts(1) by blast
    have "list_all2 leaves_queue (st_delivery s2) (st_delivery s')" using claim_each_ok [OF lease(3,6) keys lease(4)] by blast
    from list_all2_memD [OF this mem] obtain d' where "d' \<in> set (st_delivery s')" "evolves d d'"
      using leaves_queue_evolves by blast
    with fits d(2) show False by (force simp: evolves_def)
  qed
  then have "st_delivery s' = st_delivery s2" using lease(4) by simp
  then have "s' = s2" by (subst lease(5)) simp
  moreover have "select_ready s2 q policy = []"
    using pack_batch_nonempty [OF lease(2) _ lease_run(2) [OF run]] \<open>cs = []\<close> by blast
  ultimately have none: "select_ready s2 q policy = []" "s' = s2" by simp_all
  have "0 < scan_limit q policy"
    using lease_run(2) [OF run] by (auto simp: scan_limit_def Let_def i64_max_def max_def)
  then have "filter (lease_ready q) (joined s2) = []"
    using none(1) select_limit_empty [of "scan_limit q policy" "lease_ready q" "\<lambda>(d, j). queue_order d" "joined s2"]
    by (simp add: select_ready_def filter_empty_conv)
  then show ?thesis using none(2) by (simp add: filter_empty_conv)
qed

subsection \<open>Rounds that leased nothing\<close>

definition keeps_leased :: "batch_report \<Rightarrow> batch_report runtime \<Rightarrow> bool" where
  "keeps_leased r m \<longleftrightarrow> (\<forall>s r' s'. m s = (Inr r', s') \<longrightarrow> br_leased r' = br_leased r)"

lemma report_leased [simp]:
  "br_leased (count_release b r) = br_leased r" "br_leased (count_terminal st r) = br_leased r"
  "br_leased (count_retry n r) = br_leased r" "br_leased (count_refusal out r) = br_leased r"
  "br_leased (account_recorded outcome r) = br_leased r"
  "br_leased (snd (account_unsettled_outcome outcome r)) = br_leased r"
  "br_leased (count_in_flight r) = br_leased r" "br_leased (push_failure item b cause r) = br_leased r"
  by (auto simp: count_release_def count_terminal_def count_retry_def count_refusal_def count_in_flight_def push_failure_def
      split: attempt_refusal_outcome.split)
    (cases outcome; simp add: count_terminal_def count_retry_def)+

lemma unsettled_leased: "account_unsettled_outcome outcome r = (b, r') \<Longrightarrow> br_leased r' = br_leased r"
  using report_leased(6) [of outcome r] by simp

lemma step_leased:
  "keeps_leased r (release_unanswered item retry r)" "keeps_leased r (release_unattempted item now r)"
  "keeps_leased r (fail_attempt item cause retry r)" "keeps_leased r (runtime_record sha policy receipt r)"
  "keeps_leased r (record_cancelled sha item started finished now (count_in_flight r))"
  "keeps_leased r (refuse_terminal sha item refusal cause started finished retry r)"
  unfolding keeps_leased_def
  by (auto simp: runtime_steps rt_return_def rt_result_def split: sum.splits elim!: rt_bind_Inr dest!: unsettled_leased)

lemma dispatch_items_leased: "keeps_leased r (dispatch_items sha policy api env q items r)"
proof (induction items arbitrary: r)
  case (Cons item items)
  have "keeps_leased r (settle_attempt sha policy api item cancelled now retry attempt r)" for cancelled now retry attempt
    by (rule settle_attempt_cases [of sha policy api item cancelled now retry attempt r]) (simp_all add: step_leased)
  then have first: "keeps_leased r (dispatch_item sha policy api env q item r)"
    using step_leased(2,3) [of r item] unfolding keeps_leased_def dispatch_item_def Let_def by (simp split: sum.split)
  show ?case
    unfolding keeps_leased_def
  proof (intro allI impI)
    fix s r' s' assume "dispatch_items sha policy api env q (item # items) r s = (Inr r', s')"
    then obtain r1 s1 where "dispatch_item sha policy api env q item r s = (Inr r1, s1)"
      "dispatch_items sha policy api env q items r1 s1 = (Inr r', s')" by (auto elim: rt_bind_Inr)
    then have "br_leased r1 = br_leased r" "br_leased r' = br_leased r1" using first Cons.IH unfolding keeps_leased_def by blast+
    then show "br_leased r' = br_leased r" by simp
  qed
qed (simp add: keeps_leased_def rt_return_def)

lemma quiet_round_idle:
  assumes "store_ok s" "\<not> re_cancelled_at_start env" "dispatch_batch sha policy api env q s = (Inr r, s')" "br_leased r = 0"
    and "\<forall>d\<in>set (st_delivery s'). d_attempt_number d < u32_max"
  shows "\<forall>x\<in>set (joined s'). \<not> lease_ready (dq_lease q) x"
  using assms(3)
proof (cases rule: dispatch_batch_run)
  case (leased batch s1)
  let ?start = "default_report\<lparr>br_leased := min (length batch) u32_max\<rparr>"
  have "br_leased r = br_leased ?start"
    using dispatch_items_leased [of ?start sha policy api env q batch] leased(3) unfolding keeps_leased_def by blast
  with assms(4) have "min (length batch) u32_max = 0" by simp
  then have "batch = []" by (simp add: u32_max_def min_def split: if_splits)
  with leased(3) have "s' = s1" by (simp add: rt_return_def)
  with empty_batch_idle [OF assms(1), of sha policy "dq_lease q" s1] leased(2) assms(5) \<open>batch = []\<close> show ?thesis by simp
qed (use assms(2) in simp)

lemma journal_trace_ok: "journal_trace sha policy s s' \<Longrightarrow> store_ok s \<Longrightarrow> store_ok s'"
  unfolding journal_trace_def using journal.fold_ok by blast


subsection \<open>Examples\<close>

lemma sample_quiesced:
  "\<exists>report. drain zero_sha sample_policy (\<lambda>_. '''') sample_dispatch sample_bounds (\<lambda>_. sample_tick) sample_leased_store =
    Some (Inr report, sample_leased_store) \<and> dn_stop report = Quiesced"
  by (simp add: drain_def drain_loop.simps sample_quiet_round default_report_def default_drain_report_def)


text \<open>The proviso is needed.  The drain reads the shutdown token, and the round reads it again
  before it leases.  A shutdown that lands between the two makes the round return an empty report,
  which the drain takes for an empty queue: it reports \<^verbatim>\<open>Quiesced\<close>, so that no more work is pending,
  although a row is waiting.\<close>
lemma drain_quiesced_on_shutdown:
  "\<exists>report. drain zero_sha sample_policy (\<lambda>_. '''') sample_dispatch sample_bounds
      (\<lambda>_. sample_tick\<lparr>dt_round := sample_round\<lparr>re_cancelled_at_start := True\<rparr>\<rparr>) sample_store =
      Some (Inr report, sample_store) \<and> \<not> more_work_pending report \<and>
    (\<exists>x\<in>set (joined sample_store). lease_ready sample_lease_request x)"
proof -
  have "joined sample_store = [(sample_delivery 1 sample_digest 0, sample_journal 1 sample_digest)]"
    by (simp add: joined_def find_journal_key_def sample_store_waiting)
  then show ?thesis
    by (simp add: drain_def drain_loop.simps dispatch_batch_def rt_bind_def rt_result_def rt_return_def
        default_report_def default_drain_report_def more_work_pending_def lease_ready_def)
qed

end
