(* ===== verification/Backpressure.thy ===== *)
theory Backpressure
  imports Journal_Append
begin

text \<open>
  Backpressure (\<^verbatim>\<open>runtime/backpressure.rs\<close>): the measurement of a lane's backlog, the load class of
  an observation and the gate that admits or sheds it.  What the gate admits the journal's own
  ceiling admits, optional work is refused first, and required work is refused only past the
  declared refusal threshold.
\<close>

subsection \<open>Classes, states and reasons\<close>

definition UTILIZATION_SCALE_PPM :: nat where "UTILIZATION_SCALE_PPM = 1000000"

datatype load_class = Optional | Required

fun load_class_of :: "retention_class \<Rightarrow> load_class" where
  "load_class_of Ephemeral = Optional"
| "load_class_of Session = Optional"
| "load_class_of Project = Required"
| "load_class_of Profile = Required"

fun load_class_as_wire :: "load_class \<Rightarrow> string" where
  "load_class_as_wire Optional = ''optional''"
| "load_class_as_wire Required = ''required''"

datatype backpressure_state = Nominal | SheddingOptional | Saturated

datatype backpressure_reason = QueueUtilization | BacklogAge | ForegroundBudget | QueueCeiling

subsection \<open>Policy, measurements and decisions\<close>

record backpressure_policy =
  bp_shed_optional_at :: nat
  bp_refuse_at :: nat
  bp_max_backlog_age :: micros
  bp_foreground_budget :: micros
  bp_foreground_breach_streak :: nat

definition backpressure_policy_validate :: "backpressure_policy \<Rightarrow> unit journal_result" where
  "backpressure_policy_validate p = first_error
    [if bp_shed_optional_at p = 0 \<or> UTILIZATION_SCALE_PPM < bp_shed_optional_at p
       then Inl (InvalidBackpressurePolicy ''shed_optional_at_ppm'') else Inr (),
     if bp_refuse_at p \<le> bp_shed_optional_at p \<or> UTILIZATION_SCALE_PPM < bp_refuse_at p
       then Inl (InvalidBackpressurePolicy ''refuse_at_ppm'') else Inr (),
     if bp_max_backlog_age p \<le> 0 then Inl (InvalidBackpressurePolicy ''max_backlog_age_micros'') else Inr (),
     if bp_foreground_budget p \<le> 0 then Inl (InvalidBackpressurePolicy ''foreground_budget_micros'') else Inr (),
     if bp_foreground_breach_streak p = 0 then Inl (InvalidBackpressurePolicy ''foreground_breach_streak'')
       else Inr ()]"

datatype foreground_outcome =
    WithinBudget micros micros
  | BudgetExceeded micros micros nat

record queue_backlog =
  qb_queue_items :: nat
  qb_queue_bytes :: nat
  qb_max_queue_items :: nat
  qb_max_queue_bytes :: nat
  qb_items_utilization :: nat
  qb_bytes_utilization :: nat
  qb_utilization :: nat
  qb_oldest_age :: micros
  qb_foreground_latency :: "micros option"
  qb_foreground_breaches :: nat
  qb_trigger :: "backpressure_reason option"
  qb_state :: backpressure_state
  qb_observed_at :: micros

record backpressure_refusal =
  bf_load_class :: load_class
  bf_reason :: backpressure_reason
  bf_state :: backpressure_state
  bf_additional_bytes :: nat
  bf_projected_utilization :: nat
  bf_backlog :: queue_backlog

datatype backpressure_decision = Admit | Shed backpressure_refusal

record backpressure_halt =
  bh_source_sequence :: nat
  bh_source_event_id :: string
  bh_refusal :: backpressure_refusal

subsection \<open>The gate\<close>

record backpressure_gate =
  bg_policy :: backpressure_policy
  bg_foreground_micros :: micros
  bg_foreground_breaches :: nat
  bg_last_backlog :: "queue_backlog option"

definition NO_FOREGROUND_SAMPLE :: micros where "NO_FOREGROUND_SAMPLE = - 1"

definition gate_new :: "backpressure_policy \<Rightarrow> backpressure_gate journal_result" where
  "gate_new p = res_bind (backpressure_policy_validate p) (\<lambda>_.
    Inr \<lparr>bg_policy = p, bg_foreground_micros = NO_FOREGROUND_SAMPLE, bg_foreground_breaches = 0,
      bg_last_backlog = None\<rparr>)"

text \<open>The breach counter is an \<^verbatim>\<open>AtomicU32\<close>: \<^verbatim>\<open>fetch_add\<close> wraps, while the returned count is the
  old value plus one, saturating.\<close>
definition observe_foreground :: "micros \<Rightarrow> backpressure_gate \<Rightarrow> foreground_outcome \<times> backpressure_gate" where
  "observe_foreground elapsed g =
    (let elapsed = max elapsed 0; budget = bp_foreground_budget (bg_policy g); g1 = g\<lparr>bg_foreground_micros := elapsed\<rparr>
     in if budget < elapsed
        then (BudgetExceeded elapsed budget (sat_add_u32 (bg_foreground_breaches g) 1),
          g1\<lparr>bg_foreground_breaches := (bg_foreground_breaches g + 1) mod 2 ^ 32\<rparr>)
        else (WithinBudget elapsed budget, g1\<lparr>bg_foreground_breaches := 0\<rparr>))"

definition foreground_sample :: "backpressure_gate \<Rightarrow> micros option" where
  "foreground_sample g = (if 0 \<le> bg_foreground_micros g then Some (bg_foreground_micros g) else None)"

definition utilization_ppm :: "nat \<Rightarrow> nat \<Rightarrow> nat" where
  "utilization_ppm used capacity =
    (if capacity = 0 then UTILIZATION_SCALE_PPM
     else let scaled = sat_mul_u64 used UTILIZATION_SCALE_PPM div capacity
       in if scaled \<le> u32_max then scaled else UTILIZATION_SCALE_PPM)"

definition measured_state :: "backpressure_gate \<Rightarrow> nat \<Rightarrow> micros \<Rightarrow> nat \<Rightarrow> backpressure_state \<times> backpressure_reason option" where
  "measured_state g utilization age items =
    (if bp_refuse_at (bg_policy g) \<le> utilization then (Saturated, Some QueueUtilization)
     else if bp_shed_optional_at (bg_policy g) \<le> utilization then (SheddingOptional, Some QueueUtilization)
     else if bp_max_backlog_age (bg_policy g) \<le> age \<and> 0 < items then (SheddingOptional, Some BacklogAge)
     else if bp_foreground_breach_streak (bg_policy g) \<le> bg_foreground_breaches g then (SheddingOptional, Some ForegroundBudget)
     else (Nominal, None))"

definition observe :: "queue_pressure \<Rightarrow> micros \<Rightarrow> backpressure_gate \<Rightarrow> queue_backlog \<times> backpressure_gate" where
  "observe p now g =
    (let items = utilization_ppm (qp_queue_items p) (qp_max_queue_items p);
         bytes = utilization_ppm (qp_queue_bytes p) (qp_max_queue_bytes p);
         age = max 0 (case qp_oldest_admitted_at p of None \<Rightarrow> 0 | Some admitted \<Rightarrow> sat_sub_i64 now admitted);
         (state, trigger) = measured_state g (max items bytes) age (qp_queue_items p);
         backlog = \<lparr>qb_queue_items = qp_queue_items p, qb_queue_bytes = qp_queue_bytes p,
           qb_max_queue_items = qp_max_queue_items p, qb_max_queue_bytes = qp_max_queue_bytes p,
           qb_items_utilization = items, qb_bytes_utilization = bytes, qb_utilization = max items bytes,
           qb_oldest_age = age, qb_foreground_latency = foreground_sample g,
           qb_foreground_breaches = bg_foreground_breaches g, qb_trigger = trigger, qb_state = state,
           qb_observed_at = now\<rparr>
     in (backlog, g\<lparr>bg_last_backlog := Some backlog\<rparr>))"

definition projected_utilization :: "queue_backlog \<Rightarrow> nat \<Rightarrow> nat" where
  "projected_utilization b additional =
    max (utilization_ppm (sat_add_u64 (qb_queue_items b) 1) (qb_max_queue_items b))
      (utilization_ppm (sat_add_u64 (qb_queue_bytes b) additional) (qb_max_queue_bytes b))"

definition decide :: "backpressure_gate \<Rightarrow> queue_backlog \<Rightarrow> load_class \<Rightarrow> nat \<Rightarrow> backpressure_decision" where
  "decide g b cls additional =
    (let projected = projected_utilization b additional;
         shed = (\<lambda>reason state. Shed \<lparr>bf_load_class = cls, bf_reason = reason, bf_state = state,
           bf_additional_bytes = additional, bf_projected_utilization = projected, bf_backlog = b\<rparr>)
     in if qb_max_queue_items b \<le> qb_queue_items b \<or> qb_max_queue_bytes b < sat_add_u64 (qb_queue_bytes b) additional
        then shed QueueCeiling Saturated
        else if bp_refuse_at (bg_policy g) < projected then shed QueueUtilization Saturated
        else if bp_shed_optional_at (bg_policy g) < projected \<and> cls = Optional
        then shed QueueUtilization SheddingOptional
        else case qb_state b of
          Nominal \<Rightarrow> Admit
        | SheddingOptional \<Rightarrow> (case cls of Required \<Rightarrow> Admit
            | Optional \<Rightarrow> shed (unwrap_or QueueUtilization (qb_trigger b)) (qb_state b))
        | Saturated \<Rightarrow> shed (unwrap_or QueueUtilization (qb_trigger b)) (qb_state b))"

subsection \<open>What the gate promises\<close>

lemma observe_reading:
  assumes "observe p now g = (b, g')"
  shows "qb_queue_items b = qp_queue_items p" "qb_queue_bytes b = qp_queue_bytes p"
    "qb_max_queue_items b = qp_max_queue_items p" "qb_max_queue_bytes b = qp_max_queue_bytes p"
    "bg_policy g' = bg_policy g" "g' = g\<lparr>bg_last_backlog := Some b\<rparr>"
    "qb_utilization b = max (utilization_ppm (qp_queue_items p) (qp_max_queue_items p))
      (utilization_ppm (qp_queue_bytes p) (qp_max_queue_bytes p))"
    "(qb_state b, qb_trigger b) = measured_state g (qb_utilization b) (qb_oldest_age b) (qp_queue_items p)"
  using assms by (auto simp: observe_def Let_def split: prod.splits)

lemma decide_Admit:
  "decide g b cls additional = Admit \<longleftrightarrow>
    qb_queue_items b < qb_max_queue_items b \<and> sat_add_u64 (qb_queue_bytes b) additional \<le> qb_max_queue_bytes b \<and>
    projected_utilization b additional \<le> bp_refuse_at (bg_policy g) \<and> qb_state b \<noteq> Saturated \<and>
    (cls = Required \<or> projected_utilization b additional \<le> bp_shed_optional_at (bg_policy g) \<and> qb_state b = Nominal)"
  by (cases cls; cases "qb_state b") (auto simp: decide_def Let_def)

text \<open>The scaled figure is exact as long as the product fits and the lane is not over its
  ceiling, so a threshold on it is a threshold on the fraction in use.\<close>
lemma utilization_exact:
  assumes "used \<le> capacity" "used * UTILIZATION_SCALE_PPM \<le> u64_max" "0 < capacity"
  shows "utilization_ppm used capacity = used * UTILIZATION_SCALE_PPM div capacity"
proof -
  have "used * UTILIZATION_SCALE_PPM div capacity \<le> UTILIZATION_SCALE_PPM"
    using div_le_mono [of "used * UTILIZATION_SCALE_PPM" "capacity * UTILIZATION_SCALE_PPM" capacity] assms(1,3) by simp
  then show ?thesis
    using assms(2,3) by (simp add: utilization_ppm_def sat_mul_u64_def Let_def UTILIZATION_SCALE_PPM_def u32_max_def)
qed

lemma measured_Saturated: "fst (measured_state g u age n) = Saturated \<longleftrightarrow> bp_refuse_at (bg_policy g) \<le> u"
  by (auto simp: measured_state_def)


text \<open>Together with the journal: an append that the gate admitted on the current reading of its
  lane is never refused for capacity.\<close>
lemma admitted_within_capacity:
  assumes "read_pressure s (lane_of (ao_target a)) policy = Inr p" "observe p now g = (b, g')"
    and "decide g' b cls (ao_queue_bytes a) = Admit"
  shows "append_capacity sha policy a s = Inr None"
  using observe_reading(1-4) [OF assms(2)] assms(1,3) by (auto simp: append_capacity_def decide_Admit would_exceed_def)

text \<open>Two limits of the figures.  On a lane whose ceiling is beyond \<^verbatim>\<open>u64\<close> range over the scale
  the product saturates, and a full lane reads as almost empty; and the breach counter wraps to
  zero after \<^verbatim>\<open>2^32\<close> breaches in a row, although the outcome reports a saturated count.\<close>
lemma full_lane_reads_empty: "utilization_ppm (2 ^ 63) (2 ^ 63) = 1"
  by (simp add: utilization_ppm_def sat_mul_u64_def UTILIZATION_SCALE_PPM_def u64_max_def u32_max_def Let_def)

lemma utilization_beyond_scale: "UTILIZATION_SCALE_PPM < utilization_ppm 2 1"
  by (simp add: utilization_ppm_def sat_mul_u64_def UTILIZATION_SCALE_PPM_def u64_max_def u32_max_def Let_def)

definition sample_backpressure :: backpressure_policy where
  "sample_backpressure = \<lparr>bp_shed_optional_at = 500000, bp_refuse_at = 900000, bp_max_backlog_age = 100,
    bp_foreground_budget = 10, bp_foreground_breach_streak = 3\<rparr>"

definition sample_gate :: backpressure_gate where
  "sample_gate = \<lparr>bg_policy = sample_backpressure, bg_foreground_micros = NO_FOREGROUND_SAMPLE,
    bg_foreground_breaches = 0, bg_last_backlog = None\<rparr>"

lemma sample_gate_new: "gate_new sample_backpressure = Inr sample_gate"
  by (simp add: gate_new_def backpressure_policy_validate_def sample_backpressure_def sample_gate_def UTILIZATION_SCALE_PPM_def)

lemma breach_counter_wraps:
  "\<exists>n. observe_foreground 20 (sample_gate\<lparr>bg_foreground_breaches := 2 ^ 32 - 1\<rparr>) =
    (BudgetExceeded 20 10 n, sample_gate\<lparr>bg_foreground_micros := 20, bg_foreground_breaches := 0\<rparr>) \<and> n = u32_max"
  by (simp add: observe_foreground_def sample_gate_def sample_backpressure_def sat_add_u32_def u32_max_def Let_def)


end
