(* ===== verification/Ingress_Runtime.thy ===== *)
theory Ingress_Runtime
  imports Backpressure Delivery_Runtime
begin

text \<open>
  The ingress runtime (\<^verbatim>\<open>runtime/ingress.rs\<close>): it recovers a stream's replay position and walks a
  batch of canonical records through backpressure, the admission adapter and the journal.  The
  adapter's answers, the caller's clock, deadline and cancellation as they are read, the wall
  clock, and the journal operations of other processes that run while the adapter decides are the
  environment of the call.
\<close>

subsection \<open>Records, controls and decisions\<close>

record 'r source_record =
  sc_stream :: stream_key
  sc_source_sequence :: nat
  sc_source_event_id :: string
  sc_source_event_revision :: nat
  sc_record :: 'r

text \<open>One reading of the caller's control.\<close>
record ingress_control =
  ic_now :: micros
  ic_deadline :: micros
  ic_cancelled :: bool

definition control_remaining :: "ingress_control \<Rightarrow> micros" where
  "control_remaining c = max (sat_sub_i64 (ic_deadline c) (ic_now c)) 0"

definition control_is_expired :: "ingress_control \<Rightarrow> bool" where
  "control_is_expired c \<longleftrightarrow> control_remaining c = 0"

datatype ingress_stop_reason = StopCancelled | StopDeadlineExceeded

record ingress_stop =
  is_reason :: ingress_stop_reason
  is_source_sequence :: nat
  is_source_event_id :: string

datatype admission_decision =
    AdmitObservation admitted_observation
  | WithholdAdmission withheld_admission
  | NonMessageEvidence settlement_receipt

text \<open>The adapter's answers about a record, and what the call reads while it handles it.\<close>
record 'r ingress_env =
  ie_lane :: "'r source_record \<Rightarrow> lane"
  ie_classify :: "'r source_record \<Rightarrow> load_class"
  ie_decide :: "'r source_record \<Rightarrow> adapter_failure + admission_decision"
  ie_before :: "'r source_record \<Rightarrow> ingress_control"
  ie_now :: "'r source_record \<Rightarrow> micros"
  ie_meanwhile :: "'r source_record \<Rightarrow> journal_event list"
  ie_after :: "'r source_record \<Rightarrow> ingress_control"
  ie_wall_clock :: "'r source_record \<Rightarrow> micros"
  ie_final_now :: micros

record ingress_resume =
  ig_stream :: stream_key
  ig_resume_after :: "nat option"
  ig_last_disposition :: "replay_disposition option"
  ig_last_source_event_id :: "string option"
  ig_updated_at :: "micros option"

definition accepts :: "ingress_resume \<Rightarrow> nat \<Rightarrow> bool" where
  "accepts resume sequence = (case ig_resume_after resume of None \<Rightarrow> True | Some after \<Rightarrow> after < sequence)"

record ingress_halt =
  ih_source_sequence :: nat
  ih_source_event_id :: string
  ih_outcome :: append_outcome

record ingress_report =
  gr_records_considered :: nat
  gr_already_processed :: nat
  gr_appended :: nat
  gr_withheld :: nat
  gr_non_messages :: nat
  gr_duplicates :: nat
  gr_high_watermark :: "nat option"
  gr_halted_on :: "ingress_halt option"
  gr_shed :: nat
  gr_shed_on :: "backpressure_halt option"
  gr_stopped_on :: "ingress_stop option"
  gr_backlog :: "queue_backlog option"
  gr_delivery_signalled :: bool

definition default_ingress_report :: ingress_report where
  "default_ingress_report = \<lparr>gr_records_considered = 0, gr_already_processed = 0, gr_appended = 0, gr_withheld = 0,
    gr_non_messages = 0, gr_duplicates = 0, gr_high_watermark = None, gr_halted_on = None, gr_shed = 0,
    gr_shed_on = None, gr_stopped_on = None, gr_backlog = None, gr_delivery_signalled = False\<rparr>"

subsection \<open>Checks\<close>

definition caller_stop :: "ingress_control \<Rightarrow> 'r source_record \<Rightarrow> ingress_stop option" where
  "caller_stop c rec =
    (if ic_cancelled c then Some \<lparr>is_reason = StopCancelled, is_source_sequence = sc_source_sequence rec,
       is_source_event_id = sc_source_event_id rec\<rparr>
     else if control_is_expired c then Some \<lparr>is_reason = StopDeadlineExceeded,
       is_source_sequence = sc_source_sequence rec, is_source_event_id = sc_source_event_id rec\<rparr>
     else None)"

fun order_from :: "ingress_resume \<Rightarrow> nat option \<Rightarrow> 'r source_record list \<Rightarrow> runtime_error + unit" where
  "order_from resume previous [] = Inr ()"
| "order_from resume previous (rec # recs) =
    (if sc_stream rec \<noteq> ig_stream resume
     then Inl (StreamMismatch (sk_source_stream (ig_stream resume)) (sk_source_stream (sc_stream rec)))
     else case previous of
       Some p \<Rightarrow> if sc_source_sequence rec \<le> p then Inl (UnorderedIngressBatch p (sc_source_sequence rec))
         else order_from resume (Some (sc_source_sequence rec)) recs
     | None \<Rightarrow> order_from resume (Some (sc_source_sequence rec)) recs)"

definition require_authoritative_order :: "ingress_resume \<Rightarrow> 'r source_record list \<Rightarrow> runtime_error + unit" where
  "require_authoritative_order resume recs = order_from resume None recs"

definition mismatch :: "'r source_record \<Rightarrow> string \<Rightarrow> string \<Rightarrow> string \<Rightarrow> runtime_error + unit" where
  "mismatch rec field expected provided =
    (if expected = provided then Inr ()
     else Inl (AdmissionIdentityMismatch (sc_source_event_id rec) (sc_source_sequence rec) field expected provided))"

definition verify_source :: "'r source_record \<Rightarrow> settlement_receipt \<Rightarrow> runtime_error + unit" where
  "verify_source rec src = first_error
    [mismatch rec ''source_authority'' (authority_as_wire (sk_source_authority (sc_stream rec)))
       (authority_as_wire (sr_source_authority src)),
     mismatch rec ''source_stream'' (sk_source_stream (sc_stream rec)) (sr_source_stream src),
     mismatch rec ''source_sequence'' (decimal (sc_source_sequence rec)) (decimal (sr_source_sequence src)),
     mismatch rec ''source_event_id'' (sc_source_event_id rec) (sr_source_event_id src),
     mismatch rec ''source_event_revision'' (decimal (sc_source_event_revision rec))
       (decimal (sr_source_event_revision src))]"

definition verify_admitted :: "sha \<Rightarrow> 'r source_record \<Rightarrow> admitted_observation \<Rightarrow> runtime_error + unit" where
  "verify_admitted sha rec a = first_error
    [mismatch rec ''exact_scope_sha256'' (sk_exact_scope_sha256 (sc_stream rec)) (exact_scope_sha256 sha (ao_exact_scope a)),
     verify_source rec (ao_source a)]"

definition verify_withheld :: "'r source_record \<Rightarrow> withheld_admission \<Rightarrow> runtime_error + unit" where
  "verify_withheld rec w = first_error
    [mismatch rec ''source_authority'' (authority_as_wire (sk_source_authority (sc_stream rec))) (wa_source_authority w),
     mismatch rec ''exact_scope_sha256'' (sk_exact_scope_sha256 (sc_stream rec)) (wa_exact_scope_sha256 w),
     mismatch rec ''source_stream'' (sk_source_stream (sc_stream rec)) (wa_source_stream w),
     mismatch rec ''source_sequence'' (decimal (sc_source_sequence rec)) (decimal (wa_source_sequence w)),
     mismatch rec ''source_event_id'' (sc_source_event_id rec) (wa_source_event_id w),
     mismatch rec ''source_event_revision'' (decimal (sc_source_event_revision rec)) (wa_source_event_revision w)]"

subsection \<open>One record\<close>

text \<open>A step of the batch tells whether the loop goes on; a stop leaves the record undecided.\<close>
datatype ingest_step = Continue ingress_report | Break ingress_report

definition shed_at :: "'r source_record \<Rightarrow> backpressure_refusal \<Rightarrow> ingress_report \<Rightarrow> ingress_report" where
  "shed_at rec refusal r = r\<lparr>gr_shed := sat_add_u32 (gr_shed r) 1, gr_shed_on := Some
    \<lparr>bh_source_sequence = sc_source_sequence rec, bh_source_event_id = sc_source_event_id rec, bh_refusal = refusal\<rparr>\<rparr>"

definition halt_at :: "'r source_record \<Rightarrow> append_outcome \<Rightarrow> ingress_report \<Rightarrow> ingest_step" where
  "halt_at rec outcome r = Break (r\<lparr>gr_halted_on := Some \<lparr>ih_source_sequence = sc_source_sequence rec,
    ih_source_event_id = sc_source_event_id rec, ih_outcome = outcome\<rparr>\<rparr>)"

definition account_append :: "'r source_record \<Rightarrow> append_outcome \<Rightarrow> ingress_report \<Rightarrow> ingest_step" where
  "account_append rec outcome r = (case outcome of
      Appended _ _ \<Rightarrow> Continue (r\<lparr>gr_appended := sat_add_u32 (gr_appended r) 1,
        gr_high_watermark := Some (sc_source_sequence rec)\<rparr>)
    | DuplicateIdempotencyKey _ _ \<Rightarrow> Continue (r\<lparr>gr_duplicates := sat_add_u32 (gr_duplicates r) 1,
        gr_high_watermark := Some (sc_source_sequence rec)\<rparr>)
    | DuplicateSourceEvent _ _ \<Rightarrow> Continue (r\<lparr>gr_duplicates := sat_add_u32 (gr_duplicates r) 1,
        gr_high_watermark := Some (sc_source_sequence rec)\<rparr>)
    | refusal \<Rightarrow> halt_at rec refusal r)"

definition ingest_admitted ::
  "sha \<Rightarrow> retention_policy \<Rightarrow> 'r ingress_env \<Rightarrow> backpressure_gate \<Rightarrow> queue_backlog \<Rightarrow> load_class \<Rightarrow> 'r source_record \<Rightarrow>
    admitted_observation \<Rightarrow> ingress_report \<Rightarrow> ingest_step runtime" where
  "ingest_admitted sha policy env g backlog declared rec a r s =
    (case verify_admitted sha rec a of Inl e \<Rightarrow> (Inl e, s) | Inr _ \<Rightarrow>
     let cls = load_class_of (pv_retention_class (ao_privacy a)) in
     if cls \<noteq> declared then (Inl (LoadClassMismatch (sc_source_event_id rec) (sc_source_sequence rec)
       (load_class_as_wire declared) (load_class_as_wire cls)), s)
     else case caller_stop (ie_after env rec) rec of Some stop \<Rightarrow> (Inr (Break (r\<lparr>gr_stopped_on := Some stop\<rparr>)), s) | None \<Rightarrow>
     case decide g backlog cls (ao_queue_bytes a) of Shed refusal \<Rightarrow> (Inr (Break (shed_at rec refusal r)), s) | Admit \<Rightarrow>
     rt_bind (journal_call (append_admitted sha policy a)) (\<lambda>outcome. rt_return (account_append rec outcome r)) s)"

definition ingest_non_message ::
  "'r ingress_env \<Rightarrow> 'r source_record \<Rightarrow> settlement_receipt \<Rightarrow> ingress_report \<Rightarrow> ingest_step runtime" where
  "ingest_non_message env rec src r s =
    (case verify_source rec src of Inl e \<Rightarrow> (Inl e, s) | Inr _ \<Rightarrow>
     case caller_stop (ie_after env rec) rec of Some stop \<Rightarrow> (Inr (Break (r\<lparr>gr_stopped_on := Some stop\<rparr>)), s) | None \<Rightarrow>
     rt_bind (journal_call (record_non_message (sc_stream rec) src (ie_wall_clock env rec))) (\<lambda>_. rt_return (Continue
       (r\<lparr>gr_non_messages := sat_add_u32 (gr_non_messages r) 1, gr_high_watermark := Some (sc_source_sequence rec)\<rparr>))) s)"

definition ingest_withheld ::
  "sha \<Rightarrow> 'r ingress_env \<Rightarrow> 'r source_record \<Rightarrow> withheld_admission \<Rightarrow> ingress_report \<Rightarrow> ingest_step runtime" where
  "ingest_withheld sha env rec w r s =
    (case verify_withheld rec w of Inl e \<Rightarrow> (Inl e, s) | Inr _ \<Rightarrow>
     rt_bind (journal_call (record_withheld_at sha w (ie_wall_clock env rec))) (\<lambda>_. rt_return (Continue
       (r\<lparr>gr_withheld := sat_add_u32 (gr_withheld r) 1, gr_high_watermark := Some (sc_source_sequence rec)\<rparr>))) s)"

fun commit_decision ::
  "sha \<Rightarrow> retention_policy \<Rightarrow> 'r ingress_env \<Rightarrow> backpressure_gate \<Rightarrow> queue_backlog \<Rightarrow> load_class \<Rightarrow> 'r source_record \<Rightarrow>
    admission_decision \<Rightarrow> ingress_report \<Rightarrow> ingest_step runtime" where
  "commit_decision sha policy env g backlog declared rec (AdmitObservation a) r =
    ingest_admitted sha policy env g backlog declared rec a r"
| "commit_decision sha policy env g backlog declared rec (NonMessageEvidence src) r = ingest_non_message env rec src r"
| "commit_decision sha policy env g backlog declared rec (WithholdAdmission w) r = ingest_withheld sha env rec w r"

text \<open>A record the recovered position does not accept was decided by an earlier call.\<close>
definition skip_processed :: "'r source_record \<Rightarrow> ingress_report \<Rightarrow> ingest_step runtime" where
  "skip_processed rec r s = rt_bind (rt_result (validate_replay_identity s (sc_stream rec) (sc_source_sequence rec)
      (sc_source_event_id rec) (sc_source_event_revision rec)))
    (\<lambda>_. rt_return (Continue (r\<lparr>gr_already_processed := sat_add_u32 (gr_already_processed r) 1\<rparr>))) s"

text \<open>The gate and the last measured lane are carried beside the journal.\<close>
type_synonym ingest_state = "lane option \<times> backpressure_gate \<times> journal_store"

definition ingest_record ::
  "sha \<Rightarrow> retention_policy \<Rightarrow> 'r ingress_env \<Rightarrow> ingress_resume \<Rightarrow> 'r source_record \<Rightarrow> ingress_report \<Rightarrow> ingest_state \<Rightarrow>
    (runtime_error + ingest_step) \<times> ingest_state" where
  "ingest_record sha policy env resume rec r = (\<lambda>(last_lane, g, s).
    let r1 = r\<lparr>gr_records_considered := sat_add_u32 (gr_records_considered r) 1\<rparr> in
    if \<not> accepts resume (sc_source_sequence rec)
    then let (out, s') = skip_processed rec r1 s in (out, last_lane, g, s')
    else case caller_stop (ie_before env rec) rec of
      Some stop \<Rightarrow> (Inr (Break (r1\<lparr>gr_stopped_on := Some stop\<rparr>)), last_lane, g, s)
    | None \<Rightarrow> (case lane_pressure s (ie_lane env rec) policy of
        Inl e \<Rightarrow> (Inl (Journal e), last_lane, g, s)
      | Inr pressure \<Rightarrow>
        let (backlog, g1) = observe pressure (ie_now env rec) g;
            r2 = r1\<lparr>gr_backlog := Some backlog\<rparr>; declared = ie_classify env rec; lane = Some (ie_lane env rec)
        in case decide g1 backlog declared 0 of
          Shed refusal \<Rightarrow> (Inr (Break (shed_at rec refusal r2)), lane, g1, s)
        | Admit \<Rightarrow>
          let s1 = fold (run_journal sha policy) (ie_meanwhile env rec) s
          in case ie_decide env rec of
            Inl cause \<Rightarrow> (case caller_stop (ie_after env rec) rec of
                Some stop \<Rightarrow> (Inr (Break (r2\<lparr>gr_stopped_on := Some stop\<rparr>)), lane, g1, s1)
              | None \<Rightarrow> (Inl (Admission (sc_source_event_id rec) (sc_source_sequence rec) cause), lane, g1, s1))
          | Inr decision \<Rightarrow>
              let (out, s2) = commit_decision sha policy env g1 backlog declared rec decision r2 s1
              in (out, lane, g1, s2)))"

subsection \<open>The batch\<close>

fun ingest_records ::
  "sha \<Rightarrow> retention_policy \<Rightarrow> 'r ingress_env \<Rightarrow> ingress_resume \<Rightarrow> 'r source_record list \<Rightarrow> ingress_report \<Rightarrow> ingest_state \<Rightarrow>
    (runtime_error + ingress_report) \<times> ingest_state" where
  "ingest_records sha policy env resume [] r st = (Inr r, st)"
| "ingest_records sha policy env resume (rec # recs) r st =
    (case ingest_record sha policy env resume rec r st of
      (Inl e, st') \<Rightarrow> (Inl e, st')
    | (Inr (Break r'), st') \<Rightarrow> (Inr r', st')
    | (Inr (Continue r'), st') \<Rightarrow> ingest_records sha policy env resume recs r' st')"

definition refresh_backlog ::
  "retention_policy \<Rightarrow> lane \<Rightarrow> micros \<Rightarrow> backpressure_gate \<Rightarrow> journal_store \<Rightarrow>
    (runtime_error + queue_backlog) \<times> backpressure_gate" where
  "refresh_backlog policy l now g s = (case lane_pressure s l policy of
      Inl e \<Rightarrow> (Inl (Journal e), g)
    | Inr pressure \<Rightarrow> let (backlog, g') = observe pressure now g in (Inr backlog, g'))"

definition recover :: "stream_key \<Rightarrow> journal_store \<Rightarrow> ingress_resume journal_result" where
  "recover stream s = res_bind (replay_cursor s stream) (\<lambda>cursor. Inr (case cursor of
      Some c \<Rightarrow> \<lparr>ig_stream = stream, ig_resume_after = Some (rc_last_admitted_sequence c),
        ig_last_disposition = Some (rc_last_disposition c),
        ig_last_source_event_id = Some (rc_last_source_event_id c), ig_updated_at = Some (rc_updated_at c)\<rparr>
    | None \<Rightarrow> \<lparr>ig_stream = stream, ig_resume_after = None, ig_last_disposition = None,
        ig_last_source_event_id = None, ig_updated_at = None\<rparr>))"

definition republish ::
  "retention_policy \<Rightarrow> 'r ingress_env \<Rightarrow> ingress_report \<Rightarrow> ingest_state \<Rightarrow>
    (runtime_error + ingress_report) \<times> ingest_state" where
  "republish policy env r = (\<lambda>(last_lane, g, s). case last_lane of
      Some l \<Rightarrow> if 0 < gr_appended r then
          (case refresh_backlog policy l (ie_final_now env) g s of
            (Inl e, g') \<Rightarrow> (Inl e, last_lane, g', s)
          | (Inr backlog, g') \<Rightarrow> (Inr (r\<lparr>gr_backlog := Some backlog\<rparr>), last_lane, g', s))
        else (Inr r, last_lane, g, s)
    | None \<Rightarrow> (Inr r, last_lane, g, s))"

definition ingest ::
  "sha \<Rightarrow> retention_policy \<Rightarrow> 'r ingress_env \<Rightarrow> ingress_resume \<Rightarrow> 'r source_record list \<Rightarrow>
    backpressure_gate \<times> wake_state \<times> journal_store \<Rightarrow>
    (runtime_error + ingress_report) \<times> backpressure_gate \<times> wake_state \<times> journal_store" where
  "ingest sha policy env resume recs = (\<lambda>(g, w, s).
    case require_authoritative_order resume recs of Inl e \<Rightarrow> (Inl e, g, w, s) | Inr _ \<Rightarrow>
    (case ingest_records sha policy env resume recs default_ingress_report (None, g, s) of
      (Inl e, _, g', s') \<Rightarrow> (Inl e, g', w, s')
    | (Inr r, st) \<Rightarrow> (case republish policy env r st of
        (Inl e, _, g', s') \<Rightarrow> (Inl e, g', w, s')
      | (Inr r', _, g', s') \<Rightarrow>
          if 0 < gr_appended r' \<or> 0 < gr_shed r'
          then (Inr (r'\<lparr>gr_delivery_signalled := True\<rparr>), g', signal w, s')
          else (Inr r', g', w, s'))))"

end
