(* ===== verification/Ingress_Properties.thy ===== *)
theory Ingress_Properties
  imports Ingress_Runtime
begin

text \<open>
  No record is dropped silently.  Whatever the adapter, the gate, the caller's bounds and the
  journal answer, an ingest call commits a prefix of its batch, each record by one journal call
  about that record after which the journal holds it, and the replay position it leaves still accepts every record it did not
  commit.
\<close>

subsection \<open>A decision is about its record\<close>

lemma decimal_injD: "decimal n = decimal m \<Longrightarrow> n = m"
proof (induction n arbitrary: m rule: decimal.induct)
  case (1 n)
  have digit: "a = b" if "char_of (48 + a) = (char_of (48 + b) :: char)" "a < 10" "b < 10" for a b :: nat
    using arg_cong [OF that(1), of "of_char :: char \<Rightarrow> nat"] that(2,3) by simp
  note eq = 1(2) [unfolded decimal.simps [of n] decimal.simps [of m]]
  consider "n < 10" "m < 10" | "n < 10" "\<not> m < 10" | "\<not> n < 10" "m < 10" | "\<not> n < 10" "\<not> m < 10" by blast
  then show ?case
  proof cases
    case 4
    then have "decimal (n div 10) = decimal (m div 10)" "char_of (48 + n mod 10) = (char_of (48 + m mod 10) :: char)"
      using eq by simp_all
    then have "n div 10 = m div 10" "n mod 10 = m mod 10"
      using 1(1) [OF 4(1)] digit [of "n mod 10" "m mod 10"] by simp_all
    then show ?thesis by (metis div_mult_mod_eq)
  qed (use eq digit decimal_not_Nil [of "m div 10"] in auto)
qed

lemma decimal_inject: "decimal n = decimal m \<longleftrightarrow> n = m"
  using decimal_injD by blast

fun describes :: "sha \<Rightarrow> 'r source_record \<Rightarrow> ingress_event \<Rightarrow> bool" where
  "describes sha rec (AdmitEvent a now) \<longleftrightarrow>
    ao_stream_columns sha a = stream_columns_of (sc_stream rec) \<and> sr_source_sequence (ao_source a) = sc_source_sequence rec \<and>
    sr_source_event_id (ao_source a) = sc_source_event_id rec \<and>
    sr_source_event_revision (ao_source a) = sc_source_event_revision rec"
| "describes sha rec (WithholdEvent w now) \<longleftrightarrow>
    (wa_source_authority w, wa_exact_scope_sha256 w, wa_source_stream w) = stream_columns_of (sc_stream rec) \<and>
    wa_source_sequence w = sc_source_sequence rec \<and> wa_source_event_id w = sc_source_event_id rec \<and>
    wa_source_event_revision w = decimal (sc_source_event_revision rec)"
| "describes sha rec (NonMessageEvent k src now) \<longleftrightarrow>
    k = sc_stream rec \<and> sr_source_sequence src = sc_source_sequence rec \<and>
    sr_source_event_id src = sc_source_event_id rec \<and> sr_source_event_revision src = sc_source_event_revision rec"

lemma mismatch_ok: "is_ok (mismatch rec field x y) \<longleftrightarrow> x = y"
  by (simp add: mismatch_def)

lemma verify_source_ok:
  "is_ok (verify_source rec src) \<longleftrightarrow> sr_source_authority src = sk_source_authority (sc_stream rec) \<and>
    sr_source_stream src = sk_source_stream (sc_stream rec) \<and> sr_source_sequence src = sc_source_sequence rec \<and>
    sr_source_event_id src = sc_source_event_id rec \<and> sr_source_event_revision src = sc_source_event_revision rec"
  unfolding is_ok_unit [of "verify_source rec src"]
  by (auto simp: verify_source_def first_error_ok mismatch_ok decimal_inject authority_wire.enc_inject)

lemma verify_admitted_describes: "verify_admitted sha rec a = Inr () \<Longrightarrow> describes sha rec (AdmitEvent a now)"
  by (auto simp: verify_admitted_def first_error_ok mismatch_ok verify_source_ok ao_stream_columns_def stream_columns_of_def)

lemma verify_withheld_describes: "verify_withheld rec w = Inr () \<Longrightarrow> describes sha rec (WithholdEvent w now)"
  by (auto simp: verify_withheld_def first_error_ok mismatch_ok decimal_inject stream_columns_of_def)

subsection \<open>What the journal holds of a decision\<close>

text \<open>An admission is held by a row under its idempotency key with its payload digest, or by the row
  of the same source event at its place in the lane; a withheld event and a non-message checkpoint
  are held by their rows.\<close>
fun holds_event :: "sha \<Rightarrow> journal_store \<Rightarrow> ingress_event \<Rightarrow> bool" where
  "holds_event sha s (AdmitEvent a now) \<longleftrightarrow> (\<exists>j\<in>set (st_journal s).
    j_idempotency_key j = ao_idempotency_key a \<and> j_payload_sha256 j = sha256 (ao_payload a) \<or>
    j_source_index j = (lane_of (ao_target a), ao_stream_columns sha a, sr_source_sequence (ao_source a)) \<and>
    sr_source_event_id (j_source j) = sr_source_event_id (ao_source a) \<and>
    sr_source_event_revision (j_source j) = sr_source_event_revision (ao_source a))"
| "holds_event sha s (WithholdEvent w now) \<longleftrightarrow>
    (\<exists>x\<in>set (st_withheld s). withheld_key x = withheld_key \<lparr>w_admission = w, w_withheld_at = now\<rparr>)"
| "holds_event sha s (NonMessageEvent k src now) \<longleftrightarrow>
    non_message_row_of (stream_columns_of k) src \<in> set (st_non_message s)"

lemma append_duplicate_holds:
  assumes "append_precheck sha policy a now s = Inr (Some out)"
    "(\<exists>obs st. out = DuplicateIdempotencyKey obs st) \<or> (\<exists>obs key. out = DuplicateSourceEvent obs key)"
  shows "holds_event sha s (AdmitEvent a now)"
proof (cases "select_by_key s (ao_idempotency_key a)")
  case None
  then have "append_source_checks sha policy a s = Inr (Some out)"
    using assms by (auto simp: append_precheck_def res_bind_Inr_iff split: if_splits)
  then obtain j where "find (\<lambda>j. j_source_index j = (lane_of (ao_target a), ao_stream_columns sha a,
      sr_source_sequence (ao_source a))) (st_journal s) = Some j"
    "sr_source_event_id (j_source j) = sr_source_event_id (ao_source a)"
    "sr_source_event_revision (j_source j) = sr_source_event_revision (ao_source a)"
    using assms(2)
    by (auto simp: append_source_checks_def append_capacity_def Let_def res_bind_Inr_iff split: option.splits if_splits)
  then show ?thesis by (auto simp: find_Some_iff)
next
  case (Some hit)
  then have "fst (snd hit) = sha256 (ao_payload a)"
    using assms by (auto simp: append_precheck_def res_bind_Inr_iff split: if_splits prod.splits)
  with Some obtain j where "find_journal_key s (ao_idempotency_key a) = Some j" "j_payload_sha256 j = sha256 (ao_payload a)"
    by (auto simp: select_by_key_def split: option.splits)
  then show ?thesis by (auto simp: find_journal_key_def find_Some_iff)
qed

lemma append_accepted_holds:
  assumes "append_admitted_at sha policy a now s = (Inr out, s')"
    "(\<exists>obs n. out = Appended obs n) \<or> (\<exists>obs st. out = DuplicateIdempotencyKey obs st) \<or>
      (\<exists>obs key. out = DuplicateSourceEvent obs key)"
  shows "holds_event sha s' (AdmitEvent a now)"
proof -
  have "append_admitted_in_transaction sha policy a now s = Inr (out, s')"
    using assms(1) by (simp add: append_admitted_at_def with_transaction_ok)
  from append_stopped_or_rows [OF this] show ?thesis
  proof (elim disjE conjE)
    assume "append_rows sha a now s = Inr (out, s')"
    then have "journal_row_of sha a \<in> set (st_journal s')"
      by (auto simp: append_rows_def Let_def res_bind_Inr_iff split: if_splits option.splits)
    then show ?thesis by (auto simp: journal_row_of_def intro!: bexI)
  next
    assume stop: "append_precheck sha policy a now s = Inr (Some out)" "s' = s"
    then show ?thesis using append_duplicate_holds [OF stop(1)] append_precheck_not_appended assms(2) by blast
  qed
qed

lemma record_withheld_holds:
  "record_withheld_at sha w now s = (Inr u, s') \<Longrightarrow> holds_event sha s' (WithholdEvent w now)"
  by (auto simp: record_withheld_at_def with_transaction_ok insert_withheld_def split: sum.splits
      dest!: record_withheld_effect)

lemma record_non_message_holds:
  "record_non_message k src now s = (Inr u, s') \<Longrightarrow> holds_event sha s' (NonMessageEvent k src now)"
  by (auto simp: record_non_message_def with_transaction_ok record_non_message_in_transaction_def Let_def
      select_non_message_def find_Some_iff non_message_row_of_def in_set_conv_nth
      split: sum.splits if_splits option.splits)

text \<open>The ingress operations delete nothing, so what is held stays held.\<close>
lemma run_ingress_grows:
  "set (st_journal s) \<subseteq> set (st_journal (run_ingress sha policy e s))" (is ?journal)
  "set (st_withheld s) \<subseteq> set (st_withheld (run_ingress sha policy e s))" (is ?withheld)
  "set (st_non_message s) \<subseteq> set (st_non_message (run_ingress sha policy e s))" (is ?non_message)
proof -
  have "?journal \<and> ?withheld \<and> ?non_message"
  proof (cases e)
    case (AdmitEvent a now)
    show ?thesis
      unfolding AdmitEvent run_ingress.simps append_admitted_at_def
      by (rule with_transaction_keeps [where P = "\<lambda>s'. set (st_journal s) \<subseteq> set (st_journal s') \<and>
          set (st_withheld s) \<subseteq> set (st_withheld s') \<and> set (st_non_message s) \<subseteq> set (st_non_message s')"])
        (auto simp: append_rows_def Let_def res_bind_Inr_iff dest!: append_stopped_or_rows split: if_splits option.splits)
  next
    case (WithholdEvent w now)
    from record_withheld_cases [of sha w now s] show ?thesis
      by (auto simp: WithholdEvent insert_withheld_def dest!: record_withheld_effect)
  next
    case (NonMessageEvent k src now)
    from record_non_message_cases [of k src now s] show ?thesis
      by (auto simp: NonMessageEvent dest!: record_non_message_effect)
  qed
  then show ?journal ?withheld ?non_message by blast+
qed

lemma fold_ingress_holds: "holds_event sha s e \<Longrightarrow> holds_event sha (fold (run_ingress sha policy) es s) e"
proof (induction es arbitrary: s)
  case (Cons x es)
  have "holds_event sha (run_ingress sha policy x s) e"
    using Cons.prems run_ingress_grows [of s sha policy x] by (cases e) (simp; blast)+
  then show ?case by (simp add: Cons.IH)
qed simp

subsection \<open>One record\<close>

text \<open>The position at which a report says the batch stopped.\<close>
definition named_stop :: "ingress_report \<Rightarrow> nat option" where
  "named_stop r = (case gr_stopped_on r of Some x \<Rightarrow> Some (is_source_sequence x) | None \<Rightarrow>
    (case gr_shed_on r of Some x \<Rightarrow> Some (bh_source_sequence x) | None \<Rightarrow> map_option ih_source_sequence (gr_halted_on r)))"

text \<open>What a step may do: commit one event about the record, which the journal then holds, and go on,
  or leave the journal alone.\<close>
definition step_ok ::
  "sha \<Rightarrow> retention_policy \<Rightarrow> 'r source_record \<Rightarrow> journal_store \<Rightarrow> (runtime_error + ingest_step) \<Rightarrow> journal_store \<Rightarrow> bool" where
  "step_ok sha policy rec s out s' \<longleftrightarrow> (case out of
      Inl _ \<Rightarrow> s' = s
    | Inr (Break r) \<Rightarrow> s' = s \<and> named_stop r = Some (sc_source_sequence rec)
    | Inr (Continue r) \<Rightarrow> named_stop r = None \<and> (\<exists>e. describes sha rec e \<and> s' = run_ingress sha policy e s \<and> holds_event sha s' e))"

lemma append_error_keeps: "append_admitted_at sha policy a now s = (Inl e, s') \<Longrightarrow> s' = s"
  by (auto simp: append_admitted_at_def with_transaction_def split: sum.splits)

lemma append_refusal_keeps:
  assumes "append_admitted_at sha policy a now s = (Inr out, s')" "\<And>x n. out \<noteq> Appended x n"
  shows "s' = s"
  using append_stopped_or_rows [of sha policy a now s out s'] assms
  by (auto simp: append_admitted_at_def with_transaction_ok append_rows_def Let_def res_bind_Inr_iff
      split: if_splits option.splits)

lemma caller_stop_position: "caller_stop c rec = Some stop \<Longrightarrow> is_source_sequence stop = sc_source_sequence rec"
  by (auto simp: caller_stop_def split: if_splits)

lemma named_stop_facts [simp]:
  "named_stop r = None \<Longrightarrow> named_stop (r\<lparr>gr_stopped_on := Some stop\<rparr>) = Some (is_source_sequence stop)"
  "named_stop r = None \<Longrightarrow> named_stop (shed_at rec refusal r) = Some (sc_source_sequence rec)"
  "named_stop r = None \<Longrightarrow> named_stop (r\<lparr>gr_halted_on := Some halt\<rparr>) = Some (ih_source_sequence halt)"
  "named_stop (r\<lparr>gr_records_considered := n\<rparr>) = named_stop r" "named_stop (r\<lparr>gr_backlog := b\<rparr>) = named_stop r"
  "named_stop (r\<lparr>gr_appended := n, gr_high_watermark := x\<rparr>) = named_stop r"
  "named_stop (r\<lparr>gr_duplicates := n, gr_high_watermark := x\<rparr>) = named_stop r"
  "named_stop (r\<lparr>gr_non_messages := n, gr_high_watermark := x\<rparr>) = named_stop r"
  "named_stop (r\<lparr>gr_withheld := n, gr_high_watermark := x\<rparr>) = named_stop r"
  "named_stop (r\<lparr>gr_already_processed := n\<rparr>) = named_stop r"
  "named_stop (r\<lparr>gr_delivery_signalled := y\<rparr>) = named_stop r"
  by (auto simp: named_stop_def shed_at_def split: option.splits)

lemma ingest_admitted_step:
  assumes "named_stop r = None"
  shows "case ingest_admitted sha policy env g backlog declared rec a r s of (out, s') \<Rightarrow> step_ok sha policy rec s out s'"
proof (cases "verify_admitted sha rec a")
  case (Inr u)
  let ?m = "rt_bind (journal_call (append_admitted sha policy a)) (\<lambda>outcome. rt_return (account_append rec outcome r))"
  from Inr have about: "describes sha rec (AdmitEvent a (ao_admitted_at a))" using verify_admitted_describes by simp
  obtain out s' where run: "append_admitted_at sha policy a (ao_admitted_at a) s = (out, s')"
    by (cases "append_admitted_at sha policy a (ao_admitted_at a) s")
  have committed: "\<exists>e. describes sha rec e \<and> s' = run_ingress sha policy e s \<and> holds_event sha s' e"
    if "out = Inr x" "(\<exists>obs n. x = Appended obs n) \<or> (\<exists>obs st. x = DuplicateIdempotencyKey obs st) \<or>
      (\<exists>obs key. x = DuplicateSourceEvent obs key)" for x
    using about run append_accepted_holds [OF run [unfolded that(1)] that(2)]
    by (intro exI [of _ "AdmitEvent a (ao_admitted_at a)"]) (simp del: holds_event.simps)
  have halted: "s' = s" if "out = Inr x" "\<And>y n. x \<noteq> Appended y n" for x
    using append_refusal_keeps run that by blast
  have after: "step_ok sha policy rec s (fst (?m s)) (snd (?m s))"
  proof (cases out)
    case (Inl e)
    then show ?thesis using run append_error_keeps [of sha policy a "ao_admitted_at a" s e s']
      by (simp add: rt_bind_def journal_call_def append_admitted_def step_ok_def)
  next
    case (Inr x)
    with run committed [OF Inr] halted [OF Inr] assms show ?thesis
      by (cases x) (simp_all add: rt_bind_def journal_call_def append_admitted_def step_ok_def rt_return_def account_append_def halt_at_def)
  qed
  let ?cls = "load_class_of (pv_retention_class (ao_privacy a))"
  show ?thesis
  proof (cases "?cls \<noteq> declared \<or> caller_stop (ie_after env rec) rec \<noteq> None")
    case True
    with Inr assms show ?thesis
      by (auto simp: ingest_admitted_def step_ok_def Let_def caller_stop_position)
  next
    case False
    with Inr assms after show ?thesis
      by (cases "decide g backlog ?cls (ao_queue_bytes a)") (auto simp: ingest_admitted_def step_ok_def split_beta)
  qed
qed (simp add: ingest_admitted_def step_ok_def)

lemma ingest_non_message_step:
  assumes "named_stop r = None"
  shows "case ingest_non_message env rec src r s of (out, s') \<Rightarrow> step_ok sha policy rec s out s'"
proof (cases "verify_source rec src")
  case (Inr u)
  let ?e = "NonMessageEvent (sc_stream rec) src (ie_wall_clock env rec)"
  obtain out s' where run: "record_non_message (sc_stream rec) src (ie_wall_clock env rec) s = (out, s')"
    by (cases "record_non_message (sc_stream rec) src (ie_wall_clock env rec) s")
  have "is_ok (verify_source rec src)" using Inr by simp
  then have "describes sha rec ?e" by (simp add: verify_source_ok)
  then have "\<exists>e. describes sha rec e \<and> s' = run_ingress sha policy e s \<and> holds_event sha s' e" if "out = Inr v" for v
    using run record_non_message_holds [OF run [unfolded that]] by (intro exI [of _ ?e]) simp
  moreover have "s' = s" if "out = Inl e" for e
    using run that by (auto simp: record_non_message_def with_transaction_def split: sum.splits)
  ultimately show ?thesis
    using Inr assms run
    by (auto simp: ingest_non_message_def step_ok_def rt_bind_def rt_return_def journal_call_def caller_stop_position
        split: option.split sum.split)
qed (simp add: ingest_non_message_def step_ok_def)

lemma ingest_withheld_step:
  assumes "named_stop r = None"
  shows "case ingest_withheld sha env rec w r s of (out, s') \<Rightarrow> step_ok sha policy rec s out s'"
proof (cases "verify_withheld rec w")
  case (Inr u)
  let ?e = "WithholdEvent w (ie_wall_clock env rec)"
  obtain out s' where run: "record_withheld_at sha w (ie_wall_clock env rec) s = (out, s')"
    by (cases "record_withheld_at sha w (ie_wall_clock env rec) s")
  have "describes sha rec ?e" using Inr verify_withheld_describes by simp
  then have "\<exists>e. describes sha rec e \<and> s' = run_ingress sha policy e s \<and> holds_event sha s' e" if "out = Inr v" for v
    using run record_withheld_holds [OF run [unfolded that]] by (intro exI [of _ ?e]) simp
  moreover have "s' = s" if "out = Inl e" for e
    using run that by (auto simp: record_withheld_at_def with_transaction_def split: sum.splits)
  ultimately show ?thesis
    using Inr assms run
    by (auto simp: ingest_withheld_def step_ok_def rt_bind_def rt_return_def journal_call_def split: sum.split)
qed (simp add: ingest_withheld_def step_ok_def)

lemma commit_decision_step:
  "named_stop r = None \<Longrightarrow>
    case commit_decision sha policy env g backlog declared rec d r s of (out, s') \<Rightarrow> step_ok sha policy rec s out s'"
  by (cases d) (simp_all add: ingest_admitted_step ingest_non_message_step ingest_withheld_step)

text \<open>A record is skipped because an earlier call decided it, or it takes one step.\<close>
lemma ingest_record_step:
  assumes "named_stop r = None" "ie_meanwhile env rec = []"
    "ingest_record sha policy env resume rec r (l, g, s) = (out, l', g', s')"
  shows "accepts resume (sc_source_sequence rec) \<Longrightarrow> step_ok sha policy rec s out s'"
    "\<not> accepts resume (sc_source_sequence rec) \<Longrightarrow> s' = s \<and>
      (\<exists>e. out = Inl e) \<or> s' = s \<and> (\<exists>r'. out = Inr (Continue r') \<and> named_stop r' = None)"
proof -
  let ?r = "r\<lparr>gr_records_considered := sat_add_u32 (gr_records_considered r) 1\<rparr>"
  have stop: "named_stop ?r = None" "\<And>b. named_stop (?r\<lparr>gr_backlog := b\<rparr>) = None" using assms(1) by simp_all
  show "step_ok sha policy rec s out s'" if acc: "accepts resume (sc_source_sequence rec)"
  proof (cases "caller_stop (ie_before env rec) rec")
    case None
    note start = assms(3) [unfolded ingest_record_def, simplified acc None assms(2) Let_def]
    show ?thesis
    proof (cases "lane_pressure s (ie_lane env rec) policy")
      case (Inr p)
      obtain backlog g1 where seen: "observe p (ie_now env rec) g = (backlog, g1)"
        by (cases "observe p (ie_now env rec) g")
      let ?r2 = "?r\<lparr>gr_backlog := Some backlog\<rparr>"
      show ?thesis
      proof (cases "decide g1 backlog (ie_classify env rec) 0")
        case Admit
        have commit: "case commit_decision sha policy env g1 backlog (ie_classify env rec) rec d ?r2 s of
            (out, s') \<Rightarrow> step_ok sha policy rec s out s'" for d
          by (rule commit_decision_step) (rule stop(2))
        show ?thesis
        proof (cases "ie_decide env rec")
          case (Inr d)
          then show ?thesis
            using start \<open>lane_pressure _ _ _ = Inr p\<close> seen Admit commit [of d]
            by (auto split: prod.splits)
        next
          case (Inl cause)
          then show ?thesis
            using start \<open>lane_pressure _ _ _ = Inr p\<close> seen Admit assms(1)
            by (auto simp: step_ok_def caller_stop_position split: option.splits)
        qed
      next
        case (Shed refusal)
        then show ?thesis using start Inr seen assms(1) by (auto simp: step_ok_def)
      qed
    qed (use start in \<open>auto simp: step_ok_def\<close>)
  next
    case (Some x)
    then show ?thesis
      using assms(1,3) acc by (auto simp: ingest_record_def step_ok_def caller_stop_position Let_def)
  qed
  show "s' = s \<and> (\<exists>e. out = Inl e) \<or> s' = s \<and> (\<exists>r'. out = Inr (Continue r') \<and> named_stop r' = None)"
    if "\<not> accepts resume (sc_source_sequence rec)"
    using assms(3) that stop(1)
    by (auto simp: ingest_record_def Let_def skip_processed_def rt_bind_def rt_result_def rt_return_def
        split: sum.splits prod.splits)
qed


subsection \<open>The batch\<close>

text \<open>The records of a batch that an ingest call decides: those the recovered position accepts.\<close>
abbreviation fresh :: "ingress_resume \<Rightarrow> 'r source_record list \<Rightarrow> 'r source_record list" where
  "fresh resume recs \<equiv> filter (\<lambda>rec. accepts resume (sc_source_sequence rec)) recs"

definition batch_ok ::
  "sha \<Rightarrow> retention_policy \<Rightarrow> ingress_resume \<Rightarrow> 'r source_record list \<Rightarrow> journal_store \<Rightarrow>
    (runtime_error + ingress_report) \<Rightarrow> journal_store \<Rightarrow> bool" where
  "batch_ok sha policy resume recs s res s' \<longleftrightarrow> (\<exists>committed rest es. recs = committed @ rest \<and>
    list_all2 (\<lambda>rec e. describes sha rec e \<and> holds_event sha s' e) (fresh resume committed) es \<and> s' = fold (run_ingress sha policy) es s \<and>
    (\<forall>r. res = Inr r \<longrightarrow> named_stop r = (case rest of [] \<Rightarrow> None | rec # _ \<Rightarrow> Some (sc_source_sequence rec))))"

lemma batch_okI:
  assumes "recs = committed @ rest" "list_all2 (\<lambda>rec e. describes sha rec e \<and> holds_event sha s' e) (fresh resume committed) es"
    "s' = fold (run_ingress sha policy) es s"
    "\<And>r. res = Inr r \<Longrightarrow> named_stop r = (case rest of [] \<Rightarrow> None | rec # _ \<Rightarrow> Some (sc_source_sequence rec))"
  shows "batch_ok sha policy resume recs s res s'"
  unfolding batch_ok_def using assms by blast

lemma batch_ok_Cons:
  assumes "batch_ok sha policy resume recs s1 res s'"
    and "accepts resume (sc_source_sequence rec) \<Longrightarrow>
      \<exists>e. describes sha rec e \<and> s1 = run_ingress sha policy e s \<and> holds_event sha s1 e"
    and "\<not> accepts resume (sc_source_sequence rec) \<Longrightarrow> s1 = s"
  shows "batch_ok sha policy resume (rec # recs) s res s'"
proof -
  obtain committed rest es where b: "recs = committed @ rest" "list_all2 (\<lambda>rec e. describes sha rec e \<and> holds_event sha s' e) (fresh resume committed) es"
    "s' = fold (run_ingress sha policy) es s1"
    "\<And>r. res = Inr r \<Longrightarrow> named_stop r = (case rest of [] \<Rightarrow> None | rec # _ \<Rightarrow> Some (sc_source_sequence rec))"
    using assms(1) unfolding batch_ok_def by blast
  show ?thesis
  proof (cases "accepts resume (sc_source_sequence rec)")
    case True
    then obtain e where e: "describes sha rec e" "s1 = run_ingress sha policy e s" "holds_event sha s1 e"
      using assms(2) by blast
    have "holds_event sha s' e" unfolding b(3) by (rule fold_ingress_holds [OF e(3)])
    with e(1,2) b True show ?thesis by (intro batch_okI [where committed = "rec # committed" and rest = rest and es = "e # es"]) simp_all
  next
    case False
    with b assms(3) show ?thesis by (intro batch_okI [where committed = "rec # committed" and rest = rest and es = es]) simp_all
  qed
qed

lemma ingest_records_batch:
  assumes "\<And>rec. ie_meanwhile env rec = []"
  shows "named_stop r = None \<Longrightarrow> ingest_records sha policy env resume recs r (l, g, s) = (res, l', g', s') \<Longrightarrow>
    batch_ok sha policy resume recs s res s'"
proof (induction recs arbitrary: r l g s)
  case Nil
  then show ?case by (intro batch_okI [where committed = "[]" and rest = "[]" and es = "[]"]) auto
next
  case (Cons rec recs)
  obtain out l1 g1 s1 where step: "ingest_record sha policy env resume rec r (l, g, s) = (out, l1, g1, s1)"
    by (cases "ingest_record sha policy env resume rec r (l, g, s)") auto
  note ok = ingest_record_step [OF Cons.prems(1) assms step]
  have halt: "batch_ok sha policy resume (rec # recs) s res s'"
    if "s' = s" "\<And>r. res = Inr r \<Longrightarrow> named_stop r = Some (sc_source_sequence rec)"
    using that by (intro batch_okI [where committed = "[]" and rest = "rec # recs" and es = "[]"]) auto
  consider (error) e where "out = Inl e" | (stop) r' where "out = Inr (Break r')" | (go) r' where "out = Inr (Continue r')"
    by (metis ingest_step.exhaust sum.exhaust)
  then show ?case
  proof cases
    case error
    with ok have "s1 = s" by (auto simp: step_ok_def)
    with error step Cons.prems(2) show ?thesis by (intro halt) auto
  next
    case stop
    with ok have "s1 = s \<and> named_stop r' = Some (sc_source_sequence rec)"
      by (cases "accepts resume (sc_source_sequence rec)") (auto simp: step_ok_def)
    with stop step Cons.prems(2) show ?thesis by (intro halt) auto
  next
    case go
    with ok have "named_stop r' = None"
      by (cases "accepts resume (sc_source_sequence rec)") (auto simp: step_ok_def)
    moreover have "ingest_records sha policy env resume recs r' (l1, g1, s1) = (res, l', g', s')"
      using Cons.prems(2) step go by simp
    ultimately have "batch_ok sha policy resume recs s1 res s'" by (rule Cons.IH)
    then show ?thesis by (rule batch_ok_Cons) (use ok go in \<open>auto simp: step_ok_def\<close>)
  qed
qed

lemma order_from_sorted:
  "order_from resume p recs = Inr () \<Longrightarrow>
    sorted_wrt (<) (map sc_source_sequence recs) \<and> (\<forall>rec\<in>set recs. sc_stream rec = ig_stream resume) \<and>
    (\<forall>q. p = Some q \<longrightarrow> (\<forall>rec\<in>set recs. q < sc_source_sequence rec))"
proof (induction recs arbitrary: p)
  case (Cons rec recs)
  from Cons.prems have "sc_stream rec = ig_stream resume" and rest: "order_from resume (Some (sc_source_sequence rec)) recs = Inr ()"
    and after: "\<And>q. p = Some q \<Longrightarrow> q < sc_source_sequence rec"
    by (auto split: if_splits option.splits)
  moreover have "q < sc_source_sequence rec'" if "p = Some q" "rec' \<in> set recs" for q rec'
    using after [OF that(1)] Cons.IH [OF rest] that(2) order_less_trans by blast
  ultimately show ?case using Cons.IH [OF rest] by auto
qed simp

subsection \<open>The replay position\<close>

text \<open>Every cursor of the stream is before a position.\<close>
definition cursor_before :: "stream_columns \<Rightarrow> nat \<Rightarrow> cursor_row list \<Rightarrow> bool" where
  "cursor_before stream n rows \<longleftrightarrow> (\<forall>c\<in>set rows. rc_stream c = stream \<longrightarrow> rc_last_admitted_sequence c < n)"

lemma upsert_before:
  assumes "cursor_before stream n rows" "rc_stream x = stream \<Longrightarrow> rc_last_admitted_sequence x < n"
  shows "cursor_before stream n (upsert_cursor x rows)" "cursor_before stream n (upsert_withheld_cursor x rows)"
  using assms by (auto simp: cursor_before_def upsert_cursor_def upsert_withheld_cursor_def update_where_def split: if_splits)

lemma run_ingress_before:
  assumes "describes sha rec e" "cursor_before (stream_columns_of k) n (st_cursors s)" "sc_stream rec = k" "sc_source_sequence rec < n"
  shows "cursor_before (stream_columns_of k) n (st_cursors (run_ingress sha policy e s))"
proof (cases e)
  case (AdmitEvent a now)
  show ?thesis
    unfolding AdmitEvent run_ingress.simps append_admitted_at_def
  proof (rule with_transaction_keeps [where P = "\<lambda>s. cursor_before (stream_columns_of k) n (st_cursors s)", OF assms(2)])
    fix out s' assume "append_admitted_in_transaction sha policy a now s = Inr (out, s')"
    then consider "s' = s" | "append_rows sha a now s = Inr (out, s')" using append_stopped_or_rows by blast
    then show "cursor_before (stream_columns_of k) n (st_cursors s')"
    proof cases
      case 2
      then obtain x where "st_cursors s' = upsert_cursor x (st_cursors s)" "rc_last_admitted_sequence x = sr_source_sequence (ao_source a)"
        by (auto simp: append_rows_def settled_cursor_def Let_def res_bind_Inr_iff split: if_splits option.splits)
      with assms AdmitEvent show ?thesis by (auto intro: upsert_before)
    qed (use assms(2) in simp)
  qed
next
  case (WithholdEvent w now)
  from record_withheld_cases [of sha w now s] show ?thesis
    using assms by (auto simp: WithholdEvent intro!: upsert_before(2) dest!: record_withheld_effect)
next
  case (NonMessageEvent k' src now)
  from record_non_message_cases [of k' src now s] show ?thesis
    using assms
    by (auto simp: NonMessageEvent settled_cursor_def intro!: upsert_before(1) dest!: record_non_message_effect)
qed

lemma fold_ingress_before:
  assumes "list_all2 (describes sha) recs es" "cursor_before (stream_columns_of k) n (st_cursors s)"
    "\<forall>rec\<in>set recs. sc_stream rec = k \<and> sc_source_sequence rec < n"
  shows "cursor_before (stream_columns_of k) n (st_cursors (fold (run_ingress sha policy) es s))"
  using assms
proof (induction arbitrary: s rule: list_all2_induct)
  case (Cons rec recs e es)
  then show ?case using run_ingress_before [of sha rec e k n s policy] by simp
qed simp

lemma recover_position:
  assumes "recover k s = Inr resume" "distinct (map rc_stream (st_cursors s))"
  shows "accepts resume n \<longleftrightarrow> cursor_before (stream_columns_of k) n (st_cursors s)" "ig_stream resume = k"
proof -
  obtain cursor where c: "replay_cursor s k = Inr cursor" and r: "ig_stream resume = k"
    "ig_resume_after resume = map_option rc_last_admitted_sequence cursor"
    using assms(1) by (auto simp: recover_def res_bind_Inr_iff split: option.splits)
  have sel: "cursor = select_cursor s (stream_columns_of k)"
    using c by (auto simp: replay_cursor_def res_bind_Inr_iff split: option.splits if_splits)
  have unique: "c = d" if "c \<in> set (st_cursors s)" "d \<in> set (st_cursors s)" "rc_stream c = rc_stream d" for c d
    using assms(2) that by (auto simp: distinct_map inj_on_def)
  show "accepts resume n \<longleftrightarrow> cursor_before (stream_columns_of k) n (st_cursors s)"
    unfolding accepts_def r(2) cursor_before_def sel select_cursor_def
    by (auto simp: find_None_iff find_Some_iff split: option.split) (metis nth_mem unique)
  show "ig_stream resume = k" by (rule r(1))
qed

lemma fold_ingress_ok: "store_ok s \<Longrightarrow> store_ok (fold (run_ingress sha policy) es s)"
  by (induction es arbitrary: s) (auto intro: ingress.keeps_ok)

lemma ingest_batch:
  assumes "\<And>rec. ie_meanwhile env rec = []" "require_authoritative_order resume recs = Inr ()"
    "ingest sha policy env resume recs (g, w, s) = (res, g', w', s')"
  shows "batch_ok sha policy resume recs s res s'"
proof -
  obtain res0 l1 g1 s1 where run: "ingest_records sha policy env resume recs default_ingress_report (None, g, s) = (res0, l1, g1, s1)"
    by (cases "ingest_records sha policy env resume recs default_ingress_report (None, g, s)") auto
  have "named_stop default_ingress_report = None" by (simp add: named_stop_def default_ingress_report_def)
  from ingest_records_batch [OF assms(1) this run] have batch: "batch_ok sha policy resume recs s res0 s1" .
  have "s' = s1 \<and> (\<forall>r. res = Inr r \<longrightarrow> (\<exists>r0. res0 = Inr r0 \<and> named_stop r = named_stop r0))"
    using assms(2,3) run
    by (auto simp: ingest_def republish_def split: sum.splits option.splits if_splits prod.splits)
  then have same: "s' = s1" "\<And>r. res = Inr r \<Longrightarrow> \<exists>r0. res0 = Inr r0 \<and> named_stop r = named_stop r0" by blast+
  from batch obtain committed rest es where b: "recs = committed @ rest"
    "list_all2 (\<lambda>rec e. describes sha rec e \<and> holds_event sha s1 e) (fresh resume committed) es"
    "s1 = fold (run_ingress sha policy) es s"
    "\<And>r. res0 = Inr r \<Longrightarrow> named_stop r = (case rest of [] \<Rightarrow> None | rec # _ \<Rightarrow> Some (sc_source_sequence rec))"
    unfolding batch_ok_def by blast
  show ?thesis
    unfolding same(1) using b(1-3)
  proof (rule batch_okI)
    fix r assume "res = Inr r"
    from same(2) [OF this] show "named_stop r = (case rest of [] \<Rightarrow> None | rec # _ \<Rightarrow> Some (sc_source_sequence rec))"
      using b(4) by auto
  qed
qed

text \<open>C8. No record is dropped silently.  An ingest call commits a prefix of its batch: each record
  of it that the recovered position accepts is committed by one journal operation about exactly
  that record, in order, the journal holds it afterwards, as an admission, a withheld event or a
  non-message checkpoint, and nothing else is written.  A successful report names the first record
  that was not committed, if there is one.  And the position recovered afterwards still accepts
  every record that was fresh and not committed, whether the call stopped, shed, halted or
  failed.\<close>
theorem ingest_no_silent_drop:
  assumes "store_ok s" "recover k s = Inr resume" "\<And>rec. ie_meanwhile env rec = []"
    "ingest sha policy env resume recs (g, w, s) = (res, g', w', s')"
  shows "\<exists>committed rest es. recs = committed @ rest \<and>
    list_all2 (\<lambda>rec e. describes sha rec e \<and> holds_event sha s' e) (fresh resume committed) es \<and> s' = fold (run_ingress sha policy) es s \<and>
    (\<forall>report. res = Inr report \<longrightarrow>
      named_stop report = (case rest of [] \<Rightarrow> None | rec # _ \<Rightarrow> Some (sc_source_sequence rec))) \<and>
    (\<forall>resume'. recover k s' = Inr resume' \<longrightarrow> (\<forall>rec\<in>set (fresh resume rest). accepts resume' (sc_source_sequence rec)))"
proof (cases "require_authoritative_order resume recs")
  case (Inl e)
  then have "res = Inl e" "s' = s" using assms(4) by (auto simp: ingest_def)
  with assms(2) show ?thesis by (intro exI [of _ "[]"] exI [of _ recs]) auto
next
  case (Inr u)
  then have order: "order_from resume None recs = Inr ()" by (simp add: require_authoritative_order_def)
  have "require_authoritative_order resume recs = Inr ()" using Inr by simp
  from ingest_batch [OF assms(3) this assms(4)] obtain committed rest es where b: "recs = committed @ rest"
    "list_all2 (\<lambda>rec e. describes sha rec e \<and> holds_event sha s' e) (fresh resume committed) es" "s' = fold (run_ingress sha policy) es s"
    "\<And>r. res = Inr r \<Longrightarrow> named_stop r = (case rest of [] \<Rightarrow> None | rec # _ \<Rightarrow> Some (sc_source_sequence rec))"
    unfolding batch_ok_def by blast
  have about: "list_all2 (describes sha) (fresh resume committed) es"
    using b(2) by (rule list_all2_mono) simp
  have sorted: "sorted_wrt (<) (map sc_source_sequence recs)" "\<forall>rec\<in>set recs. sc_stream rec = k"
    using order_from_sorted [OF order] recover_position(2) [OF assms(2)] assms(1) by (simp_all add: store_ok_def)
  have "accepts resume' (sc_source_sequence rec)" if "recover k s' = Inr resume'" "rec \<in> set (fresh resume rest)" for resume' rec
  proof -
    have "cursor_before (stream_columns_of k) (sc_source_sequence rec) (st_cursors s)"
      using that(2) recover_position(1) [OF assms(2)] assms(1) by (simp add: store_ok_def)
    moreover have "\<forall>x\<in>set (fresh resume committed). sc_stream x = k \<and> sc_source_sequence x < sc_source_sequence rec"
      using sorted that(2) by (auto simp: b(1) sorted_wrt_append)
    ultimately have "cursor_before (stream_columns_of k) (sc_source_sequence rec) (st_cursors s')"
      unfolding b(3) by (intro fold_ingress_before [OF about])
    moreover have "store_ok s'" unfolding b(3) by (rule fold_ingress_ok [OF assms(1)])
    ultimately show ?thesis using recover_position(1) [OF that(1)] by (simp add: store_ok_def)
  qed
  with b show ?thesis by blast
qed

text \<open>A call that fails part-way does not wake delivery, although records before the failure may
  have been appended; the worker finds them at its next poll.\<close>
lemma ingest_error_keeps_wake: "ingest sha policy env resume recs (g, w, s) = (Inl e, g', w', s') \<Longrightarrow> w' = w"
  by (auto simp: ingest_def split: sum.splits if_splits prod.splits)

subsection \<open>Examples\<close>

definition sample_source_record :: "nat \<Rightarrow> unit source_record" where
  "sample_source_record n = \<lparr>sc_stream = \<lparr>sk_source_authority = sr_source_authority (sample_source n),
    sk_exact_scope_sha256 = sample_digest, sk_source_stream = sr_source_stream (sample_source n)\<rparr>,
    sc_source_sequence = n, sc_source_event_id = sr_source_event_id (sample_source n), sc_source_event_revision = 1, sc_record = ()\<rparr>"

text \<open>The adapter admits every record; the caller cancels before the second.\<close>
definition sample_ingress :: "unit ingress_env" where
  "sample_ingress = \<lparr>ie_lane = \<lambda>_. (''provider'', 1), ie_classify = \<lambda>_. Optional,
    ie_decide = \<lambda>rec. Inr (AdmitObservation (sample_admitted (sc_source_sequence rec) ''a'')),
    ie_before = \<lambda>rec. \<lparr>ic_now = 1, ic_deadline = 100, ic_cancelled = 1 < sc_source_sequence rec\<rparr>, ie_now = \<lambda>_. 1,
    ie_meanwhile = \<lambda>_. [], ie_after = \<lambda>_. \<lparr>ic_now = 1, ic_deadline = 100, ic_cancelled = False\<rparr>,
    ie_wall_clock = \<lambda>_. 1, ie_final_now = 1\<rparr>"

theorem ingest_no_silent_drop_witness:
  "\<exists>resume res committed rest es s' g' w'. recover (sc_stream (sample_source_record 1)) empty_store = Inr resume \<and>
    ingest zero_sha sample_policy sample_ingress resume [sample_source_record 1, sample_source_record 2]
      (sample_gate, wake_new, empty_store) = (res, g', w', s') \<and>
    [sample_source_record 1, sample_source_record 2] = committed @ rest \<and>
    list_all2 (\<lambda>rec e. describes zero_sha rec e \<and> holds_event zero_sha s' e) (fresh resume committed) es \<and>
    s' = fold (run_ingress zero_sha sample_policy) es empty_store"
proof -
  obtain resume where resume: "recover (sc_stream (sample_source_record 1)) empty_store = Inr resume"
    by (simp add: recover_def replay_cursor_def stream_key_validate_def sample_source_record_def require_sha256_def
        select_cursor_def empty_store_def)
  obtain res g' w' s' where run: "ingest zero_sha sample_policy sample_ingress resume
      [sample_source_record 1, sample_source_record 2] (sample_gate, wake_new, empty_store) = (res, g', w', s')"
    by (cases "ingest zero_sha sample_policy sample_ingress resume [sample_source_record 1, sample_source_record 2]
      (sample_gate, wake_new, empty_store)") auto
  have "ie_meanwhile sample_ingress rec = []" for rec by (simp add: sample_ingress_def)
  from ingest_no_silent_drop [OF empty_store_ok resume this run] resume run show ?thesis by blast
qed

end
