(* ===== verification/Journal_Types.thy ===== *)
theory Journal_Types
  imports Journal_Lease
begin

text \<open>
  What the lease read path hands out is well formed whatever the tables hold: the decoders of
  \<^verbatim>\<open>sqlite/row.rs\<close> and \<^verbatim>\<open>sqlite/dispatch.rs\<close> refuse a row before an ill-formed value can leave the
  journal.
\<close>

text \<open>The types of the fields of a leased observation: identifiers parse, digests are digests and
  match what they are digests of, the provider target, the scope and the extensions validate, the
  sanitization evidence is about this payload, and the attempt number is a positive 32-bit value.\<close>
definition leased_well_formed :: "sha \<Rightarrow> leased_observation \<Rightarrow> bool" where
  "leased_well_formed sha x \<longleftrightarrow>
    is_sha256 (lo_idempotency_key x) \<and> observation_id_parse (lo_observation_id x) = Inr (lo_observation_id x) \<and>
    check_provider_id (pt_provider_id (lo_target x)) = Inr () \<and> provider_target_validate (lo_target x) = Inr () \<and>
    is_ok (require_versioned_id (lo_observation_kind x)) \<and> is_ok (require_versioned_id (contract_id (lo_payload x))) \<and>
    canonical_payload_validate sha (lo_payload x) = Inr () \<and>
    list_all (\<lambda>e. opaque_extension_validate sha e = Inr ()) (lo_extensions x) \<and>
    exact_scope_validate (lo_exact_scope x) = Inr () \<and> lo_exact_scope_sha256 x = exact_scope_sha256 sha (lo_exact_scope x) \<and>
    sanitization_binding_validate sha (lo_sanitization x) (sha256 (lo_payload x)) (lo_extensions_digest x) = Inr () \<and>
    0 < lo_attempt_number x \<and> lo_attempt_number x \<le> u32_max"

lemma into_extension_valid: "into_extension sha x = Inr e \<Longrightarrow> opaque_extension_validate sha e = Inr ()"
  by (auto simp: into_extension_def Let_def res_bind_Inr_iff split: option.splits)

lemma into_extensions_valid:
  "into_extensions sha xs = Inr ys \<Longrightarrow> list_all (\<lambda>e. opaque_extension_validate sha e = Inr ()) ys"
  by (induction xs arbitrary: ys) (auto simp: res_bind_Inr_iff into_extension_valid)

lemma decode_extensions_valid:
  "decode_extensions sha v = Inr ys \<Longrightarrow> list_all (\<lambda>e. opaque_extension_validate sha e = Inr ()) ys"
  by (auto simp: decode_extensions_def into_extensions_valid split: option.splits)

lemma decode_sanitization_valid:
  "decode_sanitization sha b p x = Inr y \<Longrightarrow> sanitization_binding_validate sha y p x = Inr ()"
  by (auto simp: decode_sanitization_def split: option.splits sum.splits)

lemma decode_scope_valid:
  "decode_scope sha j = Inr () \<Longrightarrow> exact_scope_validate (j_exact_scope j) = Inr () \<and>
    j_exact_scope_sha256 j = exact_scope_sha256 sha (j_exact_scope j)"
  by (auto simp: decode_scope_def first_error_ok is_ok_unit split: if_splits)

lemma parse_digest_valid: "parse_digest f t = Inr u \<Longrightarrow> u = t \<and> is_sha256 u"
  by (auto simp: parse_digest_def require_sha256_def res_bind_Inr_iff split: if_splits)

lemma decode_leased_well_formed:
  assumes "decode_leased sha j d inst owner at lapse = Inr item"
  shows "leased_well_formed sha item"
proof -
  let ?target = "(j_target j)\<lparr>pt_provider_instance_id := inst\<rparr>"
  obtain key obs bytes exts binding stored where parts:
    "parse_digest ''idempotency_key'' (j_idempotency_key j) = Inr key" "observation_id_parse (j_observation_id j) = Inr obs"
    "check_provider_id (pt_provider_id ?target) = Inr ()" "provider_target_validate ?target = Inr ()"
    "is_ok (require_versioned_id (j_observation_kind j))" "is_ok (require_versioned_id (j_payload_contract j))"
    "canonical_payload_validate sha \<lparr>contract_id = j_payload_contract j, payload_bytes = bytes, sha256 = j_payload_sha256 j\<rparr> = Inr ()"
    "decode_extensions sha (j_extensions j) = Inr exts" "decode_scope sha j = Inr ()"
    "decode_sanitization sha (j_sanitization j) (j_payload_sha256 j) (j_extensions_digest j) = Inr binding"
    and item: "lo_idempotency_key item = key" "lo_observation_id item = obs" "lo_target item = ?target"
    "lo_observation_kind item = j_observation_kind j" "lo_exact_scope item = j_exact_scope j"
    "lo_payload item = \<lparr>contract_id = j_payload_contract j, payload_bytes = bytes, sha256 = j_payload_sha256 j\<rparr>"
    "lo_extensions item = exts" "lo_exact_scope_sha256 item = j_exact_scope_sha256 j" "lo_sanitization item = binding"
    "lo_extensions_digest item = j_extensions_digest j" "lo_attempt_number item = sat_add_u32 stored 1"
    using assms
    by (auto simp: decode_leased_def Let_def res_bind_Inr_iff first_error_ok is_ok_unit split: option.splits)
  then show ?thesis
    using parse_digest_valid [OF parts(1)] observation_id_parse_same [OF parts(2)] decode_extensions_valid [OF parts(8)]
      decode_scope_valid [OF parts(9)] decode_sanitization_valid [OF parts(10)]
    by (auto simp: leased_well_formed_def sat_add_u32_def u32_max_def)
qed

lemma claim_each_subset: "set (fst (claim_each q cs ds)) \<subseteq> fst ` set cs"
  by (induction cs arbitrary: ds) (auto simp: split_beta)



end
