(* ===== verification/Recovery.thy ===== *)
theory Recovery
  imports Delivery_Runtime Source_Fence
begin

text \<open>
  Restart recovery (\<^verbatim>\<open>recovery.rs\<close>, \<^verbatim>\<open>sqlite/recovery.rs\<close>, \<^verbatim>\<open>runtime/recovery.rs\<close>): the assessment of
  a provider's own state against the journal before anything is delivered to it.  One record per
  registration and stream holds the acknowledged watermark, the provider state that was last
  accepted and the bounded counter of automatic repair attempts.  Each port call is bounded by
  the caller's budget; the answers of the mutex, the clock and the database, and whatever other
  processes do between the calls, are the environment of an assessment.
\<close>

subsection \<open>Targets and checkpoints\<close>

definition STATE_SCHEMA_VERSION_MAX_BYTES :: nat where "STATE_SCHEMA_VERSION_MAX_BYTES = 256"

definition ASSESSMENT_ID_DOMAIN :: "byte list" where
  "ASSESSMENT_ID_DOMAIN = ''tracedecay.memory-provider.recovery-assessment.v1'' @ [CHR 0x00]"

record recovery_target =
  rk_provider_id :: string
  rk_registration_revision :: nat
  rk_stream :: stream_key

abbreviation rk_lane :: "recovery_target \<Rightarrow> lane" where
  "rk_lane k \<equiv> (rk_provider_id k, rk_registration_revision k)"

abbreviation rk_columns :: "recovery_target \<Rightarrow> stream_columns" where
  "rk_columns k \<equiv> stream_columns_of (rk_stream k)"

definition recovery_target_validate :: "recovery_target \<Rightarrow> unit journal_result" where
  "recovery_target_validate k = first_error
    [require_bounded (rk_provider_id k) ''provider_id'' SOURCE_EVENT_ID_MAX_BYTES,
     if rk_registration_revision k = 0 then Inl (ValueOutOfRange ''registration_revision'') else Inr (),
     stream_key_validate (rk_stream k)]"

datatype replay_position = Reported nat | ReportedNone | NotRetained | Unreadable

fun reported :: "replay_position \<Rightarrow> nat option" where
  "reported (Reported n) = Some n"
| "reported ReportedNone = None"
| "reported NotRetained = None"
| "reported Unreadable = None"

fun retains_position :: "replay_position \<Rightarrow> bool" where
  "retains_position (Reported n) = True"
| "retains_position ReportedNone = True"
| "retains_position NotRetained = False"
| "retains_position Unreadable = False"

fun replay_position_as_wire :: "replay_position \<Rightarrow> string" where
  "replay_position_as_wire (Reported n) = ''reported''"
| "replay_position_as_wire ReportedNone = ''reported_none''"
| "replay_position_as_wire NotRetained = ''not_retained''"
| "replay_position_as_wire Unreadable = ''unreadable''"

record provider_checkpoint =
  cp_target :: recovery_target
  cp_implementation_identity_sha256 :: string
  cp_state_schema_version :: string
  cp_state_generation :: nat
  cp_replay_position :: replay_position

definition checkpoint_validate :: "provider_checkpoint \<Rightarrow> unit journal_result" where
  "checkpoint_validate cp = first_error
    [recovery_target_validate (cp_target cp),
     require_sha256 (cp_implementation_identity_sha256 cp) ''implementation_identity_sha256'',
     require_bounded (cp_state_schema_version cp) ''state_schema_version'' STATE_SCHEMA_VERSION_MAX_BYTES]"

definition assessment_fields :: "provider_checkpoint \<Rightarrow> byte list list" where
  "assessment_fields cp = (let k = cp_target cp in
    [rk_provider_id k, u64_be (rk_registration_revision k), authority_as_wire (sk_source_authority (rk_stream k)),
     sk_exact_scope_sha256 (rk_stream k), sk_source_stream (rk_stream k), cp_implementation_identity_sha256 cp,
     cp_state_schema_version cp, u64_be (cp_state_generation cp), replay_position_as_wire (cp_replay_position cp),
     u64_be (case reported (cp_replay_position cp) of None \<Rightarrow> u64_max | Some n \<Rightarrow> n)])"

definition assessment_preimage :: "provider_checkpoint \<Rightarrow> byte list" where
  "assessment_preimage cp = ASSESSMENT_ID_DOMAIN @ frames (assessment_fields cp)"

definition for_checkpoint :: "sha \<Rightarrow> provider_checkpoint \<Rightarrow> string" where
  "for_checkpoint sha cp = lowercase_hex (sha (assessment_preimage cp))"

subsection \<open>Bounded calls\<close>

type_synonym recovery_time_budget = micros

definition recovery_remaining :: "micros \<Rightarrow> micros \<Rightarrow> recovery_time_budget" where
  "recovery_remaining deadline now = max (sat_sub_i64 deadline now) 0"

definition is_spent :: "recovery_time_budget \<Rightarrow> bool" where
  "is_spent budget \<longleftrightarrow> budget \<le> 0"

text \<open>What stands between a caller and the lock: the polls that did not get it, each with the time
  since the call started, and the ones that found the caller's token cancelled.\<close>
datatype lock_poll = CancelledPoll | PoisonedPoll | WouldBlock micros

text \<open>What the environment answers to one bounded call: the polls of the mutex before it is held,
  the time that took, and the results of capping and restoring the busy timeout and of the
  statements that begin and commit the transaction.\<close>
record bounded_call =
  bc_polls :: "lock_poll list"
  bc_elapsed :: micros
  bc_cap :: "unit journal_result"
  bc_begin :: "unit journal_result"
  bc_commit :: "unit journal_result"
  bc_restore :: "unit journal_result"

fun poll_lock :: "string \<Rightarrow> bool \<Rightarrow> micros \<Rightarrow> lock_poll list \<Rightarrow> unit journal_result" where
  "poll_lock operation cancellable deadline [] = Inr ()"
| "poll_lock operation cancellable deadline (CancelledPoll # polls) =
    (if cancellable then Inl (OperationCancelled operation) else poll_lock operation cancellable deadline polls)"
| "poll_lock operation cancellable deadline (PoisonedPoll # polls) = Inl LockPoisoned"
| "poll_lock operation cancellable deadline (WouldBlock now # polls) =
    (if deadline \<le> now then Inl (BudgetExhausted operation) else poll_lock operation cancellable deadline polls)"

definition lock_within_cancellable :: "string \<Rightarrow> bool \<Rightarrow> recovery_time_budget \<Rightarrow> bounded_call \<Rightarrow> unit journal_result" where
  "lock_within_cancellable operation cancellable budget c =
    (if is_spent budget then Inl (BudgetExhausted operation) else poll_lock operation cancellable budget (bc_polls c))"

definition lock_within :: "string \<Rightarrow> recovery_time_budget \<Rightarrow> bounded_call \<Rightarrow> unit journal_result" where
  "lock_within operation budget c = lock_within_cancellable operation False budget c"

definition busy_cap :: "string \<Rightarrow> recovery_time_budget \<Rightarrow> bounded_call \<Rightarrow> unit journal_result" where
  "busy_cap operation budget c =
    (if sat_sub_i64 budget (min (bc_elapsed c) i64_max) \<le> 0 then Inl (BudgetExhausted operation) else bc_cap c)"

definition with_bounded_connection ::
  "string \<Rightarrow> recovery_time_budget \<Rightarrow> bounded_call \<Rightarrow> (journal_store \<Rightarrow> 'a journal_result) \<Rightarrow> journal_store \<Rightarrow> 'a journal_result" where
  "with_bounded_connection operation budget c action s =
    res_bind (lock_within operation budget c) (\<lambda>_.
    with_busy_budget operation (busy_cap operation budget c) (bc_restore c) (action s))"

text \<open>The store changes exactly when the transaction committed, which is before the timeout is
  restored.\<close>
definition with_bounded_transaction ::
  "string \<Rightarrow> recovery_time_budget \<Rightarrow> bounded_call \<Rightarrow> (journal_store \<Rightarrow> observation_journal_error + 'a \<times> journal_store) \<Rightarrow>
    journal_store \<Rightarrow> 'a journal_result \<times> journal_store" where
  "with_bounded_transaction operation budget c action s =
    (case res_bind (lock_within operation budget c) (\<lambda>_. busy_cap operation budget c) of
      Inl e \<Rightarrow> (Inl e, s)
    | Inr _ \<Rightarrow>
        (case res_bind (bc_begin c) (\<lambda>_. res_bind (action s) (\<lambda>(x, s'). res_bind (bc_commit c) (\<lambda>_. Inr (x, s')))) of
          Inl e \<Rightarrow> (with_busy_budget operation (Inr ()) (bc_restore c) (Inl e), s)
        | Inr (x, s') \<Rightarrow> (with_busy_budget operation (Inr ()) (bc_restore c) (Inr x), s')))"

subsection \<open>The recovery record\<close>

record host_recovery_state =
  hr_acknowledged :: "(nat \<times> micros) option"
  hr_implementation_identity_sha256 :: "string option"
  hr_state_schema_version :: "string option"
  hr_state_generation :: "nat option"
  hr_replay_position_retained :: "bool option"
  hr_automatic_repair_attempts :: nat
  hr_last_defect :: "string option"
  hr_last_assessment_id :: "string option"
  hr_updated_at :: micros

record recovery_frontier =
  uf_unacknowledged_items :: nat
  uf_first_unacknowledged_sequence :: "nat option"
  uf_last_journalled_sequence :: "nat option"

record recovery_refusal_write =
  rw_target :: recovery_target
  rw_assessment :: string
  rw_defect :: string
  rw_max_automatic_attempts :: nat
  rw_now :: micros

definition decode_recovery_row :: "recovery_row \<Rightarrow> host_recovery_state journal_result" where
  "decode_recovery_row r =
    res_bind (case (rv_acknowledged_sequence r, rv_acknowledged_at r) of
        (Some n, Some instant) \<Rightarrow> Inr (Some (n, instant))
      | (None, None) \<Rightarrow> Inr None
      | _ \<Rightarrow> Inl (Corrupt RECOVERY ''acknowledged_sequence'')) (\<lambda>acknowledged.
    res_bind (read_u32 (rv_automatic_repair_attempts r) ''automatic_repair_attempts'') (\<lambda>attempts.
    Inr \<lparr>hr_acknowledged = acknowledged, hr_implementation_identity_sha256 = rv_implementation_identity_sha256 r,
      hr_state_schema_version = rv_state_schema_version r, hr_state_generation = rv_state_generation r,
      hr_replay_position_retained = rv_replay_position_retained r, hr_automatic_repair_attempts = attempts,
      hr_last_defect = rv_last_defect r, hr_last_assessment_id = rv_last_assessment_id r,
      hr_updated_at = rv_updated_at r\<rparr>))"

definition recovery_state ::
  "recovery_target \<Rightarrow> recovery_time_budget \<Rightarrow> bounded_call \<Rightarrow> journal_store \<Rightarrow>
    host_recovery_state option journal_result \<times> journal_store" where
  "recovery_state k budget c s =
    (case res_bind (recovery_target_validate k) (\<lambda>_. sql_i64 (rk_registration_revision k) ''registration_revision'') of
      Inl e \<Rightarrow> (Inl e, s)
    | Inr _ \<Rightarrow> with_bounded_transaction ''recovery_state'' budget c (\<lambda>s.
        let s' = advance_acknowledged_watermark (rk_lane k) (rk_columns k) s in
        case recovery_row_at s' (rk_lane k) (rk_columns k) of
          None \<Rightarrow> Inr (None, s')
        | Some r \<Rightarrow> res_bind (decode_recovery_row r) (\<lambda>h. Inr (Some h, s'))) s)"

definition DELIVERABLE_STATES :: "delivery_state list" where
  "DELIVERABLE_STATES = [Pending, Leased, delivery_state.EffectUnknown]"

definition target_rows :: "recovery_target \<Rightarrow> journal_store \<Rightarrow> (delivery_row \<times> journal_row) list" where
  "target_rows k s = filter (\<lambda>(d, j). d_lane d = rk_lane k \<and> j_stream j = rk_columns k) (joined s)"

text \<open>\<^verbatim>\<open>MIN\<close> and \<^verbatim>\<open>MAX\<close> over no rows are NULL.\<close>
definition unacknowledged_frontier ::
  "recovery_target \<Rightarrow> recovery_time_budget \<Rightarrow> bounded_call \<Rightarrow> journal_store \<Rightarrow> recovery_frontier journal_result" where
  "unacknowledged_frontier k budget c s =
    res_bind (recovery_target_validate k) (\<lambda>_.
    res_bind (sql_i64 (rk_registration_revision k) ''registration_revision'') (\<lambda>_.
    with_bounded_connection ''unacknowledged_frontier'' budget c (\<lambda>s.
      let all = map (j_sequence \<circ> snd) (target_rows k s);
          open = map (j_sequence \<circ> snd) (filter (\<lambda>(d, j). d_state d \<in> set DELIVERABLE_STATES) (target_rows k s))
      in Inr \<lparr>uf_unacknowledged_items = length open,
        uf_first_unacknowledged_sequence = (if open = [] then None else Some (Min (set open))),
        uf_last_journalled_sequence = (if all = [] then None else Some (Max (set all)))\<rparr>) s))"

definition upsert_recovery ::
  "recovery_target \<Rightarrow> recovery_row \<Rightarrow> (recovery_row \<Rightarrow> recovery_row) \<Rightarrow> journal_store \<Rightarrow> journal_store" where
  "upsert_recovery k new update s = s\<lparr>st_recovery :=
    (if \<exists>r\<in>set (st_recovery s). rv_lane r = rk_lane k \<and> rv_stream r = rk_columns k
     then update_where (\<lambda>r. rv_lane r = rk_lane k \<and> rv_stream r = rk_columns k) update (st_recovery s)
     else st_recovery s @ [new])\<rparr>"

definition accept_row :: "provider_checkpoint \<Rightarrow> micros \<Rightarrow> recovery_row \<Rightarrow> recovery_row" where
  "accept_row cp now r = r\<lparr>rv_implementation_identity_sha256 := Some (cp_implementation_identity_sha256 cp),
    rv_state_schema_version := Some (cp_state_schema_version cp), rv_state_generation := Some (cp_state_generation cp),
    rv_replay_position_retained := Some (retains_position (cp_replay_position cp)), rv_automatic_repair_attempts := 0,
    rv_last_defect := None, rv_last_assessment_id := None, rv_updated_at := now\<rparr>"

definition accept_checkpoint ::
  "provider_checkpoint \<Rightarrow> micros \<Rightarrow> recovery_time_budget \<Rightarrow> bounded_call \<Rightarrow> journal_store \<Rightarrow> unit journal_result \<times> journal_store" where
  "accept_checkpoint cp now budget c s = (let k = cp_target cp in
    case first_error [checkpoint_validate cp,
        res_bind (sql_i64 (rk_registration_revision k) ''registration_revision'') (\<lambda>_. Inr ()),
        res_bind (sql_i64 (cp_state_generation cp) ''state_generation'') (\<lambda>_. Inr ())] of
      Inl e \<Rightarrow> (Inl e, s)
    | Inr _ \<Rightarrow> with_bounded_transaction ''accept_checkpoint'' budget c (\<lambda>s. Inr ((),
        upsert_recovery k (accept_row cp now (fresh_recovery_row (rk_lane k) (rk_columns k) now)) (accept_row cp now) s)) s)"

definition refused_attempts :: "recovery_refusal_write \<Rightarrow> recovery_row \<Rightarrow> nat" where
  "refused_attempts w r =
    (if rv_last_assessment_id r = Some (rw_assessment w) then rv_automatic_repair_attempts r
     else if rw_max_automatic_attempts w \<le> rv_automatic_repair_attempts r then rv_automatic_repair_attempts r
     else rv_automatic_repair_attempts r + 1)"

definition refuse_row :: "recovery_refusal_write \<Rightarrow> nat \<Rightarrow> recovery_row \<Rightarrow> recovery_row" where
  "refuse_row w attempts r = r\<lparr>rv_automatic_repair_attempts := attempts, rv_last_defect := Some (rw_defect w),
    rv_last_assessment_id := Some (rw_assessment w), rv_updated_at := rw_now w\<rparr>"

definition record_recovery_refusal ::
  "recovery_refusal_write \<Rightarrow> recovery_time_budget \<Rightarrow> bounded_call \<Rightarrow> journal_store \<Rightarrow> nat journal_result \<times> journal_store" where
  "record_recovery_refusal w budget c s = (let k = rw_target w in
    case first_error [recovery_target_validate k,
        if rw_max_automatic_attempts w = 0 then Inl (ValueOutOfRange ''max_automatic_attempts'') else Inr (),
        res_bind (sql_i64 (rk_registration_revision k) ''registration_revision'') (\<lambda>_. Inr ())] of
      Inl e \<Rightarrow> (Inl e, s)
    | Inr _ \<Rightarrow> with_bounded_transaction ''record_recovery_refusal'' budget c (\<lambda>s.
        let new = refuse_row w (min 1 (rw_max_automatic_attempts w))
              (fresh_recovery_row (rk_lane k) (rk_columns k) (rw_now w));
            s' = upsert_recovery k new (\<lambda>r. refuse_row w (refused_attempts w r) r) s
        in case recovery_row_at s' (rk_lane k) (rk_columns k) of
          None \<Rightarrow> Inl (Storage ''QueryReturnedNoRows'')
        | Some r \<Rightarrow> res_bind (read_u32 (rv_automatic_repair_attempts r) ''automatic_repair_attempts'') (\<lambda>attempts.
            Inr (attempts, s'))) s)"


subsection \<open>Defects and plans\<close>

datatype state_incompatibility =
    StateSchemaChanged string string
  | ImplementationIdentityChanged string string
  | StateGenerationRegressed nat nat
  | AcknowledgedSequenceRegressed nat "nat option"
  | ProviderAheadOfJournal nat "nat option"
  | ReplayPositionAbandoned "nat option"
  | ReplayPositionUnreadable

fun incompatibility_as_wire :: "state_incompatibility \<Rightarrow> string" where
  "incompatibility_as_wire (StateSchemaChanged _ _) = ''state_schema_changed''"
| "incompatibility_as_wire (ImplementationIdentityChanged _ _) = ''implementation_identity_changed''"
| "incompatibility_as_wire (StateGenerationRegressed _ _) = ''state_generation_regressed''"
| "incompatibility_as_wire (AcknowledgedSequenceRegressed _ _) = ''acknowledged_sequence_regressed''"
| "incompatibility_as_wire (ProviderAheadOfJournal _ _) = ''provider_ahead_of_journal''"
| "incompatibility_as_wire (ReplayPositionAbandoned _) = ''replay_position_abandoned''"
| "incompatibility_as_wire ReplayPositionUnreadable = ''replay_position_unreadable''"

datatype repair_action = MigrateProviderState | RestoreProviderSnapshot | ResetProviderState | OperatorInvestigation

fun repair_action_of :: "state_incompatibility \<Rightarrow> repair_action" where
  "repair_action_of (StateSchemaChanged _ _) = MigrateProviderState"
| "repair_action_of (ImplementationIdentityChanged _ _) = MigrateProviderState"
| "repair_action_of (StateGenerationRegressed _ _) = ResetProviderState"
| "repair_action_of (AcknowledgedSequenceRegressed _ _) = RestoreProviderSnapshot"
| "repair_action_of (ReplayPositionAbandoned _) = RestoreProviderSnapshot"
| "repair_action_of (ProviderAheadOfJournal _ _) = OperatorInvestigation"
| "repair_action_of ReplayPositionUnreadable = OperatorInvestigation"

datatype recovery_plan =
    Converged "nat option" nat
  | ReplayUnacknowledged nat nat nat nat
  | StateIncompatible state_incompatibility repair_action nat
  | OperatorRepairRequired state_incompatibility repair_action nat nat

fun permits_delivery :: "recovery_plan \<Rightarrow> bool" where
  "permits_delivery (Converged _ _) = True"
| "permits_delivery (ReplayUnacknowledged _ _ _ _) = True"
| "permits_delivery (StateIncompatible _ _ _) = False"
| "permits_delivery (OperatorRepairRequired _ _ _ _) = False"

fun expected_state_generation :: "recovery_plan \<Rightarrow> nat option" where
  "expected_state_generation (Converged _ g) = Some g"
| "expected_state_generation (ReplayUnacknowledged _ _ _ g) = Some g"
| "expected_state_generation (StateIncompatible _ _ _) = None"
| "expected_state_generation (OperatorRepairRequired _ _ _ _) = None"

fun plan_repair_action :: "recovery_plan \<Rightarrow> repair_action option" where
  "plan_repair_action (StateIncompatible _ a _) = Some a"
| "plan_repair_action (OperatorRepairRequired _ a _ _) = Some a"
| "plan_repair_action (Converged _ _) = None"
| "plan_repair_action (ReplayUnacknowledged _ _ _ _) = None"

fun first_some :: "'a option list \<Rightarrow> 'a option" where
  "first_some [] = None"
| "first_some (None # xs) = first_some xs"
| "first_some (Some x # xs) = Some x"

text \<open>The checks against the recorded state, in the order in which they are reported.\<close>
definition recorded_defects :: "host_recovery_state \<Rightarrow> provider_checkpoint \<Rightarrow> state_incompatibility option list" where
  "recorded_defects h cp =
    [case hr_state_schema_version h of None \<Rightarrow> None | Some expected \<Rightarrow>
       if expected \<noteq> cp_state_schema_version cp then Some (StateSchemaChanged expected (cp_state_schema_version cp)) else None,
     case hr_implementation_identity_sha256 h of None \<Rightarrow> None | Some expected \<Rightarrow>
       if expected \<noteq> cp_implementation_identity_sha256 cp
       then Some (ImplementationIdentityChanged expected (cp_implementation_identity_sha256 cp)) else None,
     case hr_state_generation h of None \<Rightarrow> None | Some expected \<Rightarrow>
       if cp_state_generation cp < expected then Some (StateGenerationRegressed expected (cp_state_generation cp)) else None,
     if hr_replay_position_retained h = Some True \<and> \<not> retains_position (cp_replay_position cp)
     then Some (ReplayPositionAbandoned (map_option fst (hr_acknowledged h))) else None,
     case hr_acknowledged h of None \<Rightarrow> None | Some (host, _) \<Rightarrow>
       if retains_position (cp_replay_position cp) \<and>
         (case reported (cp_replay_position cp) of None \<Rightarrow> True | Some provider \<Rightarrow> provider < host)
       then Some (AcknowledgedSequenceRegressed host (reported (cp_replay_position cp))) else None]"

definition detect_incompatibility ::
  "host_recovery_state option \<Rightarrow> provider_checkpoint \<Rightarrow> recovery_frontier \<Rightarrow> state_incompatibility option" where
  "detect_incompatibility recorded cp frontier = first_some
    ((if cp_replay_position cp = Unreadable then Some ReplayPositionUnreadable else None) #
     (case recorded of None \<Rightarrow> [] | Some h \<Rightarrow> recorded_defects h cp) @
     [case reported (cp_replay_position cp) of None \<Rightarrow> None | Some provider \<Rightarrow>
        if case uf_last_journalled_sequence frontier of None \<Rightarrow> True | Some journalled \<Rightarrow> journalled < provider
        then Some (ProviderAheadOfJournal provider (uf_last_journalled_sequence frontier)) else None])"

subsection \<open>The assessment\<close>

definition recovery_budget_validate :: "nat \<Rightarrow> unit journal_result" where
  "recovery_budget_validate max_attempts =
    (if max_attempts = 0 then Inl (ValueOutOfRange ''max_automatic_attempts'') else Inr ())"

text \<open>The runtime is its validated budget.\<close>
definition recovery_runtime_new :: "nat \<Rightarrow> runtime_error + nat" where
  "recovery_runtime_new max_attempts =
    (case recovery_budget_validate max_attempts of Inl e \<Rightarrow> Inl (Journal e) | Inr _ \<Rightarrow> Inr max_attempts)"

definition check_control :: "bool \<Rightarrow> micros \<Rightarrow> micros \<Rightarrow> string \<Rightarrow> runtime_error + unit" where
  "check_control cancelled deadline now stage =
    (if cancelled then Inl (RecoveryCancelled stage)
     else if is_spent (recovery_remaining deadline now) then Inl (RecoveryDeadlineExceeded stage) else Inr ())"

text \<open>What other processes may do to the journal between two calls of an assessment.\<close>
datatype recovery_event =
    JournalEvent journal_event
  | StateEvent recovery_target recovery_time_budget bounded_call
  | AcceptEvent provider_checkpoint micros recovery_time_budget bounded_call
  | RefuseEvent recovery_refusal_write recovery_time_budget bounded_call

fun run_recovery :: "sha \<Rightarrow> retention_policy \<Rightarrow> recovery_event \<Rightarrow> journal_store \<Rightarrow> journal_store" where
  "run_recovery sha policy (JournalEvent e) s = run_journal sha policy e s"
| "run_recovery sha policy (StateEvent k budget c) s = snd (recovery_state k budget c s)"
| "run_recovery sha policy (AcceptEvent cp now budget c) s = snd (accept_checkpoint cp now budget c s)"
| "run_recovery sha policy (RefuseEvent w budget c) s = snd (record_recovery_refusal w budget c s)"

text \<open>The token as each check reads it, the answers to each port call, and what runs before each
  check.\<close>
record recovery_env =
  re_cancelled :: "nat \<Rightarrow> bool"
  re_call :: "nat \<Rightarrow> bounded_call"
  re_meanwhile :: "nat \<Rightarrow> recovery_event list"

definition recovery_gate ::
  "sha \<Rightarrow> retention_policy \<Rightarrow> recovery_env \<Rightarrow> micros \<Rightarrow> micros \<Rightarrow> nat \<Rightarrow> string \<Rightarrow> unit runtime" where
  "recovery_gate sha policy env deadline now i stage s =
    (check_control (re_cancelled env i) deadline now stage, fold (run_recovery sha policy) (re_meanwhile env i) s)"

definition refuse_assessment ::
  "sha \<Rightarrow> retention_policy \<Rightarrow> nat \<Rightarrow> recovery_env \<Rightarrow> provider_checkpoint \<Rightarrow> micros \<Rightarrow> micros \<Rightarrow>
    state_incompatibility \<Rightarrow> recovery_plan runtime" where
  "refuse_assessment sha policy max_attempts env cp deadline now defect =
    rt_bind (recovery_gate sha policy env deadline now 2 ''refusal write'') (\<lambda>_.
    rt_bind (journal_call (record_recovery_refusal \<lparr>rw_target = cp_target cp, rw_assessment = for_checkpoint sha cp,
      rw_defect = incompatibility_as_wire defect, rw_max_automatic_attempts = max_attempts, rw_now = now\<rparr>
      (recovery_remaining deadline now) (re_call env 2))) (\<lambda>attempts.
    rt_return (if max_attempts \<le> attempts
      then OperatorRepairRequired defect (repair_action_of defect) attempts max_attempts
      else StateIncompatible defect (repair_action_of defect) (max_attempts - attempts))))"

definition accept_assessment ::
  "sha \<Rightarrow> retention_policy \<Rightarrow> recovery_env \<Rightarrow> provider_checkpoint \<Rightarrow> micros \<Rightarrow> micros \<Rightarrow>
    host_recovery_state option \<Rightarrow> recovery_frontier \<Rightarrow> recovery_plan runtime" where
  "accept_assessment sha policy env cp deadline now recorded frontier =
    rt_bind (recovery_gate sha policy env deadline now 2 ''checkpoint write'') (\<lambda>_.
    rt_bind (journal_call (accept_checkpoint cp now (recovery_remaining deadline now) (re_call env 2))) (\<lambda>_.
    rt_return (case (uf_first_unacknowledged_sequence frontier, uf_last_journalled_sequence frontier) of
        (Some lowest, Some highest) \<Rightarrow>
          ReplayUnacknowledged lowest highest (uf_unacknowledged_items frontier) (cp_state_generation cp)
      | _ \<Rightarrow> Converged (map_option fst (Option.bind recorded hr_acknowledged)) (cp_state_generation cp))))"

definition assess ::
  "sha \<Rightarrow> retention_policy \<Rightarrow> nat \<Rightarrow> recovery_env \<Rightarrow> provider_checkpoint \<Rightarrow> micros \<Rightarrow> micros \<Rightarrow> recovery_plan runtime" where
  "assess sha policy max_attempts env cp deadline now =
    rt_bind (rt_result (checkpoint_validate cp)) (\<lambda>_.
    rt_bind (recovery_gate sha policy env deadline now 0 ''journal read'') (\<lambda>_.
    rt_bind (journal_call (recovery_state (cp_target cp) (recovery_remaining deadline now) (re_call env 0))) (\<lambda>recorded.
    rt_bind (recovery_gate sha policy env deadline now 1 ''frontier read'') (\<lambda>_.
    rt_bind (\<lambda>s. rt_result (unacknowledged_frontier (cp_target cp) (recovery_remaining deadline now) (re_call env 1) s) s)
      (\<lambda>frontier.
    case detect_incompatibility recorded cp frontier of
      Some defect \<Rightarrow> refuse_assessment sha policy max_attempts env cp deadline now defect
    | None \<Rightarrow> accept_assessment sha policy env cp deadline now recorded frontier)))))"

end
