(* ===== verification/Source_Delivery.thy ===== *)
theory Source_Delivery
  imports Recovery
begin

text \<open>
  Delivery evidence per source (\<^verbatim>\<open>source_delivery.rs\<close>, \<^verbatim>\<open>sqlite/source_delivery.rs\<close>): for the source
  positions a caller names, what the journal durably holds of them, read in one bounded and
  cancellable snapshot.  The token and the clock as each check reads them, the mutex and the
  database are the environment of the read.  The journal's source columns and its stored
  settlement receipt are one value of the model, so each comparison with a column is the
  comparison with that value.
\<close>

subsection \<open>Requests and evidence\<close>

record expected_source =
  xs_source_sequence :: nat
  xs_source_event_id :: string

datatype source_evidence =
    Missing
  | Retained admitted_observation delivery_state "delivery_receipt option"
  | Purged delivery_state

definition OPERATION :: string where "OPERATION = ''read_source_deliveries''"

definition delivery_corrupt :: "string \<Rightarrow> observation_journal_error" where
  "delivery_corrupt field = Corrupt DELIVERY field"

definition check_bound :: "bool \<times> micros \<Rightarrow> recovery_time_budget \<Rightarrow> unit journal_result" where
  "check_bound = (\<lambda>(cancelled, elapsed) budget.
    if cancelled then Inl (OperationCancelled OPERATION)
    else if budget \<le> min elapsed i64_max then Inl (BudgetExhausted OPERATION) else Inr ())"

text \<open>The token and the time since the call started at each check, the time when the lock is asked
  for, the result of setting the busy timeout for each key, and the answers of the bounded call.\<close>
record source_read_env =
  se_check :: "nat \<Rightarrow> bool \<times> micros"
  se_lock_elapsed :: micros
  se_busy_timeout :: "nat \<Rightarrow> unit journal_result"
  se_call :: bounded_call

fun check_sources :: "nat set \<Rightarrow> string set \<Rightarrow> expected_source list \<Rightarrow> unit journal_result" where
  "check_sources sequences events [] = Inr ()"
| "check_sources sequences events (x # xs) =
    res_bind (require_bounded (xs_source_event_id x) ''source_event_id'' SOURCE_EVENT_ID_MAX_BYTES) (\<lambda>_.
    if xs_source_sequence x = 0 \<or> xs_source_sequence x \<in> sequences \<or> xs_source_event_id x \<in> events
    then Inl (ValueOutOfRange ''duplicate_source_sequence'')
    else check_sources (insert (xs_source_sequence x) sequences) (insert (xs_source_event_id x) events) xs)"

subsection \<open>One source\<close>

definition is_acknowledged :: "delivery_state \<Rightarrow> bool" where
  "is_acknowledged st \<longleftrightarrow> st \<in> {Acknowledged, delivery_state.DuplicateAcknowledged}"

definition receipt_answers :: "string \<Rightarrow> journal_row \<Rightarrow> delivery_row \<Rightarrow> nat \<Rightarrow> delivery_receipt \<Rightarrow> bool" where
  "receipt_answers receipt_id j d attempt r \<longleftrightarrow>
    dr_receipt_id r = receipt_id \<and> dr_idempotency_key r = j_idempotency_key j \<and>
    dr_observation_id r = j_observation_id j \<and> dr_payload_sha256 r = j_payload_sha256 j \<and>
    dr_extensions_digest r = j_extensions_digest j \<and> dr_provider_id r = pt_provider_id (j_target j) \<and>
    dr_registration_revision r = pt_registration_revision (j_target j) \<and> dr_attempt_number r \<le> attempt \<and>
    d_last_outcome d = Some (dr_outcome r) \<and> d_last_committed_effect d = Some (dr_committed_effect r) \<and>
    (is_acknowledged (d_state d) \<longrightarrow>
      dr_attempt_number r = attempt \<and> implied_state (dr_outcome r) = d_state d \<and> dr_provider_instance_id r \<noteq> None \<and>
      dr_provider_instance_id r = d_last_provider_instance_id d)"

definition read_matching_receipt ::
  "sha \<Rightarrow> journal_store \<Rightarrow> string \<Rightarrow> journal_row \<Rightarrow> delivery_row \<Rightarrow> nat \<Rightarrow> delivery_receipt journal_result" where
  "read_matching_receipt sha s receipt_id j d attempt =
    (case find (\<lambda>r. dr_receipt_id r = receipt_id) (st_receipts s) of
      None \<Rightarrow> Inl (delivery_corrupt ''missing_last_receipt'')
    | Some row \<Rightarrow> res_bind (decode_receipt sha row) (\<lambda>r.
        if receipt_answers receipt_id j d attempt r then Inr r else Inl (delivery_corrupt ''last_receipt_identity'')))"

definition source_row_matches ::
  "lane \<Rightarrow> exact_scope \<Rightarrow> stream_key \<Rightarrow> expected_source \<Rightarrow> journal_row \<Rightarrow> delivery_row \<Rightarrow> bool" where
  "source_row_matches l scope stream x j d \<longleftrightarrow>
    j_exact_scope j = scope \<and> j_exact_scope_sha256 j = sk_exact_scope_sha256 stream \<and> j_lane j = l \<and>
    d_observation_id d = j_observation_id j \<and> d_lane d = l \<and> d_exact_scope_sha256 d = sk_exact_scope_sha256 stream \<and>
    d_source_sequence d = xs_source_sequence x \<and> sr_source_sequence (j_source j) = xs_source_sequence x \<and>
    sr_source_authority (j_source j) = sk_source_authority stream \<and> sr_source_stream (j_source j) = sk_source_stream stream \<and>
    sr_source_event_id (j_source j) = xs_source_event_id x"

definition last_receipt_of ::
  "sha \<Rightarrow> journal_store \<Rightarrow> journal_row \<Rightarrow> delivery_row \<Rightarrow> nat \<Rightarrow> delivery_receipt option journal_result" where
  "last_receipt_of sha s j d attempt = (case d_last_receipt_id d of
      None \<Rightarrow> if d_last_outcome d \<noteq> None \<or> d_last_committed_effect d \<noteq> None
        then Inl (delivery_corrupt ''outcome_without_receipt'') else Inr None
    | Some receipt_id \<Rightarrow> res_bind (read_matching_receipt sha s receipt_id j d attempt) (\<lambda>r. Inr (Some r)))"

definition decode_source_delivery ::
  "sha \<Rightarrow> journal_store \<Rightarrow> lane \<Rightarrow> exact_scope \<Rightarrow> stream_key \<Rightarrow> expected_source \<Rightarrow> journal_row \<Rightarrow> delivery_row option \<Rightarrow>
    source_evidence journal_result" where
  "decode_source_delivery sha s l scope stream x j delivery =
    res_bind (parse_digest ''idempotency_key'' (j_idempotency_key j)) (\<lambda>key.
    res_bind (observation_id_parse (j_observation_id j)) (\<lambda>obs.
    case delivery of None \<Rightarrow> Inl (delivery_corrupt ''missing_delivery'') | Some d \<Rightarrow>
    res_bind (lift_api (exact_scope_validate (j_exact_scope j))) (\<lambda>_.
    res_bind (settlement_receipt_validate (j_source j)) (\<lambda>_.
    if \<not> source_row_matches l scope stream x j d then Inl (delivery_corrupt ''source_delivery_identity'')
    else res_bind (read_u32 (d_attempt_number d) ''attempt_number'') (\<lambda>attempt.
    res_bind (last_receipt_of sha s j d attempt) (\<lambda>receipt.
    if is_acknowledged (d_state d) \<and> receipt = None then Inl (delivery_corrupt ''acknowledged_without_receipt'')
    else if j_payload_bytes j = None then Inr (Purged (d_state d))
    else res_bind (decode_admitted sha j d) (\<lambda>a.
    if ao_idempotency_key a \<noteq> key \<or> ao_observation_id a \<noteq> obs \<or> ao_exact_scope a \<noteq> scope \<or> ao_source a \<noteq> j_source j
    then Inl (delivery_corrupt ''admitted_source_identity'')
    else Inr (Retained a (d_state d) receipt))))))))"

subsection \<open>The read\<close>

definition select_source :: "journal_store \<Rightarrow> lane \<Rightarrow> stream_key \<Rightarrow> nat \<Rightarrow> journal_row option" where
  "select_source s l stream n =
    find (\<lambda>j. j_lane j = l \<and> j_stream j = stream_columns_of stream \<and> j_sequence j = n) (st_journal s)"

definition delivery_of :: "journal_store \<Rightarrow> journal_row \<Rightarrow> delivery_row option" where
  "delivery_of s j = find (\<lambda>d. d_idempotency_key d = j_idempotency_key j) (st_delivery s)"

fun read_each ::
  "sha \<Rightarrow> source_read_env \<Rightarrow> lane \<Rightarrow> exact_scope \<Rightarrow> stream_key \<Rightarrow> recovery_time_budget \<Rightarrow> journal_store \<Rightarrow> nat \<Rightarrow>
    expected_source list \<Rightarrow> source_evidence list journal_result" where
  "read_each sha env l scope stream budget s i [] = Inr []"
| "read_each sha env l scope stream budget s i (x # xs) =
    res_bind (check_bound (se_check env (2 * i + 1)) budget) (\<lambda>_.
    res_bind (se_busy_timeout env i) (\<lambda>_.
    res_bind (sql_i64 (snd l) ''registration_revision'') (\<lambda>_.
    res_bind (sql_i64 (xs_source_sequence x) ''source_sequence'') (\<lambda>n.
    res_bind (case select_source s l stream n of
        None \<Rightarrow> Inr Missing
      | Some j \<Rightarrow> decode_source_delivery sha s l scope stream x j (delivery_of s j)) (\<lambda>evidence.
    res_bind (check_bound (se_check env (2 * i + 2)) budget) (\<lambda>_.
    res_bind (read_each sha env l scope stream budget s (Suc i) xs) (\<lambda>rest. Inr (evidence # rest))))))))"

definition with_cancellable_bounded_connection ::
  "string \<Rightarrow> recovery_time_budget \<Rightarrow> bounded_call \<Rightarrow> (journal_store \<Rightarrow> 'a journal_result) \<Rightarrow> journal_store \<Rightarrow> 'a journal_result" where
  "with_cancellable_bounded_connection operation budget c action s =
    res_bind (lock_within_cancellable operation True budget c) (\<lambda>_.
    with_busy_budget operation (busy_cap operation budget c) (bc_restore c) (action s))"

definition read_source_deliveries ::
  "sha \<Rightarrow> source_read_env \<Rightarrow> lane \<Rightarrow> exact_scope \<Rightarrow> stream_key \<Rightarrow> expected_source list \<Rightarrow> recovery_time_budget \<Rightarrow>
    journal_store \<Rightarrow> source_evidence list journal_result" where
  "read_source_deliveries sha env l scope stream sources budget s =
    res_bind (first_error
      [check_bound (se_check env 0) budget, lane_validate l, lift_api (exact_scope_validate scope), stream_key_validate stream,
       if sources = [] \<or> 256 < length sources \<or> sk_exact_scope_sha256 stream \<noteq> exact_scope_sha256 sha scope
         then Inl (ValueOutOfRange ''source_delivery_request'') else Inr (),
       check_sources {} {} sources]) (\<lambda>_.
    with_cancellable_bounded_connection OPERATION (sat_sub_i64 budget (min (se_lock_elapsed env) i64_max)) (se_call env) (\<lambda>s.
      res_bind (bc_begin (se_call env)) (\<lambda>_.
      res_bind (read_each sha env l scope stream budget s 0 sources) (\<lambda>evidence.
      res_bind (bc_commit (se_call env)) (\<lambda>_.
      res_bind (check_bound (se_check env (2 * length sources + 1)) budget) (\<lambda>_. Inr evidence))))) s)"

end
