(* ===== verification/Recovery_Properties.thy ===== *)
theory Recovery_Properties
  imports Recovery
begin

text \<open>
  What restart recovery promises.  Whatever journal operations and recovery calls are interleaved,
  the acknowledged watermark of a target never moves back and the repair counter stays within its
  ceiling, and an assessment does nothing to the journal that its port calls do not.  Delivery is
  permitted only into a provider state that agrees with the record and with the journal, a retried
  assessment spends one attempt in all, and an assessment stopped by its caller spends none.
\<close>

subsection \<open>The identity of an assessment\<close>

definition assessment_input_ok :: "provider_checkpoint \<Rightarrow> bool" where
  "assessment_input_ok cp \<longleftrightarrow> fits (assessment_fields cp) \<and> rk_registration_revision (cp_target cp) \<le> u64_max \<and>
    cp_state_generation cp \<le> u64_max \<and> (\<forall>n. reported (cp_replay_position cp) = Some n \<longrightarrow> n \<le> u64_max)"

lemma replay_position_inject:
  assumes "replay_position_as_wire p = replay_position_as_wire q" "reported p = reported q"
  shows "p = q"
  using assms by (cases p; cases q) simp_all

interpretation assessment: framed_identity assessment_preimage assessment_input_ok
proof unfold_locales
  fix a b
  assume ok: "assessment_input_ok a" "assessment_input_ok b" and "assessment_preimage a = assessment_preimage b"
  then have eq: "assessment_fields a = assessment_fields b"
    by (intro fits_frames) (simp_all add: assessment_preimage_def assessment_input_ok_def)
  then have wire: "replay_position_as_wire (cp_replay_position a) = replay_position_as_wire (cp_replay_position b)"
    by (simp add: assessment_fields_def Let_def)
  then have "reported (cp_replay_position a) = reported (cp_replay_position b)"
    using eq ok
    by (cases "cp_replay_position a"; cases "cp_replay_position b")
      (simp_all add: assessment_fields_def Let_def assessment_input_ok_def u64_be_inject)
  with wire have "cp_replay_position a = cp_replay_position b" by (rule replay_position_inject)
  with eq ok show "a = b"
    by (simp add: assessment_fields_def Let_def assessment_input_ok_def u64_be_inject authority_wire.enc_inject)
qed

text \<open>Two different checkpoints are two different assessments, or they exhibit a hash collision.\<close>
lemma assessment_id_binds:
  assumes "assessment_input_ok a" "assessment_input_ok b" "a \<noteq> b" "for_checkpoint sha a = for_checkpoint sha b"
  shows "\<exists>x y. x \<noteq> y \<and> sha x = sha y"
  using assms assessment.identity_collision [of a b sha] by (simp add: for_checkpoint_def)

subsection \<open>Bounded transactions\<close>

lemma bounded_transaction_keeps:
  "P s \<Longrightarrow> (\<And>x s'. f s = Inr (x, s') \<Longrightarrow> P s') \<Longrightarrow> P (snd (with_bounded_transaction operation budget c f s))"
  by (auto simp: with_bounded_transaction_def res_bind_Inr_iff split: sum.splits prod.splits)

lemma guarded_bounded_keeps:
  "P s \<Longrightarrow> (\<And>x s'. f s = Inr (x, s') \<Longrightarrow> P s') \<Longrightarrow>
    P (snd (case check of Inl e \<Rightarrow> (Inl e, s) | Inr _ \<Rightarrow> with_bounded_transaction operation budget c f s))"
  by (cases check) (simp_all add: bounded_transaction_keeps)

lemma bounded_transaction_ok:
  "with_bounded_transaction operation budget c f s = (Inr x, s') \<Longrightarrow> f s = Inr (x, s')"
  by (auto simp: with_bounded_transaction_def with_busy_budget_def res_bind_Inr_iff split: sum.splits prod.splits if_splits)

lemma bounded_connection_ok:
  "with_bounded_connection operation budget c f s = Inr x \<Longrightarrow> f s = Inr x"
  by (auto simp: with_bounded_connection_def with_busy_budget_def res_bind_Inr_iff split: sum.splits if_splits)

subsection \<open>The record under upserts\<close>

abbreviation row_of :: "journal_store \<Rightarrow> recovery_target \<Rightarrow> recovery_row option" where
  "row_of s k \<equiv> recovery_row_at s (rk_lane k) (rk_columns k)"

abbreviation repair_attempts :: "journal_store \<Rightarrow> recovery_target \<Rightarrow> nat" where
  "repair_attempts s k \<equiv> rv_automatic_repair_attempts (repair_record s (rk_lane k) (rk_columns k))"

abbreviation acknowledged_through :: "journal_store \<Rightarrow> recovery_target \<Rightarrow> nat option" where
  "acknowledged_through s k \<equiv> watermark s (rk_lane k) (rk_columns k)"

text \<open>An upsert that keeps the key columns and the watermark.\<close>
definition keeps_watermark :: "recovery_target \<Rightarrow> recovery_row \<Rightarrow> (recovery_row \<Rightarrow> recovery_row) \<Rightarrow> bool" where
  "keeps_watermark k new update \<longleftrightarrow> rv_lane new = rk_lane k \<and> rv_stream new = rk_columns k \<and>
    rv_acknowledged_sequence new = None \<and>
    (\<forall>r. rv_lane (update r) = rv_lane r \<and> rv_stream (update r) = rv_stream r \<and>
      rv_acknowledged_sequence (update r) = rv_acknowledged_sequence r)"

lemma upsert_row_at:
  assumes "keeps_watermark k new update"
  shows "recovery_row_at (upsert_recovery k new update s) l stream =
    (if l = rk_lane k \<and> stream = rk_columns k then Some (case row_of s k of None \<Rightarrow> new | Some r \<Rightarrow> update r)
     else recovery_row_at s l stream)"
proof (cases "find (\<lambda>r. rv_lane r = rk_lane k \<and> rv_stream r = rk_columns k) (st_recovery s)")
  case None
  then have "\<not> (\<exists>r\<in>set (st_recovery s). rv_lane r = rk_lane k \<and> rv_stream r = rk_columns k)"
    by (auto simp: find_None_iff)
  with None assms show ?thesis
    by (auto simp: recovery_row_at_def upsert_recovery_def keeps_watermark_def find_append split: option.splits)
next
  case (Some r)
  then have "\<exists>r\<in>set (st_recovery s). rv_lane r = rk_lane k \<and> rv_stream r = rk_columns k"
    by (auto dest: find_Some_mem)
  moreover have "find (\<lambda>r. rv_lane r = l \<and> rv_stream r = stream)
      (update_where (\<lambda>r. rv_lane r = rk_lane k \<and> rv_stream r = rk_columns k) update (st_recovery s)) =
    map_option (\<lambda>r. if rv_lane r = rk_lane k \<and> rv_stream r = rk_columns k then update r else r)
      (find (\<lambda>r. rv_lane r = l \<and> rv_stream r = stream) (st_recovery s))"
    using assms by (intro find_update_where) (simp add: keeps_watermark_def)
  ultimately show ?thesis
    using Some
    by (cases "find (\<lambda>r. rv_lane r = l \<and> rv_stream r = stream) (st_recovery s)")
      (auto simp: recovery_row_at_def upsert_recovery_def dest: find_Some_mem)
qed

lemma upsert_store_ok:
  assumes "store_ok s" "keeps_watermark k new update"
  shows "store_ok (upsert_recovery k new update s)"
proof -
  have "map (\<lambda>r. (rv_lane r, rv_stream r)) (update_where P update rows) = map (\<lambda>r. (rv_lane r, rv_stream r)) rows" for P rows
    using assms(2) by (intro map_update_where) (simp add: keeps_watermark_def)
  with assms show ?thesis by (auto simp: upsert_recovery_def store_ok_def keeps_watermark_def)
qed

lemma upsert_watermark:
  "keeps_watermark k new update \<Longrightarrow> watermark (upsert_recovery k new update s) l stream = watermark s l stream"
  by (auto simp: watermark_def upsert_row_at keeps_watermark_def split: option.splits)

lemma accept_keeps [simp]:
  "keeps_watermark (cp_target cp) (accept_row cp now (fresh_recovery_row (rk_lane (cp_target cp)) (rk_columns (cp_target cp)) now))
    (accept_row cp now)"
  by (simp add: keeps_watermark_def accept_row_def fresh_recovery_row_def)

lemma refuse_keeps [simp]:
  "keeps_watermark k (refuse_row w n (fresh_recovery_row (rk_lane k) (rk_columns k) now)) (\<lambda>r. refuse_row w (f r) r)"
  by (simp add: keeps_watermark_def refuse_row_def fresh_recovery_row_def)

subsection \<open>What each call does to the store\<close>

lemma recovery_state_effect:
  "snd (recovery_state k budget c s) \<in> {s, advance_acknowledged_watermark (rk_lane k) (rk_columns k) s}"
  unfolding recovery_state_def
  by (rule guarded_bounded_keeps) (auto simp: Let_def res_bind_Inr_iff split: option.splits)

abbreviation accepted :: "provider_checkpoint \<Rightarrow> micros \<Rightarrow> journal_store \<Rightarrow> journal_store" where
  "accepted cp now \<equiv> upsert_recovery (cp_target cp)
    (accept_row cp now (fresh_recovery_row (rk_lane (cp_target cp)) (rk_columns (cp_target cp)) now)) (accept_row cp now)"

abbreviation refused :: "recovery_refusal_write \<Rightarrow> journal_store \<Rightarrow> journal_store" where
  "refused w \<equiv> upsert_recovery (rw_target w) (refuse_row w (min 1 (rw_max_automatic_attempts w))
      (fresh_recovery_row (rk_lane (rw_target w)) (rk_columns (rw_target w)) (rw_now w)))
    (\<lambda>r. refuse_row w (refused_attempts w r) r)"

lemma accept_checkpoint_effect: "snd (accept_checkpoint cp now budget c s) \<in> {s, accepted cp now s}"
  unfolding accept_checkpoint_def Let_def by (rule guarded_bounded_keeps) auto

lemma record_refusal_effect: "snd (record_recovery_refusal w budget c s) \<in> {s, refused w s}"
  unfolding record_recovery_refusal_def Let_def
  by (rule guarded_bounded_keeps) (auto simp: res_bind_Inr_iff split: option.splits)

lemma row_attempts [simp]:
  "rv_automatic_repair_attempts (accept_row cp now r) = 0" "rv_automatic_repair_attempts (refuse_row w n r) = n"
  by (simp_all add: accept_row_def refuse_row_def)

lemma repair_part_attempts [simp]: "rv_automatic_repair_attempts (repair_part r) = rv_automatic_repair_attempts r"
  by (simp add: repair_part_def)

lemma repair_attempts_row:
  "rv_automatic_repair_attempts (repair_record s l stream) =
    (case recovery_row_at s l stream of None \<Rightarrow> 0 | Some r \<Rightarrow> rv_automatic_repair_attempts r)"
  by (simp add: repair_record_def fresh_recovery_row_def split: option.splits)

lemma accepted_attempts: "rv_automatic_repair_attempts (repair_record (accepted cp now s) l stream) \<le>
    rv_automatic_repair_attempts (repair_record s l stream)"
  by (auto simp: repair_attempts_row upsert_row_at split: option.splits)

lemma refused_attempts_le:
  assumes "rw_max_automatic_attempts w \<le> ceiling"
  shows "rv_automatic_repair_attempts (repair_record (refused w s) l stream) \<le>
    max ceiling (rv_automatic_repair_attempts (repair_record s l stream))"
  using assms by (auto simp: repair_attempts_row upsert_row_at refused_attempts_def split: option.splits)

subsection \<open>Journal operations leave the record alone\<close>

lemma same_recovery_kept: "st_recovery s' = st_recovery s \<Longrightarrow> watermarks_kept s s'"
  by (simp add: watermarks_kept_def watermark_def repair_record_def recovery_row_at_def)

lemma ingress_keeps_record: "watermarks_kept s (run_ingress sha policy e s)"
proof (cases e)
  case (AdmitEvent a now)
  have "st_recovery (snd (append_admitted_at sha policy a now s)) = st_recovery s"
    unfolding append_admitted_at_def
    by (rule with_transaction_keeps [where P = "\<lambda>s'. st_recovery s' = st_recovery s"])
      (auto dest!: append_stopped_or_rows simp: append_rows_frame(6))
  with AdmitEvent show ?thesis by (simp add: same_recovery_kept)
next
  case (WithholdEvent w now)
  then show ?thesis
    using record_withheld_cases [of sha w now s] by (auto dest!: record_withheld_effect intro!: same_recovery_kept)
next
  case (NonMessageEvent k src now)
  then show ?thesis
    using record_non_message_cases [of k src now s] by (auto dest!: record_non_message_effect intro!: same_recovery_kept)
qed

lemma retention_keeps_record:
  assumes "store_ok s"
  shows "watermarks_kept s (snd (sweep_expired sha policy checkpoint now budget s))"
    "watermarks_kept s (snd (forget_source sha checkpoint' q s))"
proof -
  have sweep: "st_recovery s' = st_recovery s" if "sweep_in_transaction sha policy now budget s = Inr (r, s')" for r s'
    by (rule sweep_phases [OF assms that]) (auto simp: same_progress_def delete_aged_withheld_def Let_def)
  have forget: "st_recovery s' = st_recovery s" if "forget_source_in_transaction sha q s = Inr (r, s')" for r s'
    using forget_pairs(2) [OF assms that] by (simp add: same_progress_def)
  show "watermarks_kept s (snd (sweep_expired sha policy checkpoint now budget s))"
    "watermarks_kept s (snd (forget_source sha checkpoint' q s))"
    by (auto simp: sweep_expired_def forget_source_def with_transaction_def sweep forget
        split: sum.splits prod.splits intro!: same_recovery_kept)
qed

lemma delivery_step_kept: "delivery_step s s' \<Longrightarrow> watermarks_kept s s'"
  by (simp add: delivery_step_def)

lemma journal_keeps_record: "store_ok s \<Longrightarrow> watermarks_kept s (run_journal sha policy e s)"
  by (cases e) (simp_all add: ingress_keeps_record retention_keeps_record operation_steps [THEN delivery_step_kept])

subsection \<open>Interleavings\<close>

text \<open>Any sequence of journal operations and recovery calls, with refusals under a ceiling.\<close>
inductive recovers :: "sha \<Rightarrow> retention_policy \<Rightarrow> nat \<Rightarrow> journal_store \<Rightarrow> journal_store \<Rightarrow> bool"
  for sha policy ceiling s where
  start: "recovers sha policy ceiling s s"
| journal: "recovers sha policy ceiling s t \<Longrightarrow> recovers sha policy ceiling s (run_journal sha policy e t)"
| state: "recovers sha policy ceiling s t \<Longrightarrow> recovers sha policy ceiling s (snd (recovery_state k budget c t))"
| accept: "recovers sha policy ceiling s t \<Longrightarrow> recovers sha policy ceiling s (snd (accept_checkpoint cp now budget c t))"
| refuse: "recovers sha policy ceiling s t \<Longrightarrow> rw_max_automatic_attempts w \<le> ceiling \<Longrightarrow>
    recovers sha policy ceiling s (snd (record_recovery_refusal w budget c t))"

lemma recovers_trans: "recovers sha policy ceiling t u \<Longrightarrow> recovers sha policy ceiling s t \<Longrightarrow> recovers sha policy ceiling s u"
  by (induction rule: recovers.induct) (auto intro: recovers.intros)

text \<open>The invariant of the record along such a sequence.\<close>
definition record_kept :: "nat \<Rightarrow> journal_store \<Rightarrow> journal_store \<Rightarrow> bool" where
  "record_kept ceiling s t \<longleftrightarrow> store_ok t \<and> (\<forall>l stream. at_least (watermark s l stream) (watermark t l stream) \<and>
    rv_automatic_repair_attempts (repair_record t l stream) \<le>
      max ceiling (rv_automatic_repair_attempts (repair_record s l stream)))"

lemma record_kept_step:
  assumes "record_kept ceiling s t" "store_ok u"
    "\<And>l stream. at_least (watermark t l stream) (watermark u l stream)"
    "\<And>l stream. rv_automatic_repair_attempts (repair_record u l stream) \<le>
      max ceiling (rv_automatic_repair_attempts (repair_record t l stream))"
  shows "record_kept ceiling s u"
  using assms at_least_trans unfolding record_kept_def by (metis le_max_iff_disj order_trans)

lemma recovers_keeps: "recovers sha policy ceiling s t \<Longrightarrow> store_ok s \<Longrightarrow> record_kept ceiling s t"
proof (induction rule: recovers.induct)
  case (journal t e)
  then have ok: "store_ok t" by (simp add: record_kept_def)
  show ?case
    using journal_keeps_record [OF ok, of sha policy e]
    by (intro record_kept_step [OF journal.IH [OF journal.prems] journal.keeps_ok [OF ok]]) (auto simp: watermarks_kept_def)
next
  case (state t k budget c)
  then have ok: "store_ok t" by (simp add: record_kept_def)
  show ?case
    using recovery_state_effect [of k budget c t] ok
    by (intro record_kept_step [OF state.IH [OF state.prems]]) (auto simp: advance_watermark_store_ok watermark_monotone)
next
  case (accept t cp now budget c)
  then have ok: "store_ok t" by (simp add: record_kept_def)
  show ?case
    using accept_checkpoint_effect [of cp now budget c t] ok accepted_attempts [of cp now t]
    by (intro record_kept_step [OF accept.IH [OF accept.prems]]) (auto simp: upsert_store_ok upsert_watermark le_max_iff_disj)
next
  case (refuse t w budget c)
  then have ok: "store_ok t" by (simp add: record_kept_def)
  show ?case
    using record_refusal_effect [of w budget c t] ok refused_attempts_le [OF refuse.hyps(2), of t]
    by (intro record_kept_step [OF refuse.IH [OF refuse.prems]]) (auto simp: upsert_store_ok upsert_watermark)
qed (simp add: record_kept_def)

fun within_ceiling :: "nat \<Rightarrow> recovery_event \<Rightarrow> bool" where
  "within_ceiling ceiling (RefuseEvent w _ _) \<longleftrightarrow> rw_max_automatic_attempts w \<le> ceiling"
| "within_ceiling ceiling (JournalEvent _) \<longleftrightarrow> True"
| "within_ceiling ceiling (StateEvent _ _ _) \<longleftrightarrow> True"
| "within_ceiling ceiling (AcceptEvent _ _ _ _) \<longleftrightarrow> True"

lemma fold_recovers:
  "list_all (within_ceiling ceiling) es \<Longrightarrow> recovers sha policy ceiling s t \<Longrightarrow>
    recovers sha policy ceiling s (fold (run_recovery sha policy) es t)"
proof (induction es arbitrary: t)
  case (Cons e es)
  then show ?case by (cases e) (auto intro: recovers.intros)
qed simp

lemma rt_bind_keeps:
  "P (snd (m s)) \<Longrightarrow> (\<And>x t. P t \<Longrightarrow> P (snd (f x t))) \<Longrightarrow> P (snd (rt_bind m f s))"
  by (auto simp: rt_bind_def split: prod.splits sum.splits)

lemma journal_call_snd: "snd (journal_call op s) = snd (op s)"
  by (auto simp: journal_call_def split: prod.splits sum.splits)

lemma assess_recovers:
  assumes "\<And>i. list_all (within_ceiling ceiling) (re_meanwhile env i)" "max_attempts \<le> ceiling"
  shows "recovers sha policy ceiling s (snd (assess sha policy max_attempts env cp deadline now s))"
proof -
  let ?R = "recovers sha policy ceiling s"
  have gate: "?R t \<Longrightarrow> ?R (snd (recovery_gate sha policy env deadline now i stage t))" for i stage t
    by (simp add: recovery_gate_def fold_recovers assms(1))
  have refuse: "?R t \<Longrightarrow> ?R (snd (refuse_assessment sha policy max_attempts env cp deadline now defect t))" for defect t
    unfolding refuse_assessment_def
    by (rule rt_bind_keeps [where P = ?R], erule gate, rule rt_bind_keeps [where P = ?R])
      (simp_all add: journal_call_snd rt_return_def assms(2) recovers.refuse)
  have accept: "?R t \<Longrightarrow> ?R (snd (accept_assessment sha policy env cp deadline now h f t))" for h f t
    unfolding accept_assessment_def
    by (rule rt_bind_keeps [where P = ?R], erule gate, rule rt_bind_keeps [where P = ?R])
      (simp_all add: journal_call_snd rt_return_def recovers.accept)
  have frontier: "?R t \<Longrightarrow> ?R (snd (rt_result r t))" for r :: "recovery_frontier journal_result" and t
    by (simp add: rt_result_def split: sum.splits)
  have start: "?R (snd (rt_result (checkpoint_validate cp) s))"
    by (simp add: rt_result_def recovers.start split: sum.splits)
  have decided: "?R t \<Longrightarrow> ?R (snd ((case d of
      Some defect \<Rightarrow> refuse_assessment sha policy max_attempts env cp deadline now defect
    | None \<Rightarrow> accept_assessment sha policy env cp deadline now h f) t))" for d h f t
    by (cases d) (simp_all add: refuse accept)
  show ?thesis
    unfolding assess_def
    by (rule rt_bind_keeps [where P = ?R], rule start, rule rt_bind_keeps [where P = ?R], erule gate,
        rule rt_bind_keeps [where P = ?R], simp add: journal_call_snd recovers.state,
        rule rt_bind_keeps [where P = ?R], erule gate, rule rt_bind_keeps [where P = ?R], erule frontier, erule decided)
qed

text \<open>C11. Whatever journal operations, recovery calls of other processes and assessments are
  interleaved, the store constraints hold, an assessment does nothing to the journal that its
  port calls could not do, the acknowledged watermark of a target never moves back, and the
  repair counter stays within the highest ceiling in use.\<close>
theorem recovery_interleaving:
  assumes "recovers sha policy ceiling s t" "store_ok s" "max_attempts \<le> ceiling"
    "\<And>i. list_all (within_ceiling ceiling) (re_meanwhile env i)"
    "u = snd (assess sha policy max_attempts env cp deadline now t)"
  shows "store_ok u \<and> recovers sha policy ceiling s u \<and>
    at_least (acknowledged_through s k) (acknowledged_through u k) \<and>
    repair_attempts u k \<le> max ceiling (repair_attempts s k)"
proof -
  have "recovers sha policy ceiling s u"
    unfolding assms(5) by (rule recovers_trans [OF assess_recovers assms(1)]) (use assms(3,4) in auto)
  with recovers_keeps [OF this assms(2)] show ?thesis unfolding record_kept_def by blast
qed

subsection \<open>What an assessment reads\<close>

lemma recovery_state_reads:
  assumes "recovery_state k budget c s = (Inr h, s')"
  shows "s' = advance_acknowledged_watermark (rk_lane k) (rk_columns k) s"
    "Option.bind h hr_state_schema_version = rv_state_schema_version (repair_record s (rk_lane k) (rk_columns k))"
    "Option.bind h hr_implementation_identity_sha256 =
      rv_implementation_identity_sha256 (repair_record s (rk_lane k) (rk_columns k))"
    "Option.bind h hr_state_generation = rv_state_generation (repair_record s (rk_lane k) (rk_columns k))"
    "Option.bind h hr_replay_position_retained = rv_replay_position_retained (repair_record s (rk_lane k) (rk_columns k))"
    "map_option fst (Option.bind h hr_acknowledged) = acknowledged_through s' k"
proof -
  let ?s = "advance_acknowledged_watermark (rk_lane k) (rk_columns k) s"
  have run: "(case row_of ?s k of None \<Rightarrow> Inr (None, ?s)
      | Some r \<Rightarrow> res_bind (decode_recovery_row r) (\<lambda>h. Inr (Some h, ?s))) = Inr (h, s')"
    using assms by (auto simp: recovery_state_def Let_def split: sum.splits dest!: bounded_transaction_ok)
  then consider "h = None" "row_of ?s k = None" "s' = ?s"
    | r x where "h = Some x" "row_of ?s k = Some r" "decode_recovery_row r = Inr x" "s' = ?s"
    by (auto simp: res_bind_Inr_iff split: option.splits)
  note outcome = this
  have same: "repair_record s (rk_lane k) (rk_columns k) = repair_record ?s (rk_lane k) (rk_columns k)" by simp
  show "s' = ?s" by (cases rule: outcome)
  show "Option.bind h hr_state_schema_version = rv_state_schema_version (repair_record s (rk_lane k) (rk_columns k))"
    "Option.bind h hr_implementation_identity_sha256 =
      rv_implementation_identity_sha256 (repair_record s (rk_lane k) (rk_columns k))"
    "Option.bind h hr_state_generation = rv_state_generation (repair_record s (rk_lane k) (rk_columns k))"
    "Option.bind h hr_replay_position_retained = rv_replay_position_retained (repair_record s (rk_lane k) (rk_columns k))"
    unfolding same
    by (cases rule: outcome; simp add: repair_record_def repair_part_def fresh_recovery_row_def decode_recovery_row_def
        res_bind_Inr_iff; auto)+
  show "map_option fst (Option.bind h hr_acknowledged) = acknowledged_through s' k"
    by (cases rule: outcome; simp add: watermark_def decode_recovery_row_def res_bind_Inr_iff)
      (auto split: option.splits)
qed

definition frontier_of :: "recovery_target \<Rightarrow> journal_store \<Rightarrow> recovery_frontier" where
  "frontier_of k s = (let all = map (j_sequence \<circ> snd) (target_rows k s);
      open = map (j_sequence \<circ> snd) (filter (\<lambda>(d, j). d_state d \<in> set DELIVERABLE_STATES) (target_rows k s))
    in \<lparr>uf_unacknowledged_items = length open,
      uf_first_unacknowledged_sequence = (if open = [] then None else Some (Min (set open))),
      uf_last_journalled_sequence = (if all = [] then None else Some (Max (set all)))\<rparr>)"

lemma frontier_reads: "unacknowledged_frontier k budget c s = Inr f \<Longrightarrow> f = frontier_of k s"
  by (auto simp: unacknowledged_frontier_def frontier_of_def Let_def res_bind_Inr_iff dest!: bounded_connection_ok)

lemma joined_same: "st_journal s' = st_journal s \<Longrightarrow> st_delivery s' = st_delivery s \<Longrightarrow> joined s' = joined s"
  by (simp add: joined_def find_journal_key_def)

lemma upsert_tables: "st_journal (upsert_recovery k new update s) = st_journal s"
  "st_delivery (upsert_recovery k new update s) = st_delivery s"
  by (simp_all add: upsert_recovery_def)

lemma frontier_same:
  "frontier_of k (advance_acknowledged_watermark l stream s) = frontier_of k s"
  "frontier_of k (upsert_recovery k' new update s) = frontier_of k s"
  by (simp_all add: frontier_of_def target_rows_def advance_watermark_frame upsert_tables
      joined_same [of "advance_acknowledged_watermark l stream s" s] joined_same [of "upsert_recovery k' new update s" s])

lemma first_some_None: "first_some xs = None \<longleftrightarrow> (\<forall>x\<in>set xs. x = None)"
  by (induction xs rule: first_some.induct) auto

text \<open>When no defect is found: each recorded fact, if there is one, agrees with the checkpoint.\<close>
lemma detect_None:
  "detect_incompatibility h cp f = None \<longleftrightarrow> cp_replay_position cp \<noteq> Unreadable \<and>
    Option.bind h hr_state_schema_version \<in> {None, Some (cp_state_schema_version cp)} \<and>
    Option.bind h hr_implementation_identity_sha256 \<in> {None, Some (cp_implementation_identity_sha256 cp)} \<and>
    at_least (Option.bind h hr_state_generation) (Some (cp_state_generation cp)) \<and>
    (Option.bind h hr_replay_position_retained = Some True \<longrightarrow> retains_position (cp_replay_position cp)) \<and>
    (retains_position (cp_replay_position cp) \<longrightarrow>
      at_least (map_option fst (Option.bind h hr_acknowledged)) (reported (cp_replay_position cp))) \<and>
    at_least (reported (cp_replay_position cp)) (uf_last_journalled_sequence f)"
  by (cases h)
    (auto simp: detect_incompatibility_def first_some_None recorded_defects_def at_least_def not_less
      split: option.splits if_splits)

lemma frontier_last: "at_least (Some n) (uf_last_journalled_sequence (frontier_of k s)) \<longleftrightarrow>
    (\<exists>(d, j)\<in>set (target_rows k s). n \<le> j_sequence j)"
proof (cases "target_rows k s = []")
  case False
  then have "n \<le> Max (set (map (j_sequence \<circ> snd) (target_rows k s))) \<longleftrightarrow>
      (\<exists>x\<in>set (map (j_sequence \<circ> snd) (target_rows k s)). n \<le> x)"
    by (intro Max_ge_iff) auto
  with False show ?thesis by (auto simp: frontier_of_def Let_def at_least_def case_prod_unfold)
qed (simp add: frontier_of_def at_least_def)

lemma frontier_first: "uf_first_unacknowledged_sequence (frontier_of k s) = None \<longleftrightarrow>
    (\<forall>(d, j)\<in>set (target_rows k s). d_state d \<notin> set DELIVERABLE_STATES)"
  by (auto simp: frontier_of_def Let_def filter_empty_conv)

subsection \<open>The branches of an assessment\<close>

definition undisturbed :: "recovery_env \<Rightarrow> bool" where
  "undisturbed env \<longleftrightarrow> (\<forall>i. re_meanwhile env i = [])"

fun caller_stopped :: "runtime_error \<Rightarrow> bool" where
  "caller_stopped (RecoveryCancelled _) = True"
| "caller_stopped (RecoveryDeadlineExceeded _) = True"
| "caller_stopped _ = False"

lemma undisturbed_gate:
  "undisturbed env \<Longrightarrow>
    recovery_gate sha policy env deadline now i stage s = (check_control (re_cancelled env i) deadline now stage, s)"
  by (simp add: recovery_gate_def undisturbed_def)

lemma rt_bind_cases:
  assumes "rt_bind m f s = (res, s')"
  obtains (fail) e where "m s = (Inl e, s')" "res = Inl e" | (pass) x t where "m s = (Inr x, t)" "f x t = (res, s')"
  using assms by (auto simp: rt_bind_def split: prod.splits sum.splits)

lemma journal_call_cases:
  "journal_call op s = (Inl e, t) \<Longrightarrow> snd (op s) = t \<and> \<not> caller_stopped e"
  "journal_call op s = (Inr x, t) \<Longrightarrow> op s = (Inr x, t)"
  by (auto simp: journal_call_def split: prod.splits sum.splits)

abbreviation refusal_of :: "sha \<Rightarrow> nat \<Rightarrow> provider_checkpoint \<Rightarrow> micros \<Rightarrow> state_incompatibility \<Rightarrow> recovery_refusal_write" where
  "refusal_of sha max_attempts cp now defect \<equiv> \<lparr>rw_target = cp_target cp, rw_assessment = for_checkpoint sha cp,
    rw_defect = incompatibility_as_wire defect, rw_max_automatic_attempts = max_attempts, rw_now = now\<rparr>"

lemma record_refusal_ok:
  assumes "record_recovery_refusal w budget c s = (Inr n, s')"
  shows "s' = refused w s" "repair_attempts s' (rw_target w) = n" "0 < rw_max_automatic_attempts w"
proof -
  obtain r where r: "row_of (refused w s) (rw_target w) = Some r" "rv_automatic_repair_attempts r = n" "s' = refused w s"
    using assms
    by (auto simp: record_recovery_refusal_def Let_def res_bind_Inr_iff read_u32_def
        split: sum.splits option.splits if_splits dest!: bounded_transaction_ok)
  then show "s' = refused w s" "repair_attempts s' (rw_target w) = n" by (simp_all add: repair_attempts_row)
  show "0 < rw_max_automatic_attempts w"
    using assms by (auto simp: record_recovery_refusal_def Let_def first_error_ok split: sum.splits if_splits)
qed

lemma refuse_assessment_cases:
  assumes "undisturbed env" "refuse_assessment sha policy n env cp deadline now defect s = (res, s')"
  obtains (fail) e where "res = Inl e" "s' \<in> {s, refused (refusal_of sha n cp now defect) s}" "caller_stopped e \<Longrightarrow> s' = s"
  | (plan) plan where "res = Inr plan" "s' = refused (refusal_of sha n cp now defect) s" "0 < n"
      "plan = (if n \<le> repair_attempts s' (cp_target cp)
        then OperatorRepairRequired defect (repair_action_of defect) (repair_attempts s' (cp_target cp)) n
        else StateIncompatible defect (repair_action_of defect) (n - repair_attempts s' (cp_target cp)))"
  using assms(2) unfolding refuse_assessment_def
proof (cases rule: rt_bind_cases)
  case (fail e)
  with assms(1) show thesis by (intro that(1)) (auto simp: undisturbed_gate)
next
  case (pass x t)
  then have t: "t = s" using assms(1) by (simp add: undisturbed_gate)
  from pass(2) show thesis
  proof (cases rule: rt_bind_cases)
    case (fail e)
    then show thesis
      using journal_call_cases(1) [OF fail(1)] record_refusal_effect [of "refusal_of sha n cp now defect" _ _ s] t
      by (intro that(1)) auto
  next
    case (pass attempts u)
    note written = record_refusal_ok [OF journal_call_cases(2) [OF pass(1)]]
    show thesis using written pass(2) t by (intro that(2)) (auto simp: rt_return_def)
  qed
qed

lemma accept_assessment_cases:
  assumes "undisturbed env" "accept_assessment sha policy env cp deadline now h f s = (res, s')"
  obtains (fail) e where "res = Inl e" "s' \<in> {s, accepted cp now s}" "caller_stopped e \<Longrightarrow> s' = s"
  | (plan) plan where "res = Inr plan" "s' = accepted cp now s" "permits_delivery plan"
      "expected_state_generation plan = Some (cp_state_generation cp)"
      "(\<exists>w g. plan = Converged w g) \<longleftrightarrow> uf_first_unacknowledged_sequence f = None \<or> uf_last_journalled_sequence f = None"
  using assms(2) unfolding accept_assessment_def
proof (cases rule: rt_bind_cases)
  case (fail e)
  with assms(1) show thesis by (intro that(1)) (auto simp: undisturbed_gate)
next
  case (pass x t)
  then have t: "t = s" using assms(1) by (simp add: undisturbed_gate)
  from pass(2) show thesis
  proof (cases rule: rt_bind_cases)
    case (fail e)
    then show thesis
      using journal_call_cases(1) [OF fail(1)] accept_checkpoint_effect [of cp now _ _ s] t by (intro that(1)) auto
  next
    case (pass u v)
    have "v = accepted cp now s"
      using journal_call_cases(2) [OF pass(1)] t
      by (auto simp: accept_checkpoint_def Let_def split: sum.splits dest!: bounded_transaction_ok)
    moreover obtain plan where "res = Inr plan" "s' = v" using pass(2) by (auto simp: rt_return_def)
    ultimately show thesis using pass(2) by (intro that(2) [of plan]) (auto simp: rt_return_def split: option.splits)
  qed
qed

lemma assess_cases:
  assumes "undisturbed env" "assess sha policy n env cp deadline now s = (res, s')"
  defines "s1 \<equiv> advance_acknowledged_watermark (rk_lane (cp_target cp)) (rk_columns (cp_target cp)) s"
  obtains (fail) e where "res = Inl e" "s' \<in> {s, s1}"
  | (refuse) h budget c defect where "recovery_state (cp_target cp) budget c s = (Inr h, s1)"
      "detect_incompatibility h cp (frontier_of (cp_target cp) s) = Some defect"
      "refuse_assessment sha policy n env cp deadline now defect s1 = (res, s')"
  | (accept) h budget c where "recovery_state (cp_target cp) budget c s = (Inr h, s1)"
      "detect_incompatibility h cp (frontier_of (cp_target cp) s) = None"
      "accept_assessment sha policy env cp deadline now h (frontier_of (cp_target cp) s) s1 = (res, s')"
  using assms(2) unfolding assess_def
proof (cases rule: rt_bind_cases)
  case (fail e)
  then show thesis by (intro that(1)) (auto simp: rt_result_def split: sum.splits)
next
  case (pass x t)
  then have t: "t = s" by (auto simp: rt_result_def split: sum.splits)
  from pass(2) show thesis
  proof (cases rule: rt_bind_cases)
    case (fail e)
    with assms(1) t show thesis by (intro that(1)) (auto simp: undisturbed_gate)
  next
    case (pass x' t')
    then have t': "t' = s" using assms(1) t by (simp add: undisturbed_gate)
    from pass(2) show thesis
    proof (cases rule: rt_bind_cases)
      case (fail e)
      then show thesis
        using journal_call_cases(1) [OF fail(1)] recovery_state_effect [of "cp_target cp" _ _ s] t'
        by (intro that(1)) (auto simp: s1_def)
    next
      case (pass h u)
      note run = journal_call_cases(2) [OF pass(1), unfolded t']
      have u: "u = s1" using recovery_state_reads(1) [OF run] by (simp add: s1_def)
      let ?f = "frontier_of (cp_target cp) s"
      have "(\<exists>e. res = Inl e) \<and> s' = s1 \<or>
          (case detect_incompatibility h cp ?f of
            Some defect \<Rightarrow> refuse_assessment sha policy n env cp deadline now defect
          | None \<Rightarrow> accept_assessment sha policy env cp deadline now h ?f) s1 = (res, s')"
        using pass(2) unfolding u
        by (auto elim!: rt_bind_cases simp: undisturbed_gate [OF assms(1)] rt_result_def s1_def frontier_same
            dest!: frontier_reads split: sum.splits cong: option.case_cong)
      with run show thesis
        unfolding u by (cases "detect_incompatibility h cp ?f") (auto dest: that(1) that(2) that(3))
    qed
  qed
qed

subsection \<open>Coherence, retries and stops\<close>

abbreviation repair_of :: "journal_store \<Rightarrow> recovery_target \<Rightarrow> recovery_row" where
  "repair_of s k \<equiv> repair_record s (rk_lane k) (rk_columns k)"

lemma accepted_record:
  "rv_state_schema_version (repair_of (accepted cp now s) (cp_target cp)) = Some (cp_state_schema_version cp)"
  "rv_implementation_identity_sha256 (repair_of (accepted cp now s) (cp_target cp)) = Some (cp_implementation_identity_sha256 cp)"
  "rv_state_generation (repair_of (accepted cp now s) (cp_target cp)) = Some (cp_state_generation cp)"
  "repair_attempts (accepted cp now s) (cp_target cp) = 0"
  by (simp_all add: repair_record_def repair_part_def upsert_row_at) (simp_all add: accept_row_def split: option.splits)

lemma refused_record:
  "rv_state_schema_version (repair_of (refused w s) k) = rv_state_schema_version (repair_of s k)"
  "rv_implementation_identity_sha256 (repair_of (refused w s) k) = rv_implementation_identity_sha256 (repair_of s k)"
  "rv_state_generation (repair_of (refused w s) k) = rv_state_generation (repair_of s k)"
  "rv_replay_position_retained (repair_of (refused w s) k) = rv_replay_position_retained (repair_of s k)"
  "rv_last_assessment_id (repair_of (refused w s) (rw_target w)) = Some (rw_assessment w)"
  by (simp_all add: repair_record_def repair_part_def upsert_row_at)
    (simp_all add: refuse_row_def fresh_recovery_row_def split: option.splits)


fun escalated :: "recovery_plan \<Rightarrow> bool" where
  "escalated (OperatorRepairRequired _ _ _ _) = True"
| "escalated (Converged _ _) = False"
| "escalated (ReplayUnacknowledged _ _ _ _) = False"
| "escalated (StateIncompatible _ _ _) = False"

text \<open>A defect found once is found again after the refusal was recorded: the accepted state is as it
  was, the journal is as it was, and the watermark has not moved back.\<close>
lemma defect_persists:
  assumes "recovery_state k budget c s = (Inr h, s1)" "detect_incompatibility h cp (frontier_of k s) = Some defect"
    "recovery_state k budget' c' (refused w s1) = (Inr h', s2)" "k = cp_target cp"
  shows "detect_incompatibility h' cp (frontier_of k (refused w s1)) \<noteq> None"
proof
  assume none: "detect_incompatibility h' cp (frontier_of k (refused w s1)) = None"
  note read = recovery_state_reads [OF assms(1)] and read' = recovery_state_reads [OF assms(3)]
  let ?r = "cp_replay_position cp"
  have mono: "at_least (acknowledged_through s1 k) (acknowledged_through s2 k)"
    using watermark_monotone [of "refused w s1" "rk_lane k" "rk_columns k"] unfolding read'(1) by (simp add: upsert_watermark)
  have same: "repair_of s1 k = repair_of s k" "frontier_of k (refused w s1) = frontier_of k s"
    by (simp_all add: frontier_same read(1))
  note agree = none [unfolded detect_None read'(2-6) refused_record same]
  then have "retains_position ?r \<longrightarrow> at_least (acknowledged_through s1 k) (reported ?r)" using mono at_least_trans by blast
  with agree have "detect_incompatibility h cp (frontier_of k s) = None" unfolding detect_None read(2-6) by blast
  with assms(2) show False by simp
qed

lemma refused_again:
  "rv_last_assessment_id (repair_of s (rw_target w)) = Some (rw_assessment w) \<Longrightarrow>
    repair_attempts (refused w s) (rw_target w) = repair_attempts s (rw_target w)"
  by (cases "row_of s (rw_target w)"; simp add: repair_record_def upsert_row_at)
    (simp_all add: repair_part_def refused_attempts_def fresh_recovery_row_def)

lemma refused_once: "repair_attempts (refused w s) (rw_target w) \<le> repair_attempts s (rw_target w) + 1"
  by (auto simp: repair_attempts_row upsert_row_at refused_attempts_def split: option.splits)

text \<open>C17. An assessment that is submitted again spends one attempt in all.  A refused assessment
  raises the counter by at most one; submitting the same checkpoint again, after whatever the
  first answer was lost to, is refused again, leaves the counter where it is, whether it returns
  a plan or fails, and asks for an operator exactly when the first did.\<close>
theorem assessment_retry_spends_once:
  assumes "undisturbed env" "assess sha policy n env cp deadline now s = (Inr plan, s')" "\<not> permits_delivery plan"
    "undisturbed env'" "assess sha policy n env' cp deadline' now' s' = (res, s'')" "k = cp_target cp"
  shows "repair_attempts s' k \<le> repair_attempts s k + 1 \<and> repair_attempts s'' k = repair_attempts s' k \<and>
    (\<forall>plan'. res = Inr plan' \<longrightarrow> \<not> permits_delivery plan' \<and> (escalated plan' \<longleftrightarrow> escalated plan))"
  using assms(1,2)
proof (cases rule: assess_cases)
  case (accept h budget c)
  then show ?thesis using assms(3) by (cases rule: accept_assessment_cases [OF assms(1)]) auto
next
  case (refuse h budget c defect)
  let ?s1 = "advance_acknowledged_watermark (rk_lane k) (rk_columns k) s" and ?w = "refusal_of sha n cp now defect"
  let ?s2 = "advance_acknowledged_watermark (rk_lane k) (rk_columns k) s'"
  from assms(1) refuse(3) have s': "s' = refused ?w ?s1 \<and> (escalated plan \<longleftrightarrow> n \<le> repair_attempts s' k)"
  proof (cases rule: refuse_assessment_cases)
    case (plan p)
    then show ?thesis by (simp add: assms(6))
  qed simp
  have first: "repair_attempts s' k \<le> repair_attempts s k + 1"
    using refused_once [of ?w ?s1] by (simp add: conjunct1 [OF s'] assms(6))
  have id: "rv_last_assessment_id (repair_of ?s2 k) = Some (for_checkpoint sha cp)"
    using refused_record(5) [of ?w ?s1] by (simp add: conjunct1 [OF s'] assms(6))
  have again: "repair_attempts (refused (refusal_of sha n cp now' d) ?s2) k = repair_attempts s' k" for d
    using refused_again [of ?s2 "refusal_of sha n cp now' d"] id by (simp add: assms(6))
  from assms(4,5) have "repair_attempts s'' k = repair_attempts s' k \<and>
    (\<forall>plan'. res = Inr plan' \<longrightarrow> \<not> permits_delivery plan' \<and> (escalated plan' \<longleftrightarrow> n \<le> repair_attempts s' k))"
  proof (cases rule: assess_cases)
    case (refuse h' budget' c' defect')
    from assms(4) refuse(3) show ?thesis
    proof (cases rule: refuse_assessment_cases)
      case (fail e)
      then show ?thesis using again [of defect'] by (auto simp: assms(6))
    next
      case (plan p)
      then show ?thesis using again [of defect'] by (simp add: assms(6))
    qed
  next
    case (accept h' budget' c')
    with defect_persists [of k budget c s h ?s1 cp defect budget' c' ?w h'] refuse(1,2) conjunct1 [OF s'] show ?thesis
      by (simp add: assms(6))
  qed (auto simp: assms(6))
  with first s' show ?thesis by simp
qed simp


subsection \<open>Two behaviours worth knowing\<close>

text \<open>Once retention has deleted the rows of a target, a provider that reports a position is refused
  as ahead of the journal whatever it reports, also at the acknowledged watermark itself.\<close>
lemma swept_target_refused:
  assumes "undisturbed env" "assess sha policy n env cp deadline now s = (Inr plan, s')"
    "target_rows (cp_target cp) s = []" "reported (cp_replay_position cp) = Some m"
  shows "\<not> permits_delivery plan"
  using assms(1,2)
proof (cases rule: assess_cases)
  case (refuse h budget c defect)
  then show ?thesis by (cases rule: refuse_assessment_cases [OF assms(1)]) (auto split: if_splits)
next
  case (accept h budget c)
  have "uf_last_journalled_sequence (frontier_of (cp_target cp) s) = None" by (simp add: frontier_of_def assms(3))
  with accept(2) assms(4) show ?thesis by (simp add: detect_None at_least_def)
qed simp

text \<open>The record remembers only the latest assessment, so two checkpoints that alternate spend an
  attempt each time.\<close>
lemma alternating_assessments_spend:
  assumes "rw_target v = rw_target w" "rw_assessment v \<noteq> rw_assessment w" "rw_max_automatic_attempts v = rw_max_automatic_attempts w"
    "repair_attempts s (rw_target w) + 3 \<le> rw_max_automatic_attempts w"
    "rv_last_assessment_id (repair_of s (rw_target w)) \<noteq> Some (rw_assessment w)"
  shows "repair_attempts (refused w (refused v (refused w s))) (rw_target w) = repair_attempts s (rw_target w) + 3"
proof -
  have spend: "repair_attempts (refused x t) (rw_target x) = repair_attempts t (rw_target x) + 1"
    if "repair_attempts t (rw_target x) < rw_max_automatic_attempts x"
      "rv_last_assessment_id (repair_of t (rw_target x)) \<noteq> Some (rw_assessment x)" for x t
    using that by (cases "row_of t (rw_target x)"; simp add: repair_record_def upsert_row_at)
      (simp_all add: repair_part_def refused_attempts_def fresh_recovery_row_def)
  have one: "repair_attempts (refused w s) (rw_target w) = repair_attempts s (rw_target w) + 1"
    by (rule spend) (use assms in auto)
  have two: "repair_attempts (refused v (refused w s)) (rw_target v) = repair_attempts (refused w s) (rw_target v) + 1"
    by (rule spend) (use assms one refused_record(5) [of w s] in auto)
  have "repair_attempts (refused w (refused v (refused w s))) (rw_target w) =
      repair_attempts (refused v (refused w s)) (rw_target w) + 1"
    by (rule spend) (use assms one two refused_record(5) [of v "refused w s"] in auto)
  with one two assms(1) show ?thesis by simp
qed

subsection \<open>Example runs\<close>

definition sample_target :: recovery_target where
  "sample_target = \<lparr>rk_provider_id = ''provider'', rk_registration_revision = 1, rk_stream =
    \<lparr>sk_source_authority = HostSession, sk_exact_scope_sha256 = sample_digest, sk_source_stream = ''stream''\<rparr>\<rparr>"

definition sample_checkpoint :: "replay_position \<Rightarrow> provider_checkpoint" where
  "sample_checkpoint p = \<lparr>cp_target = sample_target, cp_implementation_identity_sha256 = sample_digest,
    cp_state_schema_version = ''schema.v1'', cp_state_generation = 3, cp_replay_position = p\<rparr>"

definition sample_call :: bounded_call where
  "sample_call = \<lparr>bc_polls = [], bc_elapsed = 1, bc_cap = Inr (), bc_begin = Inr (), bc_commit = Inr (), bc_restore = Inr ()\<rparr>"

definition sample_recovery :: "(nat \<Rightarrow> bool) \<Rightarrow> recovery_env" where
  "sample_recovery cancelled = \<lparr>re_cancelled = cancelled, re_call = (\<lambda>_. sample_call), re_meanwhile = (\<lambda>_. [])\<rparr>"

lemma sample_undisturbed [simp]: "undisturbed (sample_recovery cancelled)"
  by (simp add: undisturbed_def sample_recovery_def)

lemma sample_checkpoint_facts [simp]:
  "checkpoint_validate (sample_checkpoint p) = Inr ()" "recovery_target_validate sample_target = Inr ()"
  "cp_target (sample_checkpoint p) = sample_target" "cp_replay_position (sample_checkpoint p) = p"
  "cp_state_generation (sample_checkpoint p) = 3"
  by (simp_all add: checkpoint_validate_def recovery_target_validate_def sample_checkpoint_def sample_target_def
      require_bounded_def require_non_empty_def require_sha256_def stream_key_validate_def SOURCE_EVENT_ID_MAX_BYTES_def
      STATE_SCHEMA_VERSION_MAX_BYTES_def)

lemma sample_transaction [simp]:
  "with_bounded_transaction operation 90 sample_call f s = (case f s of Inl e \<Rightarrow>
    (Inl (if is_busy e then BudgetExhausted operation else e), s) | Inr (x, s') \<Rightarrow> (Inr x, s'))"
  "with_bounded_connection operation 90 sample_call g s = (case g s of Inl e \<Rightarrow>
    Inl (if is_busy e then BudgetExhausted operation else e) | Inr x \<Rightarrow> Inr x)"
  by (auto simp: with_bounded_transaction_def with_bounded_connection_def sample_call_def lock_within_def lock_within_cancellable_def is_spent_def
      busy_cap_def with_busy_budget_def sat_sub_i64_def i64_max_def i64_min_def split: sum.splits)

lemma sample_remaining [simp]: "recovery_remaining 100 10 = 90" "\<not> is_spent 90"
  by (simp_all add: recovery_remaining_def is_spent_def sat_sub_i64_def i64_max_def i64_min_def)

lemmas recovery_run = assess_def accept_assessment_def refuse_assessment_def rt_bind_def rt_result_def rt_return_def
  journal_call_def recovery_gate_def check_control_def

lemma sample_store_recovery:
  "advance_acknowledged_watermark l stream sample_store = sample_store" "recovery_row_at sample_store l stream = None"
  "frontier_of sample_target sample_store =
    \<lparr>uf_unacknowledged_items = 1, uf_first_unacknowledged_sequence = Some 1, uf_last_journalled_sequence = Some 1\<rparr>"
proof -
  have "acknowledged_at sample_store obs = None" for obs by (simp add: acknowledged_at_def sample_store_rows)
  then have "acknowledged_suffix sample_store l stream = []" by (simp add: acknowledged_suffix_def takeWhile_eq_Nil_iff)
  then show "advance_acknowledged_watermark l stream sample_store = sample_store" by (simp add: advance_acknowledged_watermark_def)
  show "recovery_row_at sample_store l stream = None" by (simp add: recovery_row_at_def sample_store_rows)
  have "target_rows sample_target sample_store = [(delivery_row_of zero_sha (sample_admitted 1 ''a'') 1, journal_row_of zero_sha (sample_admitted 1 ''a''))]"
    by (simp add: target_rows_def joined_def find_journal_key_def sample_store_rows delivery_row_of_def journal_row_of_def
        d_lane_def j_stream_def Let_def sample_admitted_def sample_target_def stream_columns_of_def sample_source_def
        exact_scope_sha256_def)
  then show "frontier_of sample_target sample_store =
    \<lparr>uf_unacknowledged_items = 1, uf_first_unacknowledged_sequence = Some 1, uf_last_journalled_sequence = Some 1\<rparr>"
    by (simp add: frontier_of_def Let_def DELIVERABLE_STATES_def delivery_row_of_def journal_row_of_def j_sequence_def sample_admitted_def
        sample_source_def)
qed

lemma sample_sql [simp]: "sql_i64 (rk_registration_revision sample_target) f = Inr 1" "sql_i64 3 f = Inr 3"
  by (simp_all add: sample_target_def sql_i64_def i64_max_def)

lemma sample_frontier [simp]: "unacknowledged_frontier sample_target 90 sample_call s = Inr (frontier_of sample_target s)"
  by (simp add: unacknowledged_frontier_def frontier_of_def)

lemma sample_state:
  "recovery_row_at (advance_acknowledged_watermark (rk_lane sample_target) (rk_columns sample_target) s)
      (rk_lane sample_target) (rk_columns sample_target) = None \<Longrightarrow>
    recovery_state sample_target 90 sample_call s =
      (Inr None, advance_acknowledged_watermark (rk_lane sample_target) (rk_columns sample_target) s)"
  by (simp add: recovery_state_def)

lemma sample_accept [simp]:
  "accept_checkpoint (sample_checkpoint p) now 90 sample_call s = (Inr (), accepted (sample_checkpoint p) now s)"
  by (simp add: accept_checkpoint_def)

lemma sample_refuse [simp]:
  assumes "rw_target w = sample_target" "rw_max_automatic_attempts w = 2" "row_of s sample_target = None"
  shows "record_recovery_refusal w 90 sample_call s = (Inr 1, refused w s)"
  using refuse_keeps [of sample_target w] assms
  by (simp add: record_recovery_refusal_def Let_def upsert_row_at read_u32_def u32_max_def)

lemma sample_accepted_run:
  "assess zero_sha sample_policy 2 (sample_recovery (\<lambda>_. False)) (sample_checkpoint (Reported 1)) 100 10 sample_store =
    (Inr (ReplayUnacknowledged 1 1 1 3), accepted (sample_checkpoint (Reported 1)) 10 sample_store)"
proof -
  have "detect_incompatibility None (sample_checkpoint (Reported 1)) (frontier_of sample_target sample_store) = None"
    by (simp add: detect_None sample_store_recovery at_least_def)
  then show ?thesis by (simp add: recovery_run sample_recovery_def sample_state sample_store_recovery)
qed

lemma sample_refused_run:
  "assess zero_sha sample_policy 2 (sample_recovery (\<lambda>_. False)) (sample_checkpoint Unreadable) 100 10 sample_store =
    (Inr (StateIncompatible ReplayPositionUnreadable OperatorInvestigation 1),
     refused (refusal_of zero_sha 2 (sample_checkpoint Unreadable) 10 ReplayPositionUnreadable) sample_store)"
proof -
  have "detect_incompatibility None (sample_checkpoint Unreadable) (frontier_of sample_target sample_store) =
      Some ReplayPositionUnreadable"
    by (simp add: detect_incompatibility_def)
  then show ?thesis by (simp add: recovery_run sample_recovery_def sample_state sample_store_recovery)
qed

lemma sample_stopped_run:
  "assess zero_sha sample_policy 2 (sample_recovery (\<lambda>i. i = 1)) (sample_checkpoint Unreadable) 100 10 sample_store =
    (Inl (RecoveryCancelled ''frontier read''), sample_store)"
  by (simp add: recovery_run sample_recovery_def sample_state sample_store_recovery)

theorem recovery_interleaving_witness:
  "store_ok (accepted (sample_checkpoint (Reported 1)) 10 sample_store) \<and>
    repair_attempts (accepted (sample_checkpoint (Reported 1)) 10 sample_store) sample_target \<le> 2"
proof -
  have "list_all (within_ceiling 2) (re_meanwhile (sample_recovery (\<lambda>_. False)) i)" for i
    by (simp add: sample_recovery_def)
  from recovery_interleaving [OF recovers.start sample_store_rows(1) order_refl this
      sample_accepted_run [THEN arg_cong [where f = snd], symmetric, simplified], where k = sample_target]
  show ?thesis by (simp add: repair_attempts_row sample_store_recovery)
qed


theorem assessment_retry_spends_once_witness:
  "repair_attempts (snd (assess zero_sha sample_policy 2 (sample_recovery (\<lambda>_. False)) (sample_checkpoint Unreadable) 100 20
      (refused (refusal_of zero_sha 2 (sample_checkpoint Unreadable) 10 ReplayPositionUnreadable) sample_store))) sample_target = 1"
proof -
  let ?s = "refused (refusal_of zero_sha 2 (sample_checkpoint Unreadable) 10 ReplayPositionUnreadable) sample_store"
  have "repair_attempts ?s sample_target = 1" by (simp add: repair_attempts_row upsert_row_at sample_store_recovery)
  then show ?thesis
    using assessment_retry_spends_once [OF sample_undisturbed sample_refused_run _ sample_undisturbed prod.collapse [symmetric],
        where k = sample_target] by simp
qed


end
