(* ===== verification/Source_Evidence.thy ===== *)
theory Source_Evidence
  imports Source_Delivery Recovery_Properties
begin

text \<open>
  What delivery evidence proves.  The answers are in request order, an answer about a source is
  about the row at exactly that position and event, what is returned of its content validates and
  is the stored content, and an acknowledged state never comes without the stored receipt of the
  attempt that acknowledged it.
\<close>

text \<open>The receipt that backs an acknowledged state.\<close>
definition acknowledgement_backed :: "journal_store \<Rightarrow> journal_row \<Rightarrow> delivery_row \<Rightarrow> delivery_receipt \<Rightarrow> bool" where
  "acknowledgement_backed s j d r \<longleftrightarrow> r \<in> set (st_receipts s) \<and> dr_observation_id r = j_observation_id j \<and>
    dr_idempotency_key r = j_idempotency_key j \<and> dr_payload_sha256 r = j_payload_sha256 j \<and>
    dr_attempt_number r = d_attempt_number d \<and> implied_state (dr_outcome r) = d_state d"

definition at_source :: "lane \<Rightarrow> stream_key \<Rightarrow> expected_source \<Rightarrow> journal_row \<Rightarrow> bool" where
  "at_source l stream x j \<longleftrightarrow> j_lane j = l \<and> j_stream j = stream_columns_of stream \<and> j_sequence j = xs_source_sequence x"

fun evidence_holds ::
  "sha \<Rightarrow> journal_store \<Rightarrow> lane \<Rightarrow> exact_scope \<Rightarrow> stream_key \<Rightarrow> expected_source \<Rightarrow> source_evidence \<Rightarrow> bool" where
  "evidence_holds sha s l scope stream x Missing \<longleftrightarrow> (\<forall>j\<in>set (st_journal s). \<not> at_source l stream x j)"
| "evidence_holds sha s l scope stream x (Retained a st receipt) \<longleftrightarrow>
    (\<exists>j\<in>set (st_journal s). \<exists>d\<in>set (st_delivery s). at_source l stream x j \<and> source_row_matches l scope stream x j d \<and>
      d_idempotency_key d = j_idempotency_key j \<and> d_state d = st \<and>
      admitted_validate sha a = Inr () \<and> ao_source a = j_source j \<and> ao_exact_scope a = scope \<and>
      ao_idempotency_key a = j_idempotency_key j \<and> j_payload_bytes j = Some (payload_bytes (ao_payload a)) \<and>
      (is_acknowledged st \<longrightarrow> (\<exists>r. receipt = Some r \<and> acknowledgement_backed s j d r)))"
| "evidence_holds sha s l scope stream x (Purged st) \<longleftrightarrow>
    (\<exists>j\<in>set (st_journal s). \<exists>d\<in>set (st_delivery s). at_source l stream x j \<and> source_row_matches l scope stream x j d \<and>
      d_idempotency_key d = j_idempotency_key j \<and> d_state d = st \<and> j_payload_bytes j = None \<and>
      (is_acknowledged st \<longrightarrow> (\<exists>r. acknowledgement_backed s j d r)))"

lemma decode_admitted_content:
  assumes "decode_admitted sha j d = Inr a"
  shows "admitted_validate sha a = Inr ()" "ao_source a = j_source j" "j_payload_bytes j = Some (payload_bytes (ao_payload a))"
proof -
  obtain l where l: "decode_leased sha j d (pt_provider_instance_id (j_target j)) ''admission-read'' 0 1 = Inr l"
    "ao_payload a = lo_payload l" "ao_source a = j_source j" "admitted_validate sha a = Inr ()"
    using assms by (auto simp: decode_admitted_def Let_def res_bind_Inr_iff)
  then show "admitted_validate sha a = Inr ()" "ao_source a = j_source j" by simp_all
  show "j_payload_bytes j = Some (payload_bytes (ao_payload a))"
    using l(1,2) by (auto simp: decode_leased_def Let_def res_bind_Inr_iff split: option.splits)
qed

lemma read_matching_receipt_backs:
  assumes "read_matching_receipt sha s receipt_id j d attempt = Inr r" "is_acknowledged (d_state d)" "attempt = d_attempt_number d"
  shows "acknowledgement_backed s j d r"
proof -
  obtain row where row: "find (\<lambda>r. dr_receipt_id r = receipt_id) (st_receipts s) = Some row"
    "decode_receipt sha row = Inr r" "receipt_answers receipt_id j d attempt r"
    using assms(1) by (auto simp: read_matching_receipt_def res_bind_Inr_iff split: option.splits if_splits)
  have "r = row" using row(2) by (auto simp: decode_receipt_def res_bind_Inr_iff validated_def split: if_splits)
  with row find_Some_mem [OF row(1)] assms(2,3) show ?thesis
    by (auto simp: acknowledgement_backed_def receipt_answers_def)
qed

lemma last_receipt_backs:
  assumes "last_receipt_of sha s j d attempt = Inr receipt" "is_acknowledged (d_state d)" "attempt = d_attempt_number d"
    "receipt \<noteq> None"
  shows "\<exists>r. receipt = Some r \<and> acknowledgement_backed s j d r"
  using assms read_matching_receipt_backs
  by (auto simp: last_receipt_of_def res_bind_Inr_iff split: option.splits if_splits)

lemma decode_source_holds:
  assumes "decode_source_delivery sha s l scope stream x j (Some d) = Inr e" "j \<in> set (st_journal s)" "d \<in> set (st_delivery s)"
    "at_source l stream x j" "d_idempotency_key d = j_idempotency_key j"
  shows "evidence_holds sha s l scope stream x e"
proof -
  obtain receipt where read: "source_row_matches l scope stream x j d"
    "last_receipt_of sha s j d (d_attempt_number d) = Inr receipt"
    "is_acknowledged (d_state d) \<longrightarrow> receipt \<noteq> None"
    "e = Purged (d_state d) \<and> j_payload_bytes j = None \<or>
      (\<exists>a. e = Retained a (d_state d) receipt \<and> decode_admitted sha j d = Inr a \<and> ao_exact_scope a = scope \<and>
        ao_idempotency_key a = j_idempotency_key j)"
    using assms(1)
    by (auto simp: decode_source_delivery_def res_bind_Inr_iff read_u32_def parse_digest_def split: if_splits)
  have "is_acknowledged (d_state d) \<longrightarrow> (\<exists>r. receipt = Some r \<and> acknowledgement_backed s j d r)"
    using last_receipt_backs [OF read(2) _ refl] read(3) by blast
  with read(1,4) assms(2-5) show ?thesis using decode_admitted_content by fastforce
qed

lemma read_each_holds:
  "read_each sha env l scope stream budget s i xs = Inr es \<Longrightarrow> list_all2 (evidence_holds sha s l scope stream) xs es"
proof (induction xs arbitrary: i es)
  case (Cons x xs)
  then obtain e rest where e: "(case select_source s l stream (xs_source_sequence x) of None \<Rightarrow> Inr Missing
      | Some j \<Rightarrow> decode_source_delivery sha s l scope stream x j (delivery_of s j)) = Inr e"
    "read_each sha env l scope stream budget s (Suc i) xs = Inr rest" "es = e # rest"
    by (auto simp: res_bind_Inr_iff sql_i64_def split: if_splits)
  have "evidence_holds sha s l scope stream x e"
  proof (cases "select_source s l stream (xs_source_sequence x)")
    case None
    with e(1) have "e = Missing" by simp
    with None show ?thesis by (auto simp: select_source_def find_None_iff at_source_def)
  next
    case (Some j)
    then have j: "j \<in> set (st_journal s)" "at_source l stream x j"
      by (auto simp: select_source_def at_source_def dest: find_Some_mem)
    obtain d where d: "delivery_of s j = Some d" using e(1) Some
      by (cases "delivery_of s j") (auto simp: decode_source_delivery_def res_bind_def split: sum.splits)
    then have "d \<in> set (st_delivery s)" "d_idempotency_key d = j_idempotency_key j"
      by (auto simp: delivery_of_def dest: find_Some_mem)
    with decode_source_holds j e(1) Some d show ?thesis by simp
  qed
  with Cons.IH e show ?case by simp
qed simp

lemma check_sources_distinct:
  "check_sources ss es xs = Inr () \<Longrightarrow> distinct (map xs_source_sequence xs) \<and> distinct (map xs_source_event_id xs) \<and>
    ss \<inter> set (map xs_source_sequence xs) = {} \<and> es \<inter> set (map xs_source_event_id xs) = {}"
  by (induction ss es xs rule: check_sources.induct) (auto simp: res_bind_Inr_iff split: if_splits)

text \<open>C22. Delivery evidence is exact.  A read that succeeds answers each requested source, in order
  and for pairwise different positions and events: a source is missing only if no row is at its
  position; what is retained is the validated admission of the row at that position, event and
  scope, with the row's own state; an acknowledged state is backed by the stored receipt of its
  last attempt, for a purged row too.\<close>
theorem source_evidence_exact:
  assumes "read_source_deliveries sha env l scope stream sources budget s = Inr answers"
  shows "list_all2 (evidence_holds sha s l scope stream) sources answers \<and> distinct (map xs_source_sequence sources) \<and>
    distinct (map xs_source_event_id sources) \<and> length answers \<le> 256"
proof -
  have checks: "check_sources {} {} sources = Inr ()" "length sources \<le> 256"
    using assms by (auto simp: read_source_deliveries_def res_bind_Inr_iff first_error_ok is_ok_unit split: if_splits)
  have "read_each sha env l scope stream budget s 0 sources = Inr answers"
    using assms
    by (auto simp: read_source_deliveries_def with_cancellable_bounded_connection_def with_busy_budget_def res_bind_Inr_iff
        split: sum.splits if_splits)
  then have "list_all2 (evidence_holds sha s l scope stream) sources answers" by (rule read_each_holds)
  with checks check_sources_distinct [OF checks(1)] show ?thesis using list_all2_lengthD by fastforce
qed

definition sample_sources :: "expected_source list" where
  "sample_sources = [\<lparr>xs_source_sequence = 1, xs_source_event_id = ''event1''\<rparr>, \<lparr>xs_source_sequence = 2, xs_source_event_id = ''event2''\<rparr>]"

definition sample_read :: source_read_env where
  "sample_read = \<lparr>se_check = (\<lambda>i. (False, int i)), se_lock_elapsed = 10, se_busy_timeout = (\<lambda>_. Inr ()), se_call = sample_call\<rparr>"

lemma sample_source_answers:
  "read_each zero_sha sample_read (''provider'', 1) sample_scope (rk_stream sample_target) 100 sample_store 0 sample_sources =
    Inr [Retained (sample_admitted 1 ''a'') Pending None, Missing]"
proof -
  let ?a = "sample_admitted 1 ''a''"
  define j where "j = journal_row_of zero_sha ?a"
  define d where "d = delivery_row_of zero_sha ?a 1"
  have rows: "st_journal sample_store = [j]" "st_delivery sample_store = [d]"
    by (simp_all add: sample_store_rows j_def d_def)
  have admitted: "decode_admitted zero_sha j d = Inr ?a" unfolding j_def d_def
    by (rule decode_admitted_appended [OF sample_admitted_valid sample_typed])
      (simp_all add: delivery_row_of_def MAX_PAYLOAD_BYTES_def decimal.simps)
  have row: "parse_digest f (j_idempotency_key j) = Inr sample_digest" "observation_id_parse (j_observation_id j) = Inr (ao_observation_id ?a)"
    "j_exact_scope j = sample_scope" "settlement_receipt_validate (sample_source 1) = Inr ()" "j_payload_bytes j \<noteq> None"
    "d_attempt_number d = 0" "d_last_receipt_id d = None" "d_last_outcome d = None" "d_last_committed_effect d = None"
    "d_state d = Pending" "d_idempotency_key d = j_idempotency_key j" "j_source j = sample_source 1" for f
    using sample_observation_id
    by (simp_all add: j_def d_def journal_row_of_def delivery_row_of_def parse_digest_def sample_admitted_def sample_source_def
        settlement_receipt_validate_def decimal.simps require_bounded_def require_non_empty_def require_sha256_def
        SOURCE_EVENT_ID_MAX_BYTES_def)
  have key: "j_lane j = (''provider'', 1)" "j_stream j = rk_columns sample_target" "j_sequence j = 1"
    "source_row_matches (''provider'', 1) sample_scope (rk_stream sample_target) \<lparr>xs_source_sequence = 1, xs_source_event_id = ''event1''\<rparr> j d"
    by (simp_all add: source_row_matches_def j_def d_def journal_row_of_def delivery_row_of_def j_lane_def d_lane_def j_stream_def
        j_sequence_def sample_admitted_def sample_source_def sample_target_def stream_columns_of_def decimal.simps exact_scope_sha256_def
        char_of_def bit_Suc_0_iff)
  have fields: "ao_idempotency_key ?a = sample_digest" "ao_exact_scope ?a = sample_scope" "ao_source ?a = sample_source 1"
    by (simp_all add: sample_admitted_def)
  show ?thesis
    by (simp del: One_nat_def add: sample_sources_def sample_read_def check_bound_def select_source_def delivery_of_def rows key row
        sql_i64_def i64_max_def decode_source_delivery_def admitted fields lift_api_def sample_scope_valid read_u32_def
        last_receipt_of_def is_acknowledged_def)
qed

theorem source_evidence_exact_witness:
  "read_source_deliveries zero_sha sample_read (''provider'', 1) sample_scope (rk_stream sample_target) sample_sources 100 sample_store =
      Inr [Retained (sample_admitted 1 ''a'') Pending None, Missing] \<and>
    distinct (map xs_source_sequence sample_sources)"
proof -
  have "read_source_deliveries zero_sha sample_read (''provider'', 1) sample_scope (rk_stream sample_target) sample_sources 100
      sample_store = Inr [Retained (sample_admitted 1 ''a'') Pending None, Missing]"
    using sample_source_answers
    by (simp add: read_source_deliveries_def with_cancellable_bounded_connection_def with_busy_budget_def check_bound_def
        sample_read_def sample_call_def lane_validate_def lift_api_def sample_scope_valid stream_key_validate_def require_sha256_def
        sample_target_def exact_scope_sha256_def sample_sources_def lock_within_cancellable_def is_spent_def busy_cap_def
        sat_sub_i64_def i64_max_def i64_min_def require_bounded_def require_non_empty_def SOURCE_EVENT_ID_MAX_BYTES_def)
  then show ?thesis using source_evidence_exact by blast
qed

end
