(* ===== verification/Spec2Isabelle.thy ===== *)
theory Spec2Isabelle
  imports Framing Fence_Properties Delivery_Idle Ingress_Properties Journal_Types Source_Evidence
begin

text \<open>
  \<^bold>\<open>A verification library for the observation path of tracedecay.\<close>

  Tracedecay records what a coding agent did and delivers it to memory providers.  The part
  modelled here is the path a settled source event takes through
  \<^verbatim>\<open>src/crates/tracedecay-memory-observation\<close>, the provider contract it is built on
  (\<^verbatim>\<open>tracedecay-memory-provider-api\<close> and the generated contract under \<^verbatim>\<open>src/product\<close>), and the
  bounded framing of the transports (\<^verbatim>\<open>tracedecay-framing\<close>).

  \<^bold>\<open>The parts and how they interact.\<close>  The ingress runtime recovers the replay position of a
  source stream and walks a batch of canonical records through the backpressure gate and the
  admission adapter into the journal, which stores each record once: as an admitted observation,
  as a withheld event or as a non-message checkpoint.  An admission is a journal row and a
  delivery row.  The delivery runtime leases waiting rows in bounded batches, hands each to the
  provider and records a receipt, a refusal or a release; lapsed leases are reaped.  An
  acknowledging receipt advances the watermark of its registration and stream.  Before a
  restarted provider is delivered to, a recovery assessment compares what it reports with the
  recovery record and the journal.  Retention sweeps purge and delete what is due, a privacy
  deletion forgets one source, and fences tell a provider which sources it must not use.  Paged
  inspection and the delivery evidence per source read all this back.

  \<^bold>\<open>Representation.\<close>  A Rust string is its byte list, so its length is the length in bytes.  Machine
  integers are naturals or integers with the saturating, checked and wrapping operations of the
  source written out against the bounds of the type (\<^verbatim>\<open>Prelude\<close>).  A struct is a record whose
  fields carry a short prefix, an enum is a datatype with the source's constructors, and a
  \<^verbatim>\<open>Result\<close> is a sum whose left summand is the error.  The database is the record \<^typ>\<open>journal_store\<close> of
  its tables, each the list of its rows; a column that serde fills holds the decoded value, and
  the invariant \<^const>\<open>store_ok\<close> collects the keys, unique indexes, references and checks of the schema.
  A transaction maps a store to an error or to a result with the new store, and a failed
  transaction leaves the store as it was.  A stateful component is a record that its operations
  return updated.  SHA-256 is the parameter \<open>sha\<close>; where a theorem speaks of identities it says
  that two different inputs with one digest exhibit a collision.

  \<^bold>\<open>Environment.\<close>  What the code does not decide itself is an argument, usually a record of answers
  indexed by the point where they are read: the provider adapter, the clock and the shared token of
  a round (\<^typ>\<open>round_env\<close>), the caller of a drain (\<^typ>\<open>drain_tick\<close>), the admission adapter and the caller of
  an ingest (\<^verbatim>\<open>ingress_env\<close>), the mutex, the busy database and the token of a bounded call
  (\<^typ>\<open>intent_control\<close>, \<^typ>\<open>bounded_call\<close>, \<^typ>\<open>recovery_env\<close>, \<^typ>\<open>source_read_env\<close>), the write-ahead-log
  checkpoint, and the operations of other processes on the same journal.  Theorems quantify over
  all of them unless they say otherwise.

  \<^bold>\<open>Theories.\<close>  Paths are relative to \<^verbatim>\<open>tracedecay-memory-observation/src\<close> unless they name a crate.

  \<^item> \<^verbatim>\<open>Prelude\<close>, \<^verbatim>\<open>Utf8\<close>, \<^verbatim>\<open>Byte_Framing\<close>: machine arithmetic, results, tables as lists, UTF-8
    validity, hexadecimal text and length-framed preimages.  The locale \<^verbatim>\<open>framed_identity\<close> carries
    the collision argument to the identities of the journal and of recovery.
  \<^item> \<^verbatim>\<open>Framing\<close>: the readers of \<^verbatim>\<open>tracedecay-framing/src/lib.rs\<close> over a list of source events.  What is
    read does not depend on chunking or on dropped read futures, memory is bounded, and lines are
    read back as written.
  \<^item> \<^verbatim>\<open>Provider_Api\<close>, \<^verbatim>\<open>Hygiene\<close>: identifiers, scopes, payloads, extensions and their digests
    (\<^verbatim>\<open>tracedecay-memory-provider-api/src/lib.rs\<close>); sanitization receipts with their hand-written JSON
    writer and parser (\<^verbatim>\<open>hygiene.rs\<close> of that crate) and its round trip.
  \<^item> \<^verbatim>\<open>Delivery_State\<close>, \<^verbatim>\<open>Journal_Identity\<close>, \<^verbatim>\<open>Envelope\<close>, \<^verbatim>\<open>Receipts\<close>, \<^verbatim>\<open>Policies\<close>: the delivery state
    machine (\<^verbatim>\<open>state.rs\<close>, \<^verbatim>\<open>error.rs\<close>), identities (\<^verbatim>\<open>identity.rs\<close>), admissions and settlement
    (\<^verbatim>\<open>envelope.rs\<close>, \<^verbatim>\<open>settlement.rs\<close>), leases, receipts, refusals and orphans (\<^verbatim>\<open>lease.rs\<close>, \<^verbatim>\<open>receipt.rs\<close>,
    \<^verbatim>\<open>refusal.rs\<close>, \<^verbatim>\<open>orphan.rs\<close>), retention and dispatch policies (\<^verbatim>\<open>retention.rs\<close>,
    \<^verbatim>\<open>runtime/dispatch_policy.rs\<close>).  Wire enumerations are instances of the locale \<^verbatim>\<open>wire_codec\<close>.
  \<^item> \<^verbatim>\<open>Journal_Store\<close>: tables, codecs and transactions (\<^verbatim>\<open>sqlite/schema.rs\<close>, \<^verbatim>\<open>sqlite/row.rs\<close>,
    \<^verbatim>\<open>sqlite/mod.rs\<close>).  \<^verbatim>\<open>Journal_Append\<close> and \<^verbatim>\<open>Journal_Replay\<close>: admission (\<^verbatim>\<open>sqlite/append.rs\<close>) and the
    replay discipline; the locale \<^verbatim>\<open>ingress_operations\<close> carries it to every interleaving.
  \<^item> \<^verbatim>\<open>Journal_Dispatch\<close>: delivery (\<^verbatim>\<open>sqlite/dispatch.rs\<close>).  \<^verbatim>\<open>Journal_Watermark\<close>, \<^verbatim>\<open>Journal_Delivery\<close>,
    \<^verbatim>\<open>Journal_Decode\<close>, \<^verbatim>\<open>Journal_Lease\<close>, \<^verbatim>\<open>Journal_Attempts\<close>, \<^verbatim>\<open>Journal_Types\<close>, \<^verbatim>\<open>Journal_Inspect\<close>: what
    each operation promises, that what is leased is exclusive, bounded and well formed, that
    attempts are accounted for, that rows read back as appended, and that the paged inspection
    (\<^verbatim>\<open>inspection.rs\<close>) is complete.
  \<^item> \<^verbatim>\<open>Journal_Retention\<close> and \<^verbatim>\<open>Journal_Sweep\<close>: sweeps, forgetting and their schedule
    (\<^verbatim>\<open>sqlite/retention.rs\<close>, \<^verbatim>\<open>retention.rs\<close>, \<^verbatim>\<open>runtime/retention.rs\<close>).  \<^verbatim>\<open>Source_Fence\<close> and
    \<^verbatim>\<open>Fence_Properties\<close>: provider source fences, plain and bounded.
  \<^item> \<^verbatim>\<open>Journal_Operations\<close>: the state-changing operations of the ports (\<^verbatim>\<open>port.rs\<close>) interleaved; the locale \<^verbatim>\<open>journal_operations\<close> states
    what each promises and is interpreted on \<^const>\<open>run_journal\<close>.
  \<^item> \<^verbatim>\<open>Delivery_Runtime\<close>: rounds, drains, reaping, shutdown and the wake edge (\<^verbatim>\<open>runtime/delivery.rs\<close>,
    \<^verbatim>\<open>runtime/wake.rs\<close>, \<^verbatim>\<open>runtime/error.rs\<close>).  \<^verbatim>\<open>Delivery_Drain\<close>, \<^verbatim>\<open>Delivery_Leases\<close>, \<^verbatim>\<open>Delivery_Evidence\<close>,
    \<^verbatim>\<open>Delivery_Idle\<close>: refinement to journal operations and termination, no lease left behind,
    acknowledgements only from the provider, and what quiescence means.
  \<^item> \<^verbatim>\<open>Backpressure\<close>, \<^verbatim>\<open>Ingress_Runtime\<close>, \<^verbatim>\<open>Ingress_Properties\<close>: the gate (\<^verbatim>\<open>runtime/backpressure.rs\<close>) and
    the ingest of a batch (\<^verbatim>\<open>runtime/ingress.rs\<close>), in which no record is dropped silently.
  \<^item> \<^verbatim>\<open>Recovery\<close>, \<^verbatim>\<open>Recovery_Properties\<close>: restart recovery (\<^verbatim>\<open>recovery.rs\<close>, \<^verbatim>\<open>sqlite/recovery.rs\<close>,
    \<^verbatim>\<open>runtime/recovery.rs\<close>), the coherence of what it permits and the bound on what it spends.
  \<^item> \<^verbatim>\<open>Source_Delivery\<close>, \<^verbatim>\<open>Source_Evidence\<close>: delivery evidence per source (\<^verbatim>\<open>source_delivery.rs\<close>,
    \<^verbatim>\<open>sqlite/source_delivery.rs\<close>).

  A function of the source that is long is several definitions here, one per phase, loop or branch,
  composed in its order; small auxiliary definitions stand for one clause of the function that
  uses them.

  \<^bold>\<open>Bounds and fuel.\<close>  Loops over rows, batches, records and polls recurse on the list they walk, and
  the readers of \<^verbatim>\<open>Framing\<close> and the JSON parser carry termination proofs.  Three loops need an
  argument of their own.  The drain is \<^const>\<open>drain_loop\<close>, a partial function into an option; it
  returns for every environment because each round counts against the round bound, a 32-bit value.
  \<^const>\<open>inspect_pages\<close>, a caller that follows the cursors, has fuel, and any fuel above the number of
  matching rows is enough because a page that has a cursor is not empty.  \<^const>\<open>tick_until_idle\<close>, a
  caller that ticks a due sweeper, has fuel, and one more than the measure \<^const>\<open>sweep_work\<close> of the
  store is enough because a sweep that leaves candidates has lowered it.

  \<^bold>\<open>Known departures.\<close>  The lemmas \<^verbatim>\<open>lease_beyond_max_attempts\<close>,
  \<^verbatim>\<open>drain_quiesced_on_shutdown\<close>, \<^verbatim>\<open>full_lane_reads_empty\<close>, \<^verbatim>\<open>breach_counter_wraps\<close>,
  \<^verbatim>\<open>ingest_error_keeps_wake\<close>, \<^verbatim>\<open>swept_target_refused\<close> and \<^verbatim>\<open>alternating_assessments_spend\<close> exhibit
  behaviour that the comments or the evident intent of the source exclude; each is proved of the
  model of the code as it is.

  \<^bold>\<open>Not modelled.\<close>  Schema creation and migration are SQL text that runs when the database is opened.
  SQLite itself, the mutex and condition variable of the runtime, and the clock are environment.
  Of the provider contract, descriptors, limits, provider calls, advisory recall and context
  delivery are not on the observation path.  The detectors and the redaction walk of
  sanitization, the memory fabric and the providers themselves stand behind the admission and
  delivery adapters.  Code intelligence, sessions, the daemon with its transports and surfaces,
  agent hosts, the application layer, the dashboard and the SDKs are separate subsystems that reach
  the observation path only through the records and adapters named above.
\<close>

end
